(* ===== verification/Prelude.thy ===== *)
theory Prelude
  imports Main "HOL-Library.Word"
begin

text \<open>
  What every component of the development shares: the byte and string types with the pieces of
  Rust's standard library the code uses on them, the fallible state-passing computations
  (\<open>exec\<close>) that model methods returning \<open>Result\<close> while they change a store, a network or the
  random source, the operating system's random source itself, and the lemma collections the
  component proofs share.
\<close>

unbundle bit_operations_syntax

section \<open>Types\<close>

type_synonym byte = "8 word"
type_synonym bytes = "8 word list"
type_synonym u16 = "16 word"
type_synonym u32 = "32 word"

named_theorems exec_simps \<open>equations that unfold fallible state-passing computations\<close>
named_theorems keeps_intros \<open>rules that compose preservation of a state predicate\<close>

section \<open>Fallible computations with state\<close>

text \<open>
  A method that returns \<open>Result\<close> and changes something is a function from the state to its
  result and the new state. An error does not undo the state changes made before it.
\<close>

type_synonym ('s, 'e, 'a) exec = "'s \<Rightarrow> ('e + 'a) \<times> 's"

definition ret :: "'a \<Rightarrow> ('s, 'e, 'a) exec" where
  "ret x s = (Inr x, s)"

definition throw :: "'e \<Rightarrow> ('s, 'e, 'a) exec" where
  "throw e s = (Inl e, s)"

text \<open>Sequencing with the \<open>?\<close> operator: the first error ends the computation.\<close>

definition and_then :: "('s, 'e, 'a) exec \<Rightarrow> ('a \<Rightarrow> ('s, 'e, 'b) exec) \<Rightarrow> ('s, 'e, 'b) exec" where
  "and_then m f s = (case m s of (Inl e, s') \<Rightarrow> (Inl e, s') | (Inr x, s') \<Rightarrow> f x s')"

definition lift_result :: "'e + 'a \<Rightarrow> ('s, 'e, 'a) exec" where
  "lift_result r s = (r, s)"

definition map_error :: "('e \<Rightarrow> 'f) \<Rightarrow> ('s, 'e, 'a) exec \<Rightarrow> ('s, 'f, 'a) exec" where
  "map_error g m s = (case m s of (r, s') \<Rightarrow> (map_sum g id r, s'))"

text \<open>Matching on a \<open>Result\<close> instead of propagating its error.\<close>

definition attempt :: "('s, 'e, 'a) exec \<Rightarrow> ('s, 'f, 'e + 'a) exec" where
  "attempt m s = (case m s of (r, s') \<Rightarrow> (Inr r, s'))"

definition read_state :: "('s \<Rightarrow> 'a) \<Rightarrow> ('s, 'e, 'a) exec" where
  "read_state f s = (Inr (f s), s)"

definition modify_state :: "('s \<Rightarrow> 's) \<Rightarrow> ('s, 'e, unit) exec" where
  "modify_state f s = (Inr (), f s)"

text \<open>Running a computation on a part of a larger state.\<close>

definition on_part :: "('t \<Rightarrow> 's) \<Rightarrow> (('s \<Rightarrow> 's) \<Rightarrow> 't \<Rightarrow> 't) \<Rightarrow> ('s, 'e, 'a) exec \<Rightarrow> ('t, 'e, 'a) exec" where
  "on_part get upd m t = (case m (get t) of (r, s') \<Rightarrow> (r, upd (\<lambda>_. s') t))"

text \<open>Rust's \<open>ok_or\<close>.\<close>

definition ok_or :: "'a option \<Rightarrow> 'e \<Rightarrow> 'e + 'a" where
  "ok_or o' e = (case o' of None \<Rightarrow> Inl e | Some x \<Rightarrow> Inr x)"

lemma ret_eq [exec_simps]: "ret x s = (Inr x, s)"
  by (simp add: ret_def)

lemma throw_eq [exec_simps]: "throw e s = (Inl e, s)"
  by (simp add: throw_def)

lemma lift_result_eq [exec_simps]: "lift_result r s = (r, s)"
  by (simp add: lift_result_def)

lemma read_state_eq [exec_simps]: "read_state f s = (Inr (f s), s)"
  by (simp add: read_state_def)

lemma modify_state_eq [exec_simps]: "modify_state f s = (Inr (), f s)"
  by (simp add: modify_state_def)

lemma and_then_Inl: "m s = (Inl e, s') \<Longrightarrow> and_then m f s = (Inl e, s')"
  by (simp add: and_then_def)

lemma and_then_Inr: "m s = (Inr x, s') \<Longrightarrow> and_then m f s = f x s'"
  by (simp add: and_then_def)

lemma ok_or_simps [simp]: "ok_or None e = Inl e" "ok_or (Some x) e = Inr x"
  by (simp_all add: ok_or_def)

lemma ok_or_Inr_iff [simp]: "ok_or v e = Inr x \<longleftrightarrow> v = Some x"
  by (cases v) auto

lemma map_sum_id_Inr_iff [simp]: "map_sum g id r = Inr x \<longleftrightarrow> r = Inr x"
  by (cases r) simp_all

lemma map_sum_id_Inl_iff [simp]: "map_sum g id r = Inl e \<longleftrightarrow> (\<exists>e'. r = Inl e' \<and> e = g e')"
  by (cases r) auto

lemma and_then_InrE:
  assumes "and_then m f s = (Inr y, t)"
  obtains x s' where "m s = (Inr x, s')" and "f x s' = (Inr y, t)"
  using assms by (auto simp: and_then_def split: prod.splits sum.splits)

lemma and_then_Inr_iff:
  "and_then m f s = (Inr y, t) \<longleftrightarrow> (\<exists>x s'. m s = (Inr x, s') \<and> f x s' = (Inr y, t))"
  by (auto simp: and_then_def split: prod.splits sum.splits)

lemma and_then_Inl_iff:
  "and_then m f s = (Inl e, t) \<longleftrightarrow>
     m s = (Inl e, t) \<or> (\<exists>x s'. m s = (Inr x, s') \<and> f x s' = (Inl e, t))"
  by (auto simp: and_then_def split: prod.splits sum.splits)

lemma map_error_Inr_iff [simp]: "map_error g m s = (Inr x, t) \<longleftrightarrow> m s = (Inr x, t)"
  by (auto simp: map_error_def split: prod.splits sum.splits)

lemma map_error_Inl_iff: "map_error g m s = (Inl e, t) \<longleftrightarrow> (\<exists>e'. m s = (Inl e', t) \<and> e = g e')"
  by (auto simp: map_error_def split: prod.splits)

lemma map_error_run: "m s = (r, s') \<Longrightarrow> map_error g m s = (map_sum g id r, s')"
  by (simp add: map_error_def)

lemma attempt_run: "m s = (r, s') \<Longrightarrow> attempt m s = (Inr r, s')"
  by (simp add: attempt_def)

lemma on_part_Inr_iff:
  "on_part get upd m t = (Inr x, t') \<longleftrightarrow> (\<exists>s'. m (get t) = (Inr x, s') \<and> t' = upd (\<lambda>_. s') t)"
  by (auto simp: on_part_def split: prod.splits)

lemma on_part_iff:
  "on_part get upd m t = (r, t') \<longleftrightarrow> (\<exists>s'. m (get t) = (r, s') \<and> t' = upd (\<lambda>_. s') t)"
  by (auto simp: on_part_def split: prod.splits)

lemmas exec_result = and_then_Inr_iff and_then_Inl_iff map_error_Inl_iff on_part_iff

lemma and_then_assoc: "and_then (and_then m f) g = and_then m (\<lambda>x. and_then (f x) g)"
  by (rule ext) (simp add: and_then_def split: prod.split sum.split)

lemma and_then_ret: "and_then (ret x) f = f x"
  by (simp add: fun_eq_iff and_then_def ret_def)

lemma and_then_throw: "and_then (throw e) f = throw e"
  by (simp add: fun_eq_iff and_then_def throw_def)

lemma lift_Inr: "lift_result (Inr x) = ret x"
  by (simp add: fun_eq_iff lift_result_def ret_def)

lemma lift_Inl: "lift_result (Inl e) = throw e"
  by (simp add: fun_eq_iff lift_result_def throw_def)

lemma and_then_read: "and_then (read_state g) f s = f (g s) s"
  by (simp add: and_then_def read_state_def)

lemmas exec_steps = and_then_ret and_then_throw lift_Inr lift_Inl and_then_read

subsection \<open>State predicates a computation keeps\<close>

text \<open>Whatever its result, the computation takes states that satisfy the predicate to such states.\<close>

definition keeps :: "('s \<Rightarrow> bool) \<Rightarrow> ('s, 'e, 'a) exec \<Rightarrow> bool" where
  "keeps I m \<longleftrightarrow> (\<forall>s r s'. I s \<longrightarrow> m s = (r, s') \<longrightarrow> I s')"

lemma keepsI: "(\<And>s r s'. I s \<Longrightarrow> m s = (r, s') \<Longrightarrow> I s') \<Longrightarrow> keeps I m"
  by (auto simp: keeps_def)

lemma keepsD: "keeps I m \<Longrightarrow> I s \<Longrightarrow> m s = (r, s') \<Longrightarrow> I s'"
  by (auto simp: keeps_def)

lemma keeps_ret [keeps_intros]: "keeps I (ret x)"
  by (simp add: keeps_def ret_def)

lemma keeps_throw [keeps_intros]: "keeps I (throw e)"
  by (simp add: keeps_def throw_def)

lemma keeps_lift_result [keeps_intros]: "keeps I (lift_result r)"
  by (simp add: keeps_def lift_result_def)

lemma keeps_read_state [keeps_intros]: "keeps I (read_state f)"
  by (simp add: keeps_def read_state_def)

lemma keeps_map_error [keeps_intros]: "keeps I m \<Longrightarrow> keeps I (map_error g m)"
  by (fastforce simp: keeps_def map_error_def split: prod.splits)

lemma keeps_attempt [keeps_intros]: "keeps I m \<Longrightarrow> keeps I (attempt m)"
  by (fastforce simp: keeps_def attempt_def split: prod.splits)

lemma keeps_and_then [keeps_intros]:
  assumes "keeps I m" and "\<And>x. keeps I (f x)"
  shows "keeps I (and_then m f)"
proof (rule keepsI)
  fix s r s'
  assume "I s" and run: "and_then m f s = (r, s')"
  obtain v t where m: "m s = (v, t)" by (cases "m s")
  with assms(1) \<open>I s\<close> have "I t" by (rule keepsD)
  with assms(2) m run show "I s'"
    by (cases v) (auto simp: and_then_def dest: keepsD)
qed

lemma keeps_modify [keeps_intros]: "(\<And>s. I s \<Longrightarrow> I (f s)) \<Longrightarrow> keeps I (modify_state f)"
  by (simp add: keeps_def modify_state_def)

section \<open>The operating system's random source\<close>

text \<open>
  \<open>OsRng\<close>: the bytes it will still return, as a function of their position. Filling a buffer
  takes the next bytes. The source never fails (\<open>rand\<close>'s \<open>OsRng\<close> panics instead).
\<close>

type_synonym rng = "nat \<Rightarrow> byte"

definition fill_bytes :: "nat \<Rightarrow> (rng, 'e, bytes) exec" where
  "fill_bytes n r = (Inr (map r [0..<n]), (\<lambda>i. r (i + n)))"

lemma fill_bytes_Inr_iff [simp]:
  "fill_bytes n r = (Inr bs, r') \<longleftrightarrow> bs = map r [0..<n] \<and> r' = (\<lambda>i. r (i + n))"
  by (auto simp: fill_bytes_def)

lemma fill_bytes_no_error [simp]: "fill_bytes n r \<noteq> (Inl e, r')"
  by (simp add: fill_bytes_def)

section \<open>Strings and bytes\<close>

text \<open>
  A Rust string is its UTF-8 bytes; \<^typ>\<open>string\<close> here is the list of those bytes as
  \<^typ>\<open>char\<close>s, so \<^term>\<open>length\<close> is \<open>str::len\<close>.
\<close>

definition byte_of_char :: "char \<Rightarrow> byte" where
  "byte_of_char c = of_nat (of_char c)"

definition char_of_byte :: "byte \<Rightarrow> char" where
  "char_of_byte b = char_of (unat b)"

text \<open>\<open>str::as_bytes\<close>, and the characters of a byte string.\<close>

definition str_bytes :: "string \<Rightarrow> bytes" where
  "str_bytes s = map byte_of_char s"

definition bytes_str :: "bytes \<Rightarrow> string" where
  "bytes_str bs = map char_of_byte bs"

lemma unat_byte_of_char [simp]: "unat (byte_of_char c) = of_char c"
  by (simp add: byte_of_char_def unat_of_nat)

lemma char_of_byte_of_char [simp]: "char_of_byte (byte_of_char c) = c"
  by (simp add: char_of_byte_def)

lemma byte_of_char_of_byte [simp]: "byte_of_char (char_of_byte b) = b"
proof -
  have "unat b < 256" using unsigned_less [of b] by simp
  then have "unat (byte_of_char (char_of_byte b)) = unat b"
    by (simp add: char_of_byte_def)
  then show ?thesis by (rule word_unat_eq_iff [THEN iffD2])
qed

lemma bytes_str_inverse [simp]: "bytes_str (str_bytes s) = s"
  by (induction s) (simp_all add: bytes_str_def str_bytes_def)

lemma str_bytes_inverse [simp]: "str_bytes (bytes_str bs) = bs"
  by (induction bs) (simp_all add: bytes_str_def str_bytes_def)

lemma length_str_bytes [simp]: "length (str_bytes s) = length s"
  by (simp add: str_bytes_def)

lemma str_bytes_eq_iff [simp]: "str_bytes s = str_bytes t \<longleftrightarrow> s = t"
  by (metis bytes_str_inverse)

text \<open>\<open>char::to_ascii_uppercase\<close>.\<close>

definition ascii_upper :: "char \<Rightarrow> char" where
  "ascii_upper c =
     (let n = of_char c :: nat in if 97 \<le> n \<and> n \<le> 122 then char_of (n - 32) else c)"

text \<open>\<open>char::to_ascii_lowercase\<close>, for the statements about case.\<close>

definition ascii_lower :: "char \<Rightarrow> char" where
  "ascii_lower c =
     (let n = of_char c :: nat in if 65 \<le> n \<and> n \<le> 90 then char_of (n + 32) else c)"

text \<open>\<open>str::trim_end_matches\<close> with a character.\<close>

definition trim_end_matches :: "char \<Rightarrow> string \<Rightarrow> string" where
  "trim_end_matches c s = rev (dropWhile (\<lambda>x. x = c) (rev s))"

text \<open>\<open>Iterator::position\<close> of the first equal element.\<close>

fun position :: "'a \<Rightarrow> 'a list \<Rightarrow> nat option" where
  "position x [] = None"
| "position x (y # ys) = (if y = x then Some 0 else map_option Suc (position x ys))"

lemma position_Some: "position x xs = Some i \<Longrightarrow> i < length xs \<and> xs ! i = x"
  by (induction xs arbitrary: i) (auto split: if_splits)

lemma position_nth: "distinct xs \<Longrightarrow> i < length xs \<Longrightarrow> position (xs ! i) xs = Some i"
proof (induction xs arbitrary: i)
  case Nil
  then show ?case by simp
next
  case (Cons y ys)
  then show ?case by (cases i) auto
qed

lemma position_None: "position x xs = None \<longleftrightarrow> x \<notin> set xs"
  by (induction xs) auto

lemma trim_end_no_match: "s = [] \<or> last s \<noteq> c \<Longrightarrow> trim_end_matches c s = s"
  by (cases s rule: rev_cases) (auto simp: trim_end_matches_def)

lemma trim_end_append:
  "trim_end_matches c t \<noteq> [] \<Longrightarrow> trim_end_matches c (s @ t) = s @ trim_end_matches c t"
  by (auto simp: trim_end_matches_def dropWhile_append)

lemma trim_end_snoc [simp]: "trim_end_matches c (s @ [c]) = trim_end_matches c s"
  by (simp add: trim_end_matches_def)

section \<open>Encodings that can be read back\<close>

text \<open>Rust's \<open>Result::ok\<close>.\<close>

definition ok_of :: "'e + 'a \<Rightarrow> 'a option" where
  "ok_of r = (case r of Inl e \<Rightarrow> None | Inr x \<Rightarrow> Some x)"

lemma ok_of_simps [simp]: "ok_of (Inl e) = None" "ok_of (Inr x) = Some x"
  by (simp_all add: ok_of_def)

lemma ok_of_Some_iff [simp]: "ok_of r = Some x \<longleftrightarrow> r = Inr x"
  by (cases r) auto

text \<open>
  The contract of every printer/parser, encoder/decoder pair of the code: decoding an encoded
  well-formed value gives the value back.
\<close>

locale codec =
  fixes wf :: "'a \<Rightarrow> bool"
    and enc :: "'a \<Rightarrow> 'b"
    and dec :: "'b \<Rightarrow> 'a option"
  assumes dec_enc: "wf x \<Longrightarrow> dec (enc x) = Some x"
begin

lemma enc_inject: "wf x \<Longrightarrow> wf y \<Longrightarrow> enc x = enc y \<Longrightarrow> x = y"
  by (metis dec_enc option.inject)

lemma inj_on_enc: "inj_on enc {x. wf x}"
  by (auto intro: inj_onI enc_inject)

end

end
