(* ===== verification/Bit_Groups.thy ===== *)
theory Bit_Groups
  imports Prelude
begin

text \<open>
  Words as bit strings, most significant bit first, and bit strings cut into groups of equal
  length: the vocabulary in which the base32 loops of \<open>Secret_Key\<close> are specified.
\<close>

section \<open>Bit strings of words\<close>

definition bits_of :: "nat \<Rightarrow> 'a::len word \<Rightarrow> bool list" where
  "bits_of n w = map (bit w) (rev [0..<n])"

definition bits_val :: "bool list \<Rightarrow> 'a::len word" where
  "bits_val bs = horner_sum of_bool 2 (rev bs)"

lemma length_bits_of [simp]: "length (bits_of n w) = n"
  by (simp add: bits_of_def)

lemma bits_of_0 [simp]: "bits_of 0 w = []"
  by (simp add: bits_of_def)

lemma bits_val_of: "bits_val (bits_of n w) = take_bit n w"
  by (simp add: bits_val_def bits_of_def rev_map horner_sum_bit_eq_take_bit)

lemma bits_of_cong: "(\<And>i. i < n \<Longrightarrow> bit w i = bit v i) \<Longrightarrow> bits_of n w = bits_of n v"
  by (simp add: bits_of_def)

lemma bits_of_split: "bits_of (m + n) w = bits_of m (drop_bit n w) @ bits_of n w"
proof -
  have "rev [n..<n + m] = map (\<lambda>i. n + i) (rev [0..<m])"
    by (rule nth_equalityI) (simp_all add: rev_nth)
  then show ?thesis
    by (simp add: bits_of_def add.commute [of m] upt_add_eq_append [of 0 n m, simplified] bit_drop_bit_eq o_def)
qed

lemma bits_of_push:
  fixes acc x :: "'a::len word"
  assumes "m + n \<le> LENGTH('a)" and "take_bit n x = x"
  shows "bits_of (m + n) (push_bit n acc OR x) = bits_of m acc @ bits_of n x"
proof -
  have x: "bit x i \<Longrightarrow> i < n" for i
    using assms(2) by (metis bit_take_bit_iff)
  have "bits_of m (drop_bit n (push_bit n acc OR x)) = bits_of m acc"
    using assms(1) x
    by (intro bits_of_cong) (force simp: bit_drop_bit_eq bit_or_iff bit_push_bit_iff)
  moreover have "bits_of n (push_bit n acc OR x) = bits_of n x"
    by (intro bits_of_cong) (auto simp: bit_or_iff bit_push_bit_iff)
  ultimately show ?thesis by (simp add: bits_of_split)
qed

lemma bits_val_inject:
  assumes "length bs \<le> LENGTH('a)"
  shows "bits_of (length bs) (bits_val bs :: 'a::len word) = bs"
proof -
  have "bit (bits_val bs :: 'a word) i \<longleftrightarrow> rev bs ! i" if "i < length bs" for i
    using that assms by (simp add: bits_val_def bit_horner_sum_bit_word_iff)
  then have "bits_of (length bs) (bits_val bs :: 'a word) = map ((!) (rev bs)) (rev [0..<length bs])"
    by (simp add: bits_of_def)
  also have "\<dots> = rev (map ((!) (rev bs)) [0..<length (rev bs)])"
    by (simp add: rev_map)
  also have "\<dots> = bs"
    by (simp only: map_nth rev_rev_ident)
  finally show ?thesis .
qed

lemma take_bit_word_self: "take_bit n (w :: 'a::len word) = w \<longleftrightarrow> unat w < 2 ^ n"
  by (simp add: word_unat_eq_iff unsigned_take_bit_eq take_bit_nat_eq_self_iff)

lemma take_bit_byte [simp]: "take_bit 8 (x :: byte) = x"
  using unsigned_less [of x] by (simp add: take_bit_word_self)

lemma bits_of_5_step:
  assumes "5 \<le> b"
  shows "bits_of b acc = bits_of 5 (drop_bit (b - 5) acc) @ bits_of (b - 5) acc"
  using bits_of_split [of 5 "b - 5" acc] assms by simp

section \<open>Groups of bits\<close>

text \<open>The complete groups of \<open>n\<close> bits; a shorter rest is dropped.\<close>

fun groups :: "nat \<Rightarrow> bool list \<Rightarrow> bool list list" where
  "groups n bs = (if n = 0 \<or> length bs < n then [] else take n bs # groups n (drop n bs))"

declare groups.simps [simp del]

lemma groups_short: "length bs < n \<Longrightarrow> groups n bs = []"
  by (simp add: groups.simps)

lemma groups_Cons: "0 < n \<Longrightarrow> length q = n \<Longrightarrow> groups n (q @ bs) = q # groups n bs"
  by (subst groups.simps) simp

lemma groups_concat: "0 < n \<Longrightarrow> \<forall>q \<in> set qs. length q = n \<Longrightarrow> groups n (concat qs @ bs) = qs @ groups n bs"
  by (induction qs) (simp_all add: groups_Cons)

lemma concat_groups: "concat (groups n bs) = take (n * (length bs div n)) bs"
proof (induction n bs rule: groups.induct)
  case (1 n bs)
  show ?case
  proof (cases "n = 0 \<or> length bs < n")
    case True
    then show ?thesis by (auto simp: groups.simps)
  next
    case False
    then have len: "length bs div n = Suc ((length bs - n) div n)"
      by (simp add: le_div_geq)
    from False have "concat (groups n bs) = take n bs @ concat (groups n (drop n bs))"
      by (subst groups.simps) simp
    also have "\<dots> = take n bs @ take (n * ((length bs - n) div n)) (drop n bs)"
      using 1 False by simp
    also have "\<dots> = take (n * (length bs div n)) bs"
      by (simp add: len take_add)
    finally show ?thesis .
  qed
qed

lemma length_in_groups: "q \<in> set (groups n bs) \<Longrightarrow> length q = n"
proof (induction n bs rule: groups.induct)
  case (1 n bs)
  then show ?case by (subst (asm) (2) groups.simps) (auto split: if_splits)
qed

lemma length_groups: "length (groups n bs) = length bs div n"
proof (induction n bs rule: groups.induct)
  case (1 n bs)
  then show ?case by (subst groups.simps) (auto simp: le_div_geq not_less)
qed

lemma groups_append:
  "groups n (xs @ ys) = groups n xs @ groups n (drop (n * (length xs div n)) xs @ ys)"
proof (cases "n = 0")
  case True
  then show ?thesis by (simp add: groups.simps)
next
  case False
  have "xs = concat (groups n xs) @ drop (n * (length xs div n)) xs"
    by (simp add: concat_groups)
  then have "groups n (xs @ ys) = groups n (concat (groups n xs) @ drop (n * (length xs div n)) xs @ ys)"
    by (metis append.assoc)
  then show ?thesis
    using False by (simp add: groups_concat length_in_groups)
qed

lemma drop_add_append: "a \<le> length xs \<Longrightarrow> drop (a + b) (xs @ ys) = drop b (drop a xs @ ys)"
  by (auto simp: add.commute)

text \<open>The bits of a byte string, and the bytes of a bit string with less than a byte to spare.\<close>

abbreviation bytes_bits :: "bytes \<Rightarrow> bool list" where
  "bytes_bits bs \<equiv> concat (map (bits_of 8) bs)"

lemma length_bytes_bits [simp]: "length (bytes_bits bs) = 8 * length bs"
  by (induction bs) auto

lemma bytes_of_bits:
  assumes "length r < 8"
  shows "map bits_val (groups 8 (bytes_bits bs @ r)) = bs"
proof -
  have "groups 8 (bytes_bits bs @ r) = map (bits_of 8) bs"
    using assms by (subst groups_concat) (auto simp: groups_short)
  moreover have "map (bits_val \<circ> bits_of 8) bs = bs"
    by (rule map_idI) (simp add: bits_val_of)
  ultimately show ?thesis by simp
qed

end
