(* ===== verification/Secret_Key.thy ===== *)
theory Secret_Key
  imports Bit_Groups
begin

text \<open>
  \<open>src/crypto/secret_key.rs\<close>: the account Secret Key, 160 random bits shown to the user as
  Crockford base32 in groups of four and read back forgivingly. The encoder and the decoder are
  the source's loops over a 32-bit accumulator whose high bits are shifted out. Their
  specification is the bit string of the input: the symbols the encoder writes carry the input's
  bits five at a time, the bytes the decoder returns carry the symbols' bits eight at a time.
\<close>

section \<open>Data\<close>

text \<open>The crate's error type for cryptographic operations (\<open>src/crypto/mod.rs\<close>).\<close>

datatype crypto_error =
    Kdf
  | Decrypt
  | Malformed string
  | SecretKeyError string

datatype secret_key = SecretKey bytes

definition SECRET_KEY_BYTES :: nat where
  "SECRET_KEY_BYTES = 20"

definition ALPHABET :: string where
  "ALPHABET = ''0123456789ABCDEFGHJKMNPQRSTVWXYZ''"

section \<open>Encoding\<close>

text \<open>
  The inner loop: five bits at a time leave the accumulator, a hyphen after every fourth symbol.
  The state is the number of pending bits, the symbol count and the output.
\<close>

fun drain_symbols :: "u32 \<Rightarrow> nat \<Rightarrow> nat \<Rightarrow> string \<Rightarrow> nat \<times> nat \<times> string" where
  "drain_symbols acc acc_bits symbols out =
     (if 5 \<le> acc_bits then
        let acc_bits' = acc_bits - 5;
            idx = unat (drop_bit acc_bits' acc AND 0x1f);
            out' = out @ [ALPHABET ! idx];
            symbols' = symbols + 1
        in drain_symbols acc acc_bits' symbols'
             (if symbols' mod 4 = 0 then out' @ ''-'' else out')
      else (acc_bits, symbols, out))"

declare drain_symbols.simps [simp del]

text \<open>The outer loop over the bytes, from the accumulator to the final flush.\<close>

fun encode_loop :: "bytes \<Rightarrow> u32 \<Rightarrow> nat \<Rightarrow> nat \<Rightarrow> string \<Rightarrow> u32 \<times> nat \<times> string" where
  "encode_loop [] acc acc_bits symbols out = (acc, acc_bits, out)"
| "encode_loop (b # bs) acc acc_bits symbols out =
     (let acc' = push_bit 8 acc OR ucast b;
          (acc_bits', symbols', out') = drain_symbols acc' (acc_bits + 8) symbols out
      in encode_loop bs acc' acc_bits' symbols' out')"

definition encode_grouped :: "bytes \<Rightarrow> string" where
  "encode_grouped bs =
     (let (acc, acc_bits, out) = encode_loop bs 0 0 0 [];
          out' = (if 0 < acc_bits
                  then out @ [ALPHABET ! unat (push_bit (5 - acc_bits) acc AND 0x1f)]
                  else out)
      in trim_end_matches CHR ''-'' out')"

section \<open>Decoding\<close>

definition symbol_value :: "char \<Rightarrow> crypto_error + u32" where
  "symbol_value upper =
     (if upper = CHR ''O'' then Inr 0
      else if upper = CHR ''I'' \<or> upper = CHR ''L'' then Inr 1
      else ok_or (map_option of_nat (position upper ALPHABET)) (SecretKeyError ''invalid character''))"

fun decode_loop :: "string \<Rightarrow> u32 \<Rightarrow> nat \<Rightarrow> bytes \<Rightarrow> crypto_error + bytes" where
  "decode_loop [] acc acc_bits out = Inr out"
| "decode_loop (ch # chs) acc acc_bits out =
     (let upper = ascii_upper ch in
      if upper = CHR ''-'' \<or> upper = CHR '' '' then decode_loop chs acc acc_bits out
      else (case symbol_value upper of
              Inl e \<Rightarrow> Inl e
            | Inr v \<Rightarrow>
                let acc' = push_bit 5 acc OR v;
                    acc_bits' = acc_bits + 5
                in if 8 \<le> acc_bits'
                   then decode_loop chs acc' (acc_bits' - 8)
                          (out @ [ucast (drop_bit (acc_bits' - 8) acc' AND 0xff)])
                   else decode_loop chs acc' acc_bits' out))"

definition decode_forgiving :: "string \<Rightarrow> crypto_error + bytes" where
  "decode_forgiving input = decode_loop input 0 0 []"

section \<open>The key's methods\<close>

definition sk_generate :: "(rng, 'e, secret_key) exec" where
  "sk_generate = and_then (fill_bytes SECRET_KEY_BYTES) (\<lambda>bs. ret (SecretKey bs))"

primrec sk_as_bytes :: "secret_key \<Rightarrow> bytes" where
  "sk_as_bytes (SecretKey bs) = bs"

definition sk_from_bytes :: "bytes \<Rightarrow> crypto_error + secret_key" where
  "sk_from_bytes bs =
     (if length bs = SECRET_KEY_BYTES then Inr (SecretKey bs)
      else Inl (SecretKeyError ''wrong length''))"

definition sk_display :: "secret_key \<Rightarrow> string" where
  "sk_display sk = encode_grouped (sk_as_bytes sk)"

definition sk_parse :: "string \<Rightarrow> crypto_error + secret_key" where
  "sk_parse input =
     (case decode_forgiving input of
        Inl e \<Rightarrow> Inl e
      | Inr decoded \<Rightarrow>
          if length decoded = SECRET_KEY_BYTES then Inr (SecretKey decoded)
          else Inl (SecretKeyError ''wrong length''))"

text \<open>The \<open>Debug\<close> rendering is the same text for every key.\<close>

definition sk_debug :: "secret_key \<Rightarrow> string" where
  "sk_debug sk = ''SecretKey(<redacted>)''"

text \<open>The array type \<open>[u8; 20]\<close>, as a predicate.\<close>

definition wf_sk :: "secret_key \<Rightarrow> bool" where
  "wf_sk sk \<longleftrightarrow> length (sk_as_bytes sk) = SECRET_KEY_BYTES"

section \<open>Specification: bits regrouped\<close>

text \<open>
  The symbol for five bits, a hyphen between groups of four symbols, and the padding of the bit
  string to a multiple of five.
\<close>

definition sym :: "bool list \<Rightarrow> char" where
  "sym q = ALPHABET ! unat (bits_val q :: u32)"

fun hyphenate :: "string \<Rightarrow> string" where
  "hyphenate s = (if length s \<le> 4 then s else take 4 s @ ''-'' @ hyphenate (drop 4 s))"

declare hyphenate.simps [simp del]

definition pad5 :: "bool list \<Rightarrow> bool list" where
  "pad5 bs = bs @ replicate ((5 - length bs mod 5) mod 5) False"

definition encode_spec :: "bytes \<Rightarrow> string" where
  "encode_spec bs = hyphenate (map sym (groups 5 (pad5 (bytes_bits bs))))"

text \<open>
  The values of the symbols of a text, its separators skipped, or the first error; the bytes a
  text stands for are the complete groups of eight of their bits.
\<close>

fun symbols_of :: "string \<Rightarrow> crypto_error + u32 list" where
  "symbols_of [] = Inr []"
| "symbols_of (c # cs) =
     (if ascii_upper c = CHR ''-'' \<or> ascii_upper c = CHR '' '' then symbols_of cs
      else (case symbol_value (ascii_upper c) of
              Inl e \<Rightarrow> Inl e
            | Inr v \<Rightarrow> map_sum id ((#) v) (symbols_of cs)))"

definition decode_spec :: "string \<Rightarrow> crypto_error + bytes" where
  "decode_spec input =
     map_sum id (\<lambda>vs. map bits_val (groups 8 (concat (map (bits_of 5) vs)))) (symbols_of input)"

text \<open>
  The canonical form of a text: upper case, no separators, look-alikes replaced.
\<close>

definition look_alike :: "char \<Rightarrow> char" where
  "look_alike c =
     (if c = CHR ''O'' then CHR ''0'' else if c = CHR ''I'' \<or> c = CHR ''L'' then CHR ''1'' else c)"

definition canonical :: "string \<Rightarrow> string" where
  "canonical s =
     map look_alike (filter (\<lambda>c. c \<noteq> CHR ''-'' \<and> c \<noteq> CHR '' '') (map ascii_upper s))"

section \<open>The encoder refines its specification\<close>

lemma length_ALPHABET: "length ALPHABET = 32"
  by (simp add: ALPHABET_def)

lemma alphabet_facts:
  assumes "i < 32"
  shows "symbol_value (ascii_upper (ALPHABET ! i)) = Inr (of_nat i)"
    and "ascii_upper (ALPHABET ! i) \<noteq> CHR ''-''"
    and "ascii_upper (ALPHABET ! i) \<noteq> CHR '' ''"
    and "ALPHABET ! i \<noteq> CHR ''-''"
proof -
  have "list_all (\<lambda>i. symbol_value (ascii_upper (ALPHABET ! i)) = Inr (of_nat i)
          \<and> ascii_upper (ALPHABET ! i) \<noteq> CHR ''-'' \<and> ascii_upper (ALPHABET ! i) \<noteq> CHR '' ''
          \<and> ALPHABET ! i \<noteq> CHR ''-'') [0..<32]"
    by code_simp
  then show "symbol_value (ascii_upper (ALPHABET ! i)) = Inr (of_nat i)"
    and "ascii_upper (ALPHABET ! i) \<noteq> CHR ''-''"
    and "ascii_upper (ALPHABET ! i) \<noteq> CHR '' ''"
    and "ALPHABET ! i \<noteq> CHR ''-''"
    using assms by (auto simp: list_all_iff)
qed

lemma symbol_value_bound: "symbol_value c = Inr v \<Longrightarrow> take_bit 5 v = v"
proof -
  assume v: "symbol_value c = Inr v"
  have "unat v < 32"
  proof (cases "c \<in> {CHR ''O'', CHR ''I'', CHR ''L''}")
    case True
    with v show ?thesis by (auto simp: symbol_value_def)
  next
    case False
    with v obtain p where p: "position c ALPHABET = Some p" "v = of_nat p"
      by (auto simp: symbol_value_def)
    then have "p < 32" using position_Some [OF p(1)] by (simp add: ALPHABET_def)
    with p(2) show ?thesis by (simp add: unat_of_nat)
  qed
  then show ?thesis
    by (simp add: take_bit_word_self)
qed

lemma unat_bits_val_bound:
  "length q = 5 \<Longrightarrow> unat (bits_val q :: u32) < 32"
proof -
  assume q: "length q = 5"
  then have "take_bit 5 (bits_val q :: u32) = bits_val q"
    using bits_val_inject [of q, where 'a = 32] bits_val_of [of 5 "bits_val q :: u32"] by simp
  then have "unat (bits_val q :: u32) < 2 ^ 5"
    by (simp only: take_bit_word_self)
  then show ?thesis by simp
qed

lemma sym_facts:
  assumes "length q = 5"
  shows "symbol_value (ascii_upper (sym q)) = Inr (bits_val q)"
    and "ascii_upper (sym q) \<noteq> CHR ''-''"
    and "ascii_upper (sym q) \<noteq> CHR '' ''"
    and "sym q \<noteq> CHR ''-''"
  using alphabet_facts [OF unat_bits_val_bound [OF assms]] by (simp_all add: sym_def)

text \<open>The encoder's running output: a hyphen after every symbol whose number is a multiple of four.\<close>

fun raw_hyphens :: "nat \<Rightarrow> string \<Rightarrow> string" where
  "raw_hyphens n [] = []"
| "raw_hyphens n (c # cs) =
     c # (if Suc n mod 4 = 0 then ''-'' else []) @ raw_hyphens (Suc n) cs"

lemma raw_hyphens_append:
  "raw_hyphens n (xs @ ys) = raw_hyphens n xs @ raw_hyphens (n + length xs) ys"
  by (induction xs arbitrary: n) auto

lemma sym_of_bits: "ALPHABET ! unat ((w :: u32) AND 31) = sym (bits_of 5 w)"
  by (simp add: sym_def bits_val_of take_bit_eq_mask mask_eq_exp_minus_1)

lemma drain_symbols_eq:
  "drain_symbols acc b n out =
     (b mod 5, n + b div 5, out @ raw_hyphens n (map sym (groups 5 (bits_of b acc))))"
proof (induction acc b n out rule: drain_symbols.induct)
  case (1 acc b n out)
  show ?case
  proof (cases "5 \<le> b")
    case False
    then show ?thesis by (simp add: drain_symbols.simps groups_short)
  next
    case True
    have "b mod 5 = (b - 5) mod 5" "n + b div 5 = Suc n + (b - 5) div 5"
      using True by (simp_all add: le_mod_geq le_div_geq)
    with True "1.IH" show ?thesis
      by (subst drain_symbols.simps, subst bits_of_5_step [OF True])
         (simp add: groups_Cons sym_of_bits Let_def)
  qed
qed

lemma encode_loop_eq:
  assumes "k < 5"
  shows "\<exists>acc'. encode_loop bs acc k n out =
      (acc', (k + 8 * length bs) mod 5,
       out @ raw_hyphens n (map sym (groups 5 (bits_of k acc @ bytes_bits bs))))
    \<and> bits_of ((k + 8 * length bs) mod 5) acc' =
      drop (5 * ((k + 8 * length bs) div 5)) (bits_of k acc @ bytes_bits bs)"
  using assms
proof (induction bs arbitrary: acc k n out)
  case Nil
  then show ?case by (simp add: groups_short)
next
  case (Cons b bs)
  let ?acc = "push_bit 8 acc OR ucast b :: u32"
  let ?k = "(k + 8) mod 5"
  have ext: "bits_of (k + 8) ?acc = bits_of k acc @ bits_of 8 b"
  proof -
    have "bits_of 8 (ucast b :: u32) = bits_of 8 b"
      by (intro bits_of_cong) (simp add: bit_ucast_iff)
    moreover have "take_bit 8 (ucast b :: u32) = ucast b"
      by (intro bit_eqI) (auto simp: bit_take_bit_iff bit_ucast_iff dest: bit_imp_le_length)
    ultimately show ?thesis
      using bits_of_push [of k 8 "ucast b" acc] Cons.prems by simp
  qed
  have rest: "bits_of ?k ?acc = drop (5 * ((k + 8) div 5)) (bits_of (k + 8) ?acc)"
  proof -
    have "k + 8 = 5 * ((k + 8) div 5) + ?k" by simp
    then have "bits_of (k + 8) ?acc =
        bits_of (5 * ((k + 8) div 5)) (drop_bit ?k ?acc) @ bits_of ?k ?acc"
      using bits_of_split by metis
    then show ?thesis by simp
  qed
  have total: "(?k + 8 * length bs) mod 5 = (k + 8 * length (b # bs)) mod 5"
      "(k + 8) div 5 + (?k + 8 * length bs) div 5 = (k + 8 * length (b # bs)) div 5"
    by (simp_all, presburger+)
  obtain acc' where IH:
    "encode_loop bs ?acc ?k (n + (k + 8) div 5)
        (out @ raw_hyphens n (map sym (groups 5 (bits_of (k + 8) ?acc)))) =
      (acc', (?k + 8 * length bs) mod 5,
       (out @ raw_hyphens n (map sym (groups 5 (bits_of (k + 8) ?acc))))
         @ raw_hyphens (n + (k + 8) div 5) (map sym (groups 5 (bits_of ?k ?acc @ bytes_bits bs))))"
    "bits_of ((?k + 8 * length bs) mod 5) acc' =
      drop (5 * ((?k + 8 * length bs) div 5)) (bits_of ?k ?acc @ bytes_bits bs)"
    using Cons.IH [of ?k ?acc] by (metis mod_less_divisor zero_less_numeral)
  have split: "groups 5 (bits_of k acc @ bytes_bits (b # bs)) =
      groups 5 (bits_of (k + 8) ?acc) @ groups 5 (bits_of ?k ?acc @ bytes_bits bs)"
    using groups_append [of 5 "bits_of (k + 8) ?acc" "bytes_bits bs"]
    by (simp only: rest length_bits_of) (simp add: ext)
  have "drop (5 * ((k + 8 * length (b # bs)) div 5)) (bits_of k acc @ bytes_bits (b # bs)) =
      drop (5 * ((?k + 8 * length bs) div 5)) (bits_of ?k ?acc @ bytes_bits bs)"
  proof -
    have "bits_of k acc @ bytes_bits (b # bs) = bits_of (k + 8) ?acc @ bytes_bits bs"
      by (simp add: ext)
    then show ?thesis
      unfolding total(2) [symmetric] rest distrib_left by (simp only: drop_add_append length_bits_of)
  qed
  then show ?case
    using IH split total(1)
    by (simp add: drain_symbols_eq Let_def raw_hyphens_append length_groups)
qed

lemma raw_hyphens_short:
  assumes "length t \<le> 4" and "n mod 4 = 0"
  shows "raw_hyphens n t = t @ (if length t = 4 then ''-'' else [])"
proof -
  have mods: "Suc n mod 4 = 1" "Suc (Suc n) mod 4 = 2" "Suc (Suc (Suc n)) mod 4 = 3"
      "Suc (Suc (Suc (Suc n))) mod 4 = 0"
    using assms(2) by presburger+
  consider "t = []" | a where "t = [a]" | a b where "t = [a, b]" | a b c where "t = [a, b, c]"
    | a b c d where "t = [a, b, c, d]"
    using assms(1) by (auto simp: numeral_eq_Suc le_Suc_eq length_Suc_conv)
  then show ?thesis by cases (simp_all only: raw_hyphens.simps mods, simp_all)
qed

lemma trim_raw_hyphens:
  assumes "CHR ''-'' \<notin> set s" and "n mod 4 = 0"
  shows "trim_end_matches CHR ''-'' (raw_hyphens n s) = hyphenate s"
  using assms
proof (induction s arbitrary: n rule: hyphenate.induct)
  case (1 s)
  have short: "raw_hyphens n t = t @ (if length t = 4 then ''-'' else [])" if "length t \<le> 4" for t
    using that "1.prems"(2) by (rule raw_hyphens_short)
  show ?case
  proof (cases "length s \<le> 4")
    case True
    have "s = [] \<or> last s \<noteq> CHR ''-''" using "1.prems"(1) by (metis last_in_set)
    then have "trim_end_matches CHR ''-'' s = s" by (rule trim_end_no_match)
    moreover have "hyphenate s = s" using True by (subst hyphenate.simps) simp
    ultimately show ?thesis
      using short [OF True] by (simp split: if_splits)
  next
    case False
    let ?d = "drop 4 s"
    have "raw_hyphens n s = raw_hyphens n (take 4 s @ ?d)" by simp
    also have "\<dots> = take 4 s @ ''-'' @ raw_hyphens (n + 4) ?d"
      using False by (simp only: raw_hyphens_append) (simp add: short)
    finally have raw: "raw_hyphens n s = (take 4 s @ ''-'') @ raw_hyphens (n + 4) ?d" by simp
    have IH: "trim_end_matches CHR ''-'' (raw_hyphens (n + 4) ?d) = hyphenate ?d"
      using False "1.prems" by (intro "1.IH") (auto dest: in_set_dropD)
    have "hyphenate ?d \<noteq> []"
      using False by (subst hyphenate.simps) auto
    then have "trim_end_matches CHR ''-'' (raw_hyphens n s) = (take 4 s @ ''-'') @ hyphenate ?d"
      unfolding raw IH [symmetric] by (rule trim_end_append)
    then show ?thesis
      using False by (subst hyphenate.simps) simp
  qed
qed

lemma groups_pad5:
  "groups 5 (pad5 bs) = groups 5 bs @
     (if length bs mod 5 = 0 then []
      else [drop (5 * (length bs div 5)) bs @ replicate (5 - length bs mod 5) False])"
proof -
  let ?r = "drop (5 * (length bs div 5)) bs" and ?p = "replicate ((5 - length bs mod 5) mod 5) False"
  have len: "length ?r = length bs mod 5"
    by (simp add: minus_mult_div_eq_mod)
  have "groups 5 (pad5 bs) = groups 5 bs @ groups 5 (?r @ ?p)"
    unfolding pad5_def by (rule groups_append)
  moreover have "groups 5 (?r @ ?p) = (if length bs mod 5 = 0 then [] else [?r @ ?p])"
  proof (cases "length bs mod 5 = 0")
    case True
    then show ?thesis using len by (simp add: groups_short)
  next
    case False
    then have "length (?r @ ?p) = 5"
      using mod_less_divisor [of 5 "length bs"] len by simp
    then show ?thesis
      using False groups_Cons [of 5 "?r @ ?p" "[]"] by (simp add: groups_short)
  qed
  moreover have "(5 - length bs mod 5) mod 5 = 5 - length bs mod 5" if "length bs mod 5 \<noteq> 0"
    using that by simp
  ultimately show ?thesis by simp
qed

lemma sym_no_hyphen: "CHR ''-'' \<notin> set (map sym (groups n bs))" if "n = 5"
  using that sym_facts(4) length_in_groups by fastforce

lemma encode_grouped_eq_spec: "encode_grouped bs = encode_spec bs"
proof -
  let ?bits = "bytes_bits bs" and ?k = "8 * length bs mod 5"
  obtain acc where enc: "encode_loop bs 0 0 0 [] = (acc, ?k, raw_hyphens 0 (map sym (groups 5 ?bits)))"
    and rest: "bits_of ?k acc = drop (5 * (8 * length bs div 5)) ?bits"
    using encode_loop_eq [of 0 bs 0 0 "[]"] by auto
  define out where "out = raw_hyphens 0 (map sym (groups 5 ?bits))"
  show ?thesis
  proof (cases "?k = 0")
    case True
    then show ?thesis
      using trim_raw_hyphens [OF sym_no_hyphen, of 5 0 ?bits] enc
      by (simp add: encode_grouped_def encode_spec_def groups_pad5 Let_def)
  next
    case False
    let ?n = "length (groups 5 ?bits)"
    let ?q = "bits_of ?k acc @ replicate (5 - ?k) False"
    have k: "?k + (5 - ?k) = 5" "?k < 5"
      using mod_less_divisor [of 5 "8 * length bs"] by linarith+
    have "bits_of 5 (push_bit (5 - ?k) acc) = ?q"
    proof -
      have "bits_of (5 - ?k) (0 :: u32) = replicate (5 - ?k) False"
        by (intro nth_equalityI) (simp_all add: bits_of_def)
      then show ?thesis
        using bits_of_push [of ?k "5 - ?k" 0 acc] k by simp
    qed
    then have flush: "ALPHABET ! unat (push_bit (5 - ?k) acc AND 31) = sym ?q"
      by (simp add: sym_of_bits)
    have q: "length ?q = 5" using k by simp
    have "trim_end_matches CHR ''-'' (out @ [sym ?q]) =
        trim_end_matches CHR ''-'' (out @ raw_hyphens ?n [sym ?q])"
      using trim_end_snoc [of "CHR ''-''" "out @ [sym ?q]"] by simp
    also have "out @ raw_hyphens ?n [sym ?q] = raw_hyphens 0 (map sym (groups 5 (pad5 ?bits)))"
      using False by (simp add: groups_pad5 rest raw_hyphens_append out_def del: raw_hyphens.simps)
    also have "trim_end_matches CHR ''-'' \<dots> = encode_spec bs"
      unfolding encode_spec_def by (rule trim_raw_hyphens [OF sym_no_hyphen]) simp_all
    finally show ?thesis
      using False enc flush by (simp add: encode_grouped_def Let_def out_def)
  qed
qed

section \<open>The decoder refines its specification\<close>

lemma byte_of_bits: "(ucast ((w :: u32) AND 0xff) :: byte) = bits_val (bits_of 8 w)"
proof -
  have "bits_of 8 (ucast w :: byte) = bits_of 8 w"
    by (intro bits_of_cong) (simp add: bit_ucast_iff)
  then have "bits_val (bits_of 8 w) = (ucast w :: byte)"
    by (metis bits_val_of take_bit_byte)
  moreover have "(ucast (w AND 0xff) :: byte) = ucast w"
  proof -
    have "(0xff :: u32) = mask 8" by (simp add: mask_eq_exp_minus_1)
    show ?thesis
      unfolding \<open>0xff = mask 8\<close> by (intro bit_eqI) (auto simp: bit_ucast_iff bit_and_iff bit_mask_iff)
  qed
  ultimately show ?thesis by simp
qed

lemma decode_loop_eq:
  assumes "k < 8"
  shows "decode_loop s acc k out =
      map_sum id (\<lambda>vs. out @ map bits_val (groups 8 (bits_of k acc @ concat (map (bits_of 5) vs))))
        (symbols_of s)"
  using assms
proof (induction s arbitrary: acc k out)
  case Nil
  then show ?case by (simp add: groups_short)
next
  case (Cons c s)
  show ?case
  proof (cases "ascii_upper c = CHR ''-'' \<or> ascii_upper c = CHR '' ''")
    case True
    then show ?thesis using Cons by (auto simp: Let_def)
  next
    case sep: False
    show ?thesis
    proof (cases "symbol_value (ascii_upper c)")
      case (Inl e)
      then show ?thesis using sep by (simp add: Let_def)
    next
      case (Inr v)
      define acc' where "acc' = push_bit 5 acc OR v"
      have ext: "bits_of (k + 5) acc' = bits_of k acc @ bits_of 5 v"
        unfolding acc'_def using Cons.prems symbol_value_bound [OF Inr] by (intro bits_of_push) simp_all
      show ?thesis
      proof (cases "8 \<le> k + 5")
        case False
        then show ?thesis
          using Inr sep Cons.IH [of "k + 5" acc' out]
          by (simp add: Let_def ext sum.map_comp o_def id_def flip: acc'_def)
      next
        case True
        define k' where "k' = k + 5 - 8"
        have regroup: "bits_of k acc @ bits_of 5 v @ bs =
            bits_of 8 (drop_bit k' acc') @ bits_of k' acc' @ bs" for bs
          using bits_of_split [of 8 k' acc'] True ext
          unfolding k'_def by (simp only: le_add_diff_inverse append_assoc [symmetric])
        have "decode_loop (c # s) acc k out =
            decode_loop s acc' k' (out @ [bits_val (bits_of 8 (drop_bit k' acc'))])"
          using True Inr sep by (simp only: decode_loop.simps Let_def if_False if_True sum.case
            acc'_def [symmetric] k'_def [symmetric] byte_of_bits)
        moreover have "k' < 8" using Cons.prems by (simp add: k'_def)
        ultimately show ?thesis
          using Inr sep Cons.IH [of k' acc']
          by (simp add: sum.map_comp o_def id_def regroup groups_Cons)
      qed
    qed
  qed
qed

lemma decode_forgiving_eq_spec: "decode_forgiving s = decode_spec s"
  by (simp add: decode_forgiving_def decode_spec_def decode_loop_eq)

lemma symbols_of_append:
  "symbols_of (s @ t) =
     (case symbols_of s of Inl e \<Rightarrow> Inl e | Inr vs \<Rightarrow> map_sum id ((@) vs) (symbols_of t))"
  by (cases "symbols_of t"; induction s) (auto split: sum.splits)

lemma symbols_of_hyphen [simp]: "symbols_of (CHR ''-'' # s) = symbols_of s"
  by (simp add: ascii_upper_def)

lemma symbols_of_hyphenate: "symbols_of (hyphenate s) = symbols_of s"
proof (induction s rule: hyphenate.induct)
  case (1 s)
  show ?case
  proof (cases "length s \<le> 4")
    case True
    then show ?thesis by (subst hyphenate.simps) simp
  next
    case False
    then have "symbols_of (hyphenate s) = symbols_of (take 4 s @ drop 4 s)"
      using 1 [OF False] by (subst hyphenate.simps) (simp only: if_False symbols_of_append append_Cons append_Nil symbols_of_hyphen)
    then show ?thesis by simp
  qed
qed

lemma symbols_of_syms:
  "\<forall>q \<in> set qs. length q = 5 \<Longrightarrow> symbols_of (map sym qs) = Inr (map bits_val qs)"
  by (induction qs) (simp_all add: sym_facts)

lemma length_pad5: "length (pad5 bs) = 5 * ((length bs + 4) div 5)"
proof -
  have "n + (5 - n mod 5) mod 5 = 5 * ((n + 4) div 5)" for n :: nat
  proof -
    define q r where "q = n div 5" and "r = n mod 5"
    then have n: "n = 5 * q + r" and "r < 5" by simp_all
    then consider "r = 0" | "r = 1" | "r = 2" | "r = 3" | "r = 4" by linarith
    moreover have "n mod 5 = r" "(n + 4) div 5 = q + (r + 4) div 5"
      using n \<open>r < 5\<close> div_mult_self4 [of 5 q "r + 4"] by (simp_all add: r_def)
    ultimately show ?thesis using n by cases simp_all
  qed
  then show ?thesis by (simp add: pad5_def)
qed

lemma symbols_of_encode:
  "\<exists>vs. symbols_of (encode_grouped bs) = Inr vs \<and> concat (map (bits_of 5) vs) = pad5 (bytes_bits bs)"
proof -
  let ?b = "pad5 (bytes_bits bs)"
  let ?gs = "groups 5 ?b"
  have "map (bits_of 5 \<circ> (bits_val :: bool list \<Rightarrow> u32)) ?gs = ?gs"
  proof (rule map_idI)
    fix q assume "q \<in> set ?gs"
    then have "length q = 5" by (rule length_in_groups)
    then show "(bits_of 5 \<circ> (bits_val :: bool list \<Rightarrow> u32)) q = q"
      using bits_val_inject [of q, where 'a = 32] by simp
  qed
  then have "concat (map (bits_of 5) (map (bits_val :: bool list \<Rightarrow> u32) ?gs)) = ?b"
    by (simp add: concat_groups length_pad5)
  then show ?thesis
    by (simp add: encode_grouped_eq_spec encode_spec_def symbols_of_hyphenate symbols_of_syms
        length_in_groups)
qed

lemma decode_encode: "decode_forgiving (encode_grouped bs) = Inr bs"
  using symbols_of_encode [of bs] bytes_of_bits
  by (auto simp: decode_forgiving_eq_spec decode_spec_def pad5_def)

lemma sym_in_alphabet: "length q = 5 \<Longrightarrow> sym q \<in> set ALPHABET"
  using unat_bits_val_bound [of q] by (simp add: sym_def length_ALPHABET)

lemma hyphenate_layout:
  "length (hyphenate s) = length s + (length s - 1) div 4 \<and>
   (\<forall>i < length (hyphenate s).
      hyphenate s ! i = (if i mod 5 = 4 then CHR ''-'' else s ! (i - i div 5)))"
proof (induction s rule: hyphenate.induct)
  case (1 s)
  show ?case
  proof (cases "length s \<le> 4")
    case True
    then have "hyphenate s = s" by (subst hyphenate.simps) simp
    then show ?thesis using True by auto
  next
    case False
    let ?d = "hyphenate (drop 4 s)"
    have eq: "hyphenate s = take 4 s @ ''-'' @ ?d"
      using False by (subst hyphenate.simps) simp
    have IH: "length ?d = length s - 4 + (length s - 5) div 4"
      "\<And>j. j < length ?d \<Longrightarrow> ?d ! j = (if j mod 5 = 4 then CHR ''-'' else drop 4 s ! (j - j div 5))"
      using "1.IH" [OF False] by simp_all
    have len: "length (hyphenate s) = length s + (length s - 1) div 4"
      using False by (simp add: eq IH(1))
    have "hyphenate s ! i = (if i mod 5 = 4 then CHR ''-'' else s ! (i - i div 5))"
      if i: "i < length (hyphenate s)" for i
    proof -
      have "i < 4 \<or> i = 4 \<or> (\<exists>j. i = j + 5)" by presburger
      then consider "i < 4" | "i = 4" | j where "i = j + 5" by blast
      then show ?thesis
      proof cases
        case 3
        moreover have "4 + (j - j div 5) = i - i div 5" using 3 by (simp add: Suc_diff_le)
        ultimately show ?thesis
          using False i by (simp add: eq nth_append IH(2))
      qed (use False in \<open>auto simp: eq nth_append\<close>)
    qed
    with len show ?thesis by blast
  qed
qed

lemma look_alike_facts:
  "ascii_upper (look_alike (ascii_upper c)) = look_alike (ascii_upper c)"
  "symbol_value (look_alike c) = symbol_value c"
  "look_alike c = CHR ''-'' \<longleftrightarrow> c = CHR ''-''"
  "look_alike c = CHR '' '' \<longleftrightarrow> c = CHR '' ''"
proof -
  have idem: "ascii_upper (ascii_upper c) = ascii_upper c"
    by (auto simp: ascii_upper_def Let_def)
  have "ascii_upper CHR ''0'' = CHR ''0''" "ascii_upper CHR ''1'' = CHR ''1''" by code_simp+
  with idem show "ascii_upper (look_alike (ascii_upper c)) = look_alike (ascii_upper c)"
    by (simp add: look_alike_def)
  show "symbol_value (look_alike c) = symbol_value c"
    by (simp add: look_alike_def symbol_value_def ALPHABET_def)
qed (auto simp: look_alike_def)

lemma symbols_of_canonical: "symbols_of (canonical s) = symbols_of s"
  by (induction s) (simp_all add: canonical_def look_alike_facts split: sum.splits)

lemma sk_parse_symbols:
  "sk_parse s =
     (case symbols_of s of
        Inl e \<Rightarrow> Inl e
      | Inr vs \<Rightarrow>
          if length vs \<in> {32, 33}
          then Inr (SecretKey (map bits_val (groups 8 (concat (map (bits_of 5) vs)))))
          else Inl (SecretKeyError ''wrong length''))"
proof (cases "symbols_of s")
  case (Inr vs)
  have "length (concat (map (bits_of 5) vs)) = 5 * length vs"
    by (induction vs) auto
  moreover have "5 * length vs div 8 = 20 \<longleftrightarrow> length vs \<in> {32, 33}" by auto
  ultimately show ?thesis
    using Inr by (simp add: sk_parse_def decode_forgiving_eq_spec decode_spec_def length_groups
        SECRET_KEY_BYTES_def)
qed (simp add: sk_parse_def decode_forgiving_eq_spec decode_spec_def)

lemma canonical_lower: "canonical (map ascii_lower s) = canonical s"
proof -
  have "ascii_upper (ascii_lower c) = ascii_upper c" for c
    by (auto simp: ascii_upper_def ascii_lower_def Let_def)
  then show ?thesis by (simp add: canonical_def o_def)
qed

lemma sk_parse_canonical: "sk_parse (canonical s) = sk_parse s"
  by (simp add: sk_parse_symbols symbols_of_canonical)

lemma canonical_filter: "symbols_of (filter (\<lambda>c. c \<noteq> CHR ''-'' \<and> c \<noteq> CHR '' '') s) = symbols_of s"
  by (induction s) (simp_all add: ascii_upper_def split: sum.splits)

interpretation sk_text: codec wf_sk sk_display "\<lambda>s. ok_of (sk_parse s)"
proof
  show "ok_of (sk_parse (sk_display sk)) = Some sk" if "wf_sk sk" for sk
    using that by (cases sk) (simp add: sk_display_def sk_parse_def decode_encode wf_sk_def)
qed

interpretation sk_raw: codec wf_sk sk_as_bytes "\<lambda>bs. ok_of (sk_from_bytes bs)"
proof
  show "ok_of (sk_from_bytes (sk_as_bytes sk)) = Some sk" if "wf_sk sk" for sk
    using that by (cases sk) (simp add: sk_from_bytes_def wf_sk_def)
qed

lemma sk_generate_wf:
  "sk_generate r = (Inr sk, r') \<Longrightarrow> wf_sk sk \<and> sk_as_bytes sk = map r [0..<20] \<and> r' = (\<lambda>i. r (i + 20))"
  by (auto simp: sk_generate_def and_then_Inr_iff exec_simps wf_sk_def SECRET_KEY_BYTES_def)

section \<open>Properties\<close>

text \<open>
  Property C30: the decoder loop computes its specification on every text: the first invalid
  character is the error, otherwise the result is the bytes made of the symbols' bits, eight at a
  time, where left-over bits are dropped.
\<close>

theorem decode_forgiving_spec: "decode_forgiving input = decode_spec input"
  by (rule decode_forgiving_eq_spec)

text \<open>
  Property C29: what the write-down screen shows is what the parser reads: every Secret Key is
  recovered from its displayed form.
\<close>

theorem parse_display:
  assumes "wf_sk sk"
  shows "sk_parse (sk_display sk) = Inr sk"
  using sk_text.dec_enc [OF assms] by simp

theorem parse_display_witness:
  "sk_parse (sk_display (SecretKey (replicate 20 0xA5))) = Inr (SecretKey (replicate 20 0xA5))"
  by (rule parse_display) (simp add: wf_sk_def SECRET_KEY_BYTES_def)

text \<open>
  A displayed key has 39 characters, eight groups of four alphabet symbols with a
  hyphen between neighbouring groups and nowhere else.
\<close>

lemma display_shape:
  assumes "wf_sk sk"
  shows "length (sk_display sk) = 39 \<and>
    (\<forall>i < 39. if i mod 5 = 4 then sk_display sk ! i = CHR ''-''
              else sk_display sk ! i \<in> set ALPHABET)"
proof -
  define s where "s = map sym (groups 5 (pad5 (bytes_bits (sk_as_bytes sk))))"
  have disp: "sk_display sk = hyphenate s"
    by (simp add: sk_display_def encode_grouped_eq_spec encode_spec_def s_def)
  have len: "length s = 32"
    using assms by (simp add: s_def wf_sk_def SECRET_KEY_BYTES_def length_groups length_pad5)
  have "c \<in> set ALPHABET" if "c \<in> set s" for c
    using that by (auto simp: s_def dest: length_in_groups intro: sym_in_alphabet)
  then have alph: "s ! j \<in> set ALPHABET" if "j < 32" for j using len that by simp
  have "i - i div 5 < 32" if "i < 39" "i mod 5 \<noteq> 4" for i :: nat
    using that by linarith
  then show ?thesis
    using hyphenate_layout [of s] alph by (simp add: disp len)
qed

text \<open>
  Parsing is forgiving. The result depends only on the canonical form of the input
  (case, hyphens, spaces and the look-alikes I, L, O do not matter); in particular lower-casing
  the input or removing its separators changes nothing.
\<close>

lemma parse_forgiving:
  "sk_parse s = sk_parse (canonical s) \<and>
   sk_parse (map ascii_lower s) = sk_parse s \<and>
   sk_parse (filter (\<lambda>c. c \<noteq> CHR ''-'' \<and> c \<noteq> CHR '' '') s) = sk_parse s"
proof (intro conjI)
  show "sk_parse s = sk_parse (canonical s)"
    by (simp add: sk_parse_canonical)
  show "sk_parse (map ascii_lower s) = sk_parse s"
    by (metis sk_parse_canonical canonical_lower)
  show "sk_parse (filter (\<lambda>c. c \<noteq> CHR ''-'' \<and> c \<noteq> CHR '' '') s) = sk_parse s"
    by (simp add: sk_parse_symbols canonical_filter)
qed

text \<open>
  Property C32: exactly which inputs are accepted, and the error of the others: every character
  that is no separator must be a symbol, and there must be 32 or 33 of them. The 33rd symbol's
  five bits do not fill a byte and are dropped.
\<close>

theorem parse_accepts:
  "sk_parse s =
     (case symbols_of s of
        Inl e \<Rightarrow> Inl e
      | Inr vs \<Rightarrow>
          if length vs \<in> {32, 33}
          then Inr (SecretKey (map bits_val (groups 8 (concat (map (bits_of 5) vs)))))
          else Inl (SecretKeyError ''wrong length''))"
  by (rule sk_parse_symbols)

text \<open>
  The length check does not notice one extra symbol: a displayed key followed by any
  one symbol is accepted as the same key.
\<close>

lemma parse_ignores_extra_symbol:
  assumes "wf_sk sk" and "symbol_value (ascii_upper c) = Inr v"
  shows "sk_parse (sk_display sk @ [c]) = Inr sk"
proof -
  obtain bs where sk: "sk = SecretKey bs" and len: "length bs = 20"
    using assms(1) by (cases sk) (simp add: wf_sk_def SECRET_KEY_BYTES_def)
  obtain vs where vs: "symbols_of (sk_display sk) = Inr vs"
    "concat (map (bits_of 5) vs) = bytes_bits bs"
    using symbols_of_encode [of bs] len by (auto simp: sk sk_display_def pad5_def)
  have "ascii_upper c \<noteq> CHR ''-'' \<and> ascii_upper c \<noteq> CHR '' ''"
    using assms(2) by (auto simp: symbol_value_def ALPHABET_def)
  then have syms: "symbols_of (sk_display sk @ [c]) = Inr (vs @ [v])"
    using vs(1) assms(2) by (simp add: symbols_of_append)
  have "decode_forgiving (sk_display sk @ [c]) = Inr bs"
    using syms vs(2) by (simp add: decode_forgiving_eq_spec decode_spec_def bytes_of_bits)
  then show ?thesis by (simp add: sk_parse_def sk len SECRET_KEY_BYTES_def)
qed

end
