(* ===== verification/Text_Codec.thy ===== *)
theory Text_Codec
  imports Prelude
begin

text \<open>
  Text forms of bytes and numbers: the standard library's integer parsing and printing as far as
  the code uses it (\<open>u8::from_str_radix\<close>, \<open>str::parse::<u16>\<close>, \<open>Display\<close> of \<open>u16\<close>,
  \<open>str::get\<close> with a range), and the hex encoder and decoder of
  \<open>src/transport/discovery.rs\<close>.
\<close>

section \<open>Integers as text\<close>

definition to_digit :: "nat \<Rightarrow> char \<Rightarrow> nat option" where
  "to_digit radix c =
     (let n = of_char c :: nat;
          d = (if 48 \<le> n \<and> n \<le> 57 then n - 48
               else if 97 \<le> n \<and> n \<le> 122 then n - 87
               else if 65 \<le> n \<and> n \<le> 90 then n - 55 else radix)
      in if d < radix then Some d else None)"

fun parse_digits :: "nat \<Rightarrow> nat \<Rightarrow> nat \<Rightarrow> string \<Rightarrow> nat option" where
  "parse_digits radix mx acc [] = Some acc"
| "parse_digits radix mx acc (c # cs) =
     (case to_digit radix c of
        None \<Rightarrow> None
      | Some d \<Rightarrow> if radix * acc + d \<le> mx then parse_digits radix mx (radix * acc + d) cs else None)"

text \<open>
  Parsing an unsigned integer with the largest value \<open>mx\<close>: the standard library accepts one
  leading plus sign, and rejects the empty text, a lone sign, other characters and overflow.
\<close>

definition from_str_radix :: "nat \<Rightarrow> nat \<Rightarrow> string \<Rightarrow> nat option" where
  "from_str_radix radix mx s =
     (if s = [] \<or> s = ''+'' \<or> s = ''-'' then None
      else parse_digits radix mx 0 (if hd s = CHR ''+'' then tl s else s))"

definition parse_u16 :: "string \<Rightarrow> u16 option" where
  "parse_u16 s = map_option of_nat (from_str_radix 10 65535 s)"

fun show_nat :: "nat \<Rightarrow> string" where
  "show_nat n = (if n < 10 then [char_of (48 + n)] else show_nat (n div 10) @ [char_of (48 + n mod 10)])"

declare show_nat.simps [simp del]

definition show_u16 :: "u16 \<Rightarrow> string" where
  "show_u16 w = show_nat (unat w)"

text \<open>\<open>str::get(a..b)\<close>: no part of a character is returned.\<close>

definition is_char_boundary :: "string \<Rightarrow> nat \<Rightarrow> bool" where
  "is_char_boundary s i \<longleftrightarrow>
     i = 0 \<or> i = length s \<or>
     (i < length s \<and> (let n = of_char (s ! i) :: nat in n < 128 \<or> 192 \<le> n))"

definition str_get :: "string \<Rightarrow> nat \<Rightarrow> nat \<Rightarrow> string option" where
  "str_get s a b =
     (if a \<le> b \<and> b \<le> length s \<and> is_char_boundary s a \<and> is_char_boundary s b
      then Some (take (b - a) (drop a s)) else None)"

text \<open>\<open>str::rsplit_once\<close> at a character: the parts before and after its last occurrence.\<close>

definition rsplit_once :: "char \<Rightarrow> string \<Rightarrow> (string \<times> string) option" where
  "rsplit_once c s =
     (case dropWhile (\<lambda>x. x \<noteq> c) (rev s) of
        [] \<Rightarrow> None
      | _ # before \<Rightarrow> Some (rev before, rev (takeWhile (\<lambda>x. x \<noteq> c) (rev s))))"

section \<open>Hex\<close>

definition HEX :: string where
  "HEX = ''0123456789abcdef''"

fun encode_hex :: "bytes \<Rightarrow> string" where
  "encode_hex [] = []"
| "encode_hex (b # bs) =
     HEX ! unat (drop_bit 4 b) # HEX ! unat (b AND 0x0f) # encode_hex bs"

definition parse_u8_hex :: "string \<Rightarrow> byte option" where
  "parse_u8_hex s = map_option of_nat (from_str_radix 16 255 s)"

text \<open>The loop over the output array, from index \<open>i\<close> with \<open>k\<close> bytes to go.\<close>

fun decode_hex_loop :: "string \<Rightarrow> nat \<Rightarrow> nat \<Rightarrow> bytes option" where
  "decode_hex_loop s i 0 = Some []"
| "decode_hex_loop s i (Suc k) =
     (case str_get s (i * 2) (i * 2 + 2) of
        None \<Rightarrow> None
      | Some h \<Rightarrow>
          (case parse_u8_hex h of
             None \<Rightarrow> None
           | Some b \<Rightarrow> map_option ((#) b) (decode_hex_loop s (Suc i) k)))"

definition decode_hex_array :: "nat \<Rightarrow> string \<Rightarrow> bytes option" where
  "decode_hex_array n s = (if length s \<noteq> n * 2 then None else decode_hex_loop s 0 n)"

section \<open>Printing and parsing numbers\<close>

lemma to_digit_char_of: "d < 10 \<Longrightarrow> to_digit 10 (char_of (48 + d)) = Some d"
  by (simp add: to_digit_def)

lemma parse_digits_append:
  "parse_digits r mx acc (s @ t) =
     (case parse_digits r mx acc s of None \<Rightarrow> None | Some v \<Rightarrow> parse_digits r mx v t)"
  by (induction s arbitrary: acc) (auto split: option.splits)

lemma parse_digits_show: "n \<le> mx \<Longrightarrow> parse_digits 10 mx 0 (show_nat n) = Some n"
proof (induction n rule: show_nat.induct)
  case (1 n)
  show ?case
  proof (cases "n < 10")
    case True
    then show ?thesis
      using "1.prems" by (subst show_nat.simps) (simp add: to_digit_char_of)
  next
    case False
    then have "parse_digits 10 mx 0 (show_nat (n div 10)) = Some (n div 10)"
      using "1.IH" "1.prems" by (simp add: div_le_dividend order_trans [OF div_le_dividend])
    then show ?thesis
      using False "1.prems"
      by (subst show_nat.simps) (simp add: parse_digits_append to_digit_char_of)
  qed
qed

lemma show_nat_digits: "c \<in> set (show_nat n) \<Longrightarrow> \<exists>d < 10. c = char_of (48 + d :: nat)"
proof (induction n rule: show_nat.induct)
  case (1 n)
  show ?case
  proof (cases "n < 10 \<or> c \<in> set (show_nat (n div 10))")
    case True
    then show ?thesis
      using 1 by (cases "n < 10") (auto simp: show_nat.simps [of n])
  next
    case False
    then have "c = char_of (48 + n mod 10)"
      using "1.prems" by (simp add: show_nat.simps [of n])
    then show ?thesis by (metis mod_less_divisor zero_less_numeral)
  qed
qed

lemma digit_char_facts:
  "d < (10 :: nat) \<Longrightarrow> char_of (48 + d) \<noteq> CHR ''+'' \<and> char_of (48 + d) \<noteq> CHR '':''
     \<and> char_of (48 + d) \<noteq> CHR ''-''"
  by (auto simp: char_of_eq_iff take_bit_eq_mod)

lemma show_nat_nonempty [simp]: "show_nat n \<noteq> []"
  by (subst show_nat.simps) simp

lemma show_nat_no_sign: "hd (show_nat n) \<noteq> CHR ''+''" "show_nat n \<noteq> ''-''" "CHR '':'' \<notin> set (show_nat n)"
proof -
  have "hd (show_nat n) \<in> set (show_nat n)" by simp
  then show "hd (show_nat n) \<noteq> CHR ''+''"
    using show_nat_digits digit_char_facts by metis
  show "show_nat n \<noteq> ''-''"
    using show_nat_digits [of "CHR ''-''" n] digit_char_facts by (metis list.set_intros(1))
  show "CHR '':'' \<notin> set (show_nat n)"
    using show_nat_digits digit_char_facts by metis
qed

lemma rsplit_once_append:
  assumes "c \<notin> set t"
  shows "rsplit_once c (s @ c # t) = Some (s, t)"
proof -
  have "dropWhile (\<lambda>x. x \<noteq> c) (rev t @ c # rev s) = c # rev s"
    using assms by (subst dropWhile_append2) auto
  moreover have "takeWhile (\<lambda>x. x \<noteq> c) (rev t @ c # rev s) = rev t"
    using assms by (subst takeWhile_append2) auto
  ultimately show ?thesis by (simp add: rsplit_once_def)
qed

interpretation u16_text: codec "\<lambda>_. True" show_u16 parse_u16
proof
  fix w :: u16
  have "unat w < 65536" using unsigned_less [of w] by simp
  then have "from_str_radix 10 65535 (show_nat (unat w)) = Some (unat w)"
    using show_nat_no_sign [of "unat w"]
    by (auto simp: from_str_radix_def parse_digits_show)
  then show "parse_u16 (show_u16 w) = Some w"
    by (simp add: parse_u16_def show_u16_def)
qed

section \<open>Hex: decoding what was encoded, and what else is decoded\<close>

text \<open>
  The value of two characters as the decoder reads them: two hex digits, or a plus sign and one
  hex digit.
\<close>

definition hex_pair :: "char \<Rightarrow> char \<Rightarrow> byte option" where
  "hex_pair c d =
     (case to_digit 16 d of
        None \<Rightarrow> None
      | Some lo \<Rightarrow>
          if c = CHR ''+'' then Some (of_nat lo)
          else map_option (\<lambda>hi. of_nat (16 * hi + lo)) (to_digit 16 c))"

lemma to_digit_bound: "to_digit r c = Some d \<Longrightarrow> d < r"
  by (auto simp: to_digit_def Let_def split: if_splits)

lemma to_digit_ascii: "to_digit 16 c = Some d \<Longrightarrow> (of_char c :: nat) < 128"
  by (auto simp: to_digit_def Let_def split: if_splits)

lemma parse_u8_hex_pair: "parse_u8_hex [c, d] = hex_pair c d"
proof -
  have "16 * hi + lo \<le> 255" if "to_digit 16 c = Some hi" "to_digit 16 d = Some lo" for hi lo
    using that [THEN to_digit_bound] by simp
  moreover have "lo \<le> 255" if "to_digit 16 x = Some lo" for x lo
    using to_digit_bound [OF that] by simp
  ultimately show ?thesis
    by (auto simp: parse_u8_hex_def from_str_radix_def hex_pair_def split: option.splits)
qed

lemma hex_pair_ascii:
  assumes "hex_pair c d \<noteq> None"
  shows "(of_char c :: nat) < 128" and "(of_char d :: nat) < 128"
  using assms to_digit_ascii
  by (auto simp: hex_pair_def split: option.splits if_splits)

lemma decode_hex_loop_iff:
  assumes "length s = 2 * (i + k)" and "is_char_boundary s (2 * i)"
  shows "decode_hex_loop s i k = Some bs \<longleftrightarrow>
    length bs = k \<and> (\<forall>j < k. hex_pair (s ! (2 * (i + j))) (s ! (2 * (i + j) + 1)) = Some (bs ! j))"
  using assms
proof (induction k arbitrary: i bs)
  case 0
  then show ?case by auto
next
  case (Suc k)
  let ?c = "s ! (2 * i)" and ?d = "s ! (2 * i + 1)"
  have pair: "take 2 (drop (2 * i) s) = [?c, ?d]"
    using Suc.prems(1) by (simp add: numeral_2_eq_2 take_Suc_conv_app_nth)
  have get: "str_get s (i * 2) (i * 2 + 2) =
      (if is_char_boundary s (2 * Suc i) then Some [?c, ?d] else None)"
    using Suc.prems pair by (simp add: str_get_def mult.commute)
  have all: "(\<forall>j < Suc k. hex_pair (s ! (2 * (i + j))) (s ! (2 * (i + j) + 1)) = Some (bs ! j)) \<longleftrightarrow>
      hex_pair ?c ?d = Some (bs ! 0) \<and>
      (\<forall>j < k. hex_pair (s ! (2 * (Suc i + j))) (s ! (2 * (Suc i + j) + 1)) = Some (bs ! Suc j))"
    by (auto simp: All_less_Suc2)
  show ?case
  proof (cases "is_char_boundary s (2 * Suc i)")
    case True
    then have IH: "decode_hex_loop s (Suc i) k = Some bs' \<longleftrightarrow> length bs' = k \<and>
        (\<forall>j < k. hex_pair (s ! (2 * (Suc i + j))) (s ! (2 * (Suc i + j) + 1)) = Some (bs' ! j))" for bs'
      using Suc.prems(1) by (intro Suc.IH) simp_all
    have "decode_hex_loop s i (Suc k) =
        (case hex_pair ?c ?d of None \<Rightarrow> None
         | Some b \<Rightarrow> map_option ((#) b) (decode_hex_loop s (Suc i) k))"
      using True by (simp only: decode_hex_loop.simps get if_True option.case parse_u8_hex_pair)
    then have "decode_hex_loop s i (Suc k) = Some bs \<longleftrightarrow>
        (\<exists>b bs'. bs = b # bs' \<and> hex_pair ?c ?d = Some b \<and> decode_hex_loop s (Suc i) k = Some bs')"
      by (auto split: option.splits)
    also have "\<dots> \<longleftrightarrow> length bs = Suc k \<and> hex_pair ?c ?d = Some (bs ! 0) \<and>
      (\<forall>j < k. hex_pair (s ! (2 * (Suc i + j))) (s ! (2 * (Suc i + j) + 1)) = Some (bs ! Suc j))"
      by (cases bs) (auto simp: IH)
    finally show ?thesis using all by blast
  next
    case False
    then have k: "0 < k" and hi: "128 \<le> (of_char (s ! (2 * Suc i)) :: nat)"
      using Suc.prems(1) by (auto simp: is_char_boundary_def Let_def)
    then have "hex_pair (s ! (2 * (i + 1))) (s ! (2 * (i + 1) + 1)) = None"
      using hex_pair_ascii(1) [of "s ! (2 * Suc i)"] by fastforce
    moreover have "decode_hex_loop s i (Suc k) = None"
      using False by (simp only: decode_hex_loop.simps get if_False option.case)
    ultimately show ?thesis
      using k by (auto intro!: exI [of _ 1])
  qed
qed

lemma decode_hex_array_iff:
  "decode_hex_array n s = Some bs \<longleftrightarrow>
     length s = 2 * n \<and> length bs = n \<and>
     (\<forall>j < n. hex_pair (s ! (2 * j)) (s ! (2 * j + 1)) = Some (bs ! j))"
  using decode_hex_loop_iff [of s 0 n bs]
  by (auto simp: decode_hex_array_def is_char_boundary_def mult.commute)

lemma length_encode_hex [simp]: "length (encode_hex bs) = 2 * length bs"
  by (induction bs) auto

lemma encode_hex_nth:
  "j < length bs \<Longrightarrow> encode_hex bs ! (2 * j) = HEX ! unat (drop_bit 4 (bs ! j))
     \<and> encode_hex bs ! Suc (2 * j) = HEX ! unat (bs ! j AND 0x0f)"
proof (induction bs arbitrary: j)
  case (Cons b bs)
  then show ?case by (cases j) auto
qed simp

lemma HEX_digit: "i < 16 \<Longrightarrow> to_digit 16 (HEX ! i) = Some i \<and> HEX ! i \<noteq> CHR ''+''"
proof -
  have "list_all (\<lambda>i. to_digit 16 (HEX ! i) = Some i \<and> HEX ! i \<noteq> CHR ''+'') [0..<16]"
    by code_simp
  then show "i < 16 \<Longrightarrow> ?thesis" by (simp add: list_all_iff)
qed

lemma nibbles:
  "unat (drop_bit 4 (b :: byte)) < 16" "unat (b AND 0x0f) < 16"
  "of_nat (16 * unat (drop_bit 4 b) + unat (b AND 0x0f)) = b"
proof -
  have mask: "(0x0f :: byte) = mask 4" by (simp add: mask_eq_exp_minus_1)
  have lo: "unat (b AND 0x0f) = unat b mod 16"
    unfolding mask take_bit_eq_mask [symmetric] unsigned_take_bit_eq by (simp add: take_bit_eq_mod)
  have "unat b < 256" using unsigned_less [of b] by simp
  then have hi: "unat (drop_bit 4 b) = unat b div 16"
    unfolding unsigned_drop_bit_eq by (simp add: drop_bit_eq_div take_bit_nat_eq_self)
  with hi show "unat (drop_bit 4 b) < 16" using \<open>unat b < 256\<close> by linarith
  show "unat (b AND 0x0f) < 16" using lo by simp
  show "of_nat (16 * unat (drop_bit 4 b) + unat (b AND 0x0f)) = b"
    by (simp only: hi lo mult_div_mod_eq) simp
qed

lemma hex_pair_HEX: "hex_pair (HEX ! unat (drop_bit 4 b)) (HEX ! unat (b AND 0x0f)) = Some b"
  using HEX_digit [OF nibbles(1)] HEX_digit [OF nibbles(2)] nibbles(3) [of b]
  by (simp add: hex_pair_def)

interpretation hex_text: codec "\<lambda>bs. length bs = n" encode_hex "decode_hex_array n" for n
  by unfold_locales (auto simp: decode_hex_array_iff encode_hex_nth hex_pair_HEX)

section \<open>Properties\<close>

text \<open>
  Property C40: exactly which texts the hex decoder accepts, and their value: twice as many
  characters as bytes, each pair two hex digits of either case, or a plus sign and one hex digit
  (the standard library's integer parser takes a leading sign).
\<close>

theorem decode_hex_accepts:
  "decode_hex_array n s = Some bs \<longleftrightarrow>
     length s = 2 * n \<and> length bs = n \<and>
     (\<forall>j < n. hex_pair (s ! (2 * j)) (s ! (2 * j + 1)) = Some (bs ! j))"
  by (rule decode_hex_array_iff)

theorem decode_hex_accepts_witness:
  "decode_hex_array 2 ''+fA0'' = Some [15, 160]"
proof -
  have "\<forall>j < 2. hex_pair (''+fA0'' ! (2 * j)) (''+fA0'' ! (2 * j + 1)) = Some ([15, 160 :: byte] ! j)"
    by (simp add: numeral_2_eq_2 All_less_Suc2 hex_pair_def to_digit_def)
  then show ?thesis
    by (intro decode_hex_accepts [THEN iffD2]) simp
qed

end
