(* ===== verification/Crypto.thy ===== *)
theory Crypto
  imports Secret_Key
begin

text \<open>
  \<open>src/crypto/mod.rs\<close>: the two-secret key derivation, the wrapping of the master key and of the
  user's private keys, the password change, and the sealed box for machine telemetry.

  The cryptographic crates and \<open>serde_json\<close> are not part of the repository: they are the
  record \<open>crypto_lib\<close>, an argument of every definition that calls them, and what the code relies
  on is stated by the predicates of section "What the code relies on". Arrays of a fixed size are
  lists; their length is part of the statements.
\<close>

section \<open>Parameters, constants and the libraries\<close>

record kdf_params =
  m_cost_kib :: u32
  t_cost :: u32
  p_cost :: u32

definition default_kdf_params :: kdf_params where
  "default_kdf_params = \<lparr>m_cost_kib = 65536, t_cost = 3, p_cost = 4\<rparr>"

text \<open>
  \<open>argon2\<close>: \<open>Params::new\<close> accepts or not, \<open>hash_password_into\<close> of password and salt fills an
  output of the given size or fails. \<open>hkdf\<close>: \<open>Hkdf::new\<close> of an optional salt and the key
  material, \<open>expand\<close> of the info string to the given size. \<open>chacha20poly1305\<close>: key, nonce and
  text. \<open>x25519-dalek\<close>: the public key of a secret, Diffie-Hellman of a secret and a public key.
  \<open>ed25519-dalek\<close>: the verifying key of a seed. \<open>serde_json\<close>: the text of KDF parameters.
\<close>

record crypto_lib =
  argon2_params_ok :: "kdf_params \<Rightarrow> nat \<Rightarrow> bool"
  argon2id :: "kdf_params \<Rightarrow> nat \<Rightarrow> bytes \<Rightarrow> bytes \<Rightarrow> bytes option"
  hkdf_expand :: "bytes option \<Rightarrow> bytes \<Rightarrow> bytes \<Rightarrow> nat \<Rightarrow> bytes option"
  aead_encrypt :: "bytes \<Rightarrow> bytes \<Rightarrow> bytes \<Rightarrow> bytes option"
  aead_decrypt :: "bytes \<Rightarrow> bytes \<Rightarrow> bytes \<Rightarrow> bytes option"
  x25519_public :: "bytes \<Rightarrow> bytes"
  x25519_dh :: "bytes \<Rightarrow> bytes \<Rightarrow> bytes"
  ed25519_public :: "bytes \<Rightarrow> bytes"
  kdf_json_write :: "kdf_params \<Rightarrow> string option"
  kdf_json_read :: "string \<Rightarrow> kdf_params option"

definition HKDF_INFO :: bytes where
  "HKDF_INFO = str_bytes ''sylva.2skd.v1''"

definition SEALBOX_INFO :: bytes where
  "SEALBOX_INFO = str_bytes ''sylva.sealedbox.v1''"

definition SALT_LEN :: nat where
  "SALT_LEN = 16"

definition KEY_LEN :: nat where
  "KEY_LEN = 32"

definition NONCE_LEN :: nat where
  "NONCE_LEN = 24"

definition to_json :: "crypto_lib \<Rightarrow> kdf_params \<Rightarrow> crypto_error + string" where
  "to_json L p = ok_or (kdf_json_write L p) Kdf"

definition from_json :: "crypto_lib \<Rightarrow> string \<Rightarrow> crypto_error + kdf_params" where
  "from_json L s = ok_or (kdf_json_read L s) (Malformed ''kdf_params'')"

section \<open>Keys\<close>

datatype master_key = MasterKey bytes

definition mk_random :: "(rng, 'e, master_key) exec" where
  "mk_random = and_then (fill_bytes KEY_LEN) (\<lambda>bs. ret (MasterKey bs))"

definition mk_from_bytes :: "bytes \<Rightarrow> master_key" where
  "mk_from_bytes bs = MasterKey bs"

primrec mk_as_bytes :: "master_key \<Rightarrow> bytes" where
  "mk_as_bytes (MasterKey bs) = bs"

definition mk_debug :: "master_key \<Rightarrow> string" where
  "mk_debug mk = ''MasterKey(<redacted>)''"

record key_bundle =
  kb_x25519_public :: bytes
  kb_ed25519_public :: bytes
  kb_x25519_private_wrapped :: bytes
  kb_ed25519_private_wrapped :: bytes
  kb_master_key_wrapped :: bytes
  kb_kdf_salt :: bytes
  kb_kdf_params :: string

record unlocked_identity =
  ui_master_key :: master_key
  ui_x25519_secret :: bytes
  ui_ed25519_secret :: bytes

record bootstrap_output =
  bo_bundle :: key_bundle
  bo_secret_key :: secret_key
  bo_identity :: unlocked_identity

record device_keypair =
  dk_public :: bytes
  dk_secret :: bytes

record group_keypair =
  gk_public :: bytes
  gk_secret :: bytes

definition generate_device_keypair :: "crypto_lib \<Rightarrow> (rng, 'e, device_keypair) exec" where
  "generate_device_keypair L =
     and_then (fill_bytes KEY_LEN) (\<lambda>secret.
     ret \<lparr>dk_public = x25519_public L secret, dk_secret = secret\<rparr>)"

definition generate_group_keypair :: "crypto_lib \<Rightarrow> (rng, 'e, group_keypair) exec" where
  "generate_group_keypair L =
     and_then (fill_bytes KEY_LEN) (\<lambda>secret.
     ret \<lparr>gk_public = x25519_public L secret, gk_secret = secret\<rparr>)"

section \<open>Authenticated encryption\<close>

definition seal :: "crypto_lib \<Rightarrow> bytes \<Rightarrow> bytes \<Rightarrow> (rng, crypto_error, bytes) exec" where
  "seal L key plaintext =
     and_then (fill_bytes NONCE_LEN) (\<lambda>nonce.
     and_then (lift_result (ok_or (aead_encrypt L key nonce plaintext)
                              (Malformed ''plaintext too large to encrypt''))) (\<lambda>ciphertext.
     ret (nonce @ ciphertext)))"

definition open_blob :: "crypto_lib \<Rightarrow> bytes \<Rightarrow> bytes \<Rightarrow> crypto_error + bytes" where
  "open_blob L key blob =
     (if length blob < NONCE_LEN then Inl Decrypt
      else ok_or (aead_decrypt L key (take NONCE_LEN blob) (drop NONCE_LEN blob)) Decrypt)"

text \<open>The conversion of a byte vector to a 32-byte array, and \<open>open_array\<close>.\<close>

definition key_array :: "bytes \<Rightarrow> crypto_error + bytes" where
  "key_array bs = (if length bs = KEY_LEN then Inr bs else Inl (Malformed ''expected a 32-byte key''))"

definition open_array :: "crypto_lib \<Rightarrow> bytes \<Rightarrow> bytes \<Rightarrow> crypto_error + bytes" where
  "open_array L key blob =
     (case open_blob L key blob of Inl e \<Rightarrow> Inl e | Inr bs \<Rightarrow> key_array bs)"

definition seal_with_master :: "crypto_lib \<Rightarrow> master_key \<Rightarrow> bytes \<Rightarrow> (rng, crypto_error, bytes) exec" where
  "seal_with_master L mk plaintext = seal L (mk_as_bytes mk) plaintext"

definition open_with_master :: "crypto_lib \<Rightarrow> master_key \<Rightarrow> bytes \<Rightarrow> crypto_error + bytes" where
  "open_with_master L mk blob = open_blob L (mk_as_bytes mk) blob"

section \<open>The two-secret key derivation\<close>

definition argon2_leg :: "crypto_lib \<Rightarrow> bytes \<Rightarrow> bytes \<Rightarrow> kdf_params \<Rightarrow> crypto_error + bytes" where
  "argon2_leg L password salt params =
     (if \<not> argon2_params_ok L params KEY_LEN then Inl Kdf
      else ok_or (argon2id L params KEY_LEN password salt) Kdf)"

definition secret_key_leg :: "crypto_lib \<Rightarrow> secret_key \<Rightarrow> bytes \<Rightarrow> crypto_error + bytes" where
  "secret_key_leg L sk salt =
     ok_or (hkdf_expand L (Some salt) (sk_as_bytes sk) HKDF_INFO KEY_LEN) Kdf"

text \<open>The loop that overwrites \<open>kek\<close> with the exclusive or of the two legs.\<close>

fun xor_into :: "bytes \<Rightarrow> bytes \<Rightarrow> bytes \<Rightarrow> bytes" where
  "xor_into (dst # ds) (a # as) (b # bs) = (a XOR b) # xor_into ds as bs"
| "xor_into ds as bs = ds"

definition derive_kek ::
  "crypto_lib \<Rightarrow> bytes \<Rightarrow> secret_key \<Rightarrow> bytes \<Rightarrow> kdf_params \<Rightarrow> crypto_error + bytes" where
  "derive_kek L password sk salt params =
     (case argon2_leg L password salt params of
        Inl e \<Rightarrow> Inl e
      | Inr password_leg \<Rightarrow>
          (case secret_key_leg L sk salt of
             Inl e \<Rightarrow> Inl e
           | Inr secretkey_leg \<Rightarrow> Inr (xor_into (replicate KEY_LEN 0) password_leg secretkey_leg)))"

section \<open>Bootstrap, unlock, password change\<close>

definition bootstrap_identity_with_params ::
  "crypto_lib \<Rightarrow> string \<Rightarrow> kdf_params \<Rightarrow> (rng, crypto_error, bootstrap_output) exec" where
  "bootstrap_identity_with_params L password params =
     and_then sk_generate (\<lambda>sk.
     and_then mk_random (\<lambda>master_key.
     and_then (fill_bytes KEY_LEN) (\<lambda>user_x_secret.
     and_then (fill_bytes KEY_LEN) (\<lambda>user_ed.
     and_then (fill_bytes SALT_LEN) (\<lambda>salt.
     and_then (lift_result (derive_kek L (str_bytes password) sk salt params)) (\<lambda>kek.
     and_then (seal L kek (mk_as_bytes master_key)) (\<lambda>master_key_wrapped.
     and_then (seal L (mk_as_bytes master_key) user_x_secret) (\<lambda>x25519_private_wrapped.
     and_then (seal L (mk_as_bytes master_key) user_ed) (\<lambda>ed25519_private_wrapped.
     and_then (lift_result (to_json L params)) (\<lambda>params_json.
     ret \<lparr>bo_bundle =
            \<lparr>kb_x25519_public = x25519_public L user_x_secret,
             kb_ed25519_public = ed25519_public L user_ed,
             kb_x25519_private_wrapped = x25519_private_wrapped,
             kb_ed25519_private_wrapped = ed25519_private_wrapped,
             kb_master_key_wrapped = master_key_wrapped,
             kb_kdf_salt = salt,
             kb_kdf_params = params_json\<rparr>,
          bo_secret_key = sk,
          bo_identity =
            \<lparr>ui_master_key = master_key,
             ui_x25519_secret = user_x_secret,
             ui_ed25519_secret = user_ed\<rparr>\<rparr>))))))))))"

definition bootstrap_identity ::
  "crypto_lib \<Rightarrow> string \<Rightarrow> (rng, crypto_error, bootstrap_output) exec" where
  "bootstrap_identity L password = bootstrap_identity_with_params L password default_kdf_params"

definition unlock_identity ::
  "crypto_lib \<Rightarrow> key_bundle \<Rightarrow> string \<Rightarrow> secret_key \<Rightarrow> crypto_error + unlocked_identity" where
  "unlock_identity L bundle password sk =
     (case from_json L (kb_kdf_params bundle) of
        Inl e \<Rightarrow> Inl e
      | Inr params \<Rightarrow>
     (case derive_kek L (str_bytes password) sk (kb_kdf_salt bundle) params of
        Inl e \<Rightarrow> Inl e
      | Inr kek \<Rightarrow>
     (case open_array L kek (kb_master_key_wrapped bundle) of
        Inl e \<Rightarrow> Inl e
      | Inr mk \<Rightarrow>
          (let master_key = mk_from_bytes mk in
     (case open_array L (mk_as_bytes master_key) (kb_x25519_private_wrapped bundle) of
        Inl e \<Rightarrow> Inl e
      | Inr user_x25519_secret \<Rightarrow>
     (case open_array L (mk_as_bytes master_key) (kb_ed25519_private_wrapped bundle) of
        Inl e \<Rightarrow> Inl e
      | Inr user_ed25519_secret \<Rightarrow>
          Inr \<lparr>ui_master_key = master_key,
               ui_x25519_secret = user_x25519_secret,
               ui_ed25519_secret = user_ed25519_secret\<rparr>))))))"

record rewrapped_master =
  rw_master_key_wrapped :: bytes
  rw_kdf_salt :: bytes
  rw_kdf_params :: string

definition rewrap_master_key ::
  "crypto_lib \<Rightarrow> master_key \<Rightarrow> secret_key \<Rightarrow> string \<Rightarrow> kdf_params \<Rightarrow>
     (rng, crypto_error, rewrapped_master) exec" where
  "rewrap_master_key L master_key sk new_password params =
     and_then (fill_bytes SALT_LEN) (\<lambda>salt.
     and_then (lift_result (derive_kek L (str_bytes new_password) sk salt params)) (\<lambda>kek.
     and_then (seal L kek (mk_as_bytes master_key)) (\<lambda>master_key_wrapped.
     and_then (lift_result (to_json L params)) (\<lambda>params_json.
     ret \<lparr>rw_master_key_wrapped = master_key_wrapped,
          rw_kdf_salt = salt,
          rw_kdf_params = params_json\<rparr>))))"

section \<open>Sealed box\<close>

definition sealbox_key ::
  "crypto_lib \<Rightarrow> bytes \<Rightarrow> bytes \<Rightarrow> bytes \<Rightarrow> crypto_error + bytes" where
  "sealbox_key L shared ephemeral_public recipient_public =
     ok_or (hkdf_expand L None shared (SEALBOX_INFO @ ephemeral_public @ recipient_public) KEY_LEN) Kdf"

definition seal_to :: "crypto_lib \<Rightarrow> bytes \<Rightarrow> bytes \<Rightarrow> (rng, crypto_error, bytes) exec" where
  "seal_to L recipient_public plaintext =
     and_then (fill_bytes KEY_LEN) (\<lambda>ephemeral.
       (let ephemeral_public = x25519_public L ephemeral;
            shared = x25519_dh L ephemeral recipient_public in
     and_then (lift_result (sealbox_key L shared ephemeral_public recipient_public)) (\<lambda>key.
     and_then (seal L key plaintext) (\<lambda>sealed.
     ret (ephemeral_public @ sealed)))))"

definition open_sealed :: "crypto_lib \<Rightarrow> bytes \<Rightarrow> bytes \<Rightarrow> crypto_error + bytes" where
  "open_sealed L recipient_secret blob =
     (if length blob < KEY_LEN then Inl Decrypt
      else
        (let ephemeral_public = take KEY_LEN blob;
             sealed = drop KEY_LEN blob;
             recipient_public = x25519_public L recipient_secret;
             shared = x25519_dh L recipient_secret ephemeral_public
         in (case sealbox_key L shared ephemeral_public recipient_public of
               Inl e \<Rightarrow> Inl e
             | Inr key \<Rightarrow> open_blob L key sealed)))"

section \<open>What the code relies on\<close>

text \<open>Decryption undoes encryption under the same key and nonce; the tag has 16 bytes.\<close>

definition aead_sound :: "crypto_lib \<Rightarrow> bool" where
  "aead_sound L \<longleftrightarrow>
     (\<forall>k n p c. length k = KEY_LEN \<longrightarrow> length n = NONCE_LEN \<longrightarrow> aead_encrypt L k n p = Some c \<longrightarrow>
        aead_decrypt L k n c = Some p \<and> length c = length p + 16)"

text \<open>The derivations fill outputs of the requested size; public keys have 32 bytes.\<close>

definition sizes_ok :: "crypto_lib \<Rightarrow> bool" where
  "sizes_ok L \<longleftrightarrow>
     (\<forall>prm n pw salt k. argon2id L prm n pw salt = Some k \<longrightarrow> length k = n) \<and>
     (\<forall>salt ikm info n k. hkdf_expand L salt ikm info n = Some k \<longrightarrow> length k = n) \<and>
     (\<forall>s. length s = KEY_LEN \<longrightarrow> length (x25519_public L s) = KEY_LEN \<and> length (ed25519_public L s) = KEY_LEN)"

text \<open>Both sides of a Diffie-Hellman exchange compute the same secret.\<close>

definition dh_agrees :: "crypto_lib \<Rightarrow> bool" where
  "dh_agrees L \<longleftrightarrow>
     (\<forall>a b. length a = KEY_LEN \<longrightarrow> length b = KEY_LEN \<longrightarrow>
        x25519_dh L a (x25519_public L b) = x25519_dh L b (x25519_public L a))"

text \<open>Serialised KDF parameters are read back.\<close>

definition kdf_json_sound :: "crypto_lib \<Rightarrow> bool" where
  "kdf_json_sound L \<longleftrightarrow> (\<forall>p s. kdf_json_write L p = Some s \<longrightarrow> kdf_json_read L s = Some p)"

definition lib_sound :: "crypto_lib \<Rightarrow> bool" where
  "lib_sound L \<longleftrightarrow> aead_sound L \<and> sizes_ok L \<and> dh_agrees L \<and> kdf_json_sound L"

text \<open>
  The calls the code makes do not fail for the given KDF parameters: they are acceptable to
  \<open>argon2\<close>, 32 bytes are within HKDF's limit, and a key is not too large to encrypt.
\<close>

definition lib_total :: "crypto_lib \<Rightarrow> kdf_params \<Rightarrow> bool" where
  "lib_total L prm \<longleftrightarrow>
     argon2_params_ok L prm KEY_LEN \<and>
     (\<forall>pw salt. length salt = SALT_LEN \<longrightarrow> argon2id L prm KEY_LEN pw salt \<noteq> None) \<and>
     (\<forall>salt ikm info. hkdf_expand L salt ikm info KEY_LEN \<noteq> None) \<and>
     (\<forall>k n p. length k = KEY_LEN \<longrightarrow> length n = NONCE_LEN \<longrightarrow> length p = KEY_LEN \<longrightarrow>
        aead_encrypt L k n p \<noteq> None) \<and>
     kdf_json_write L prm \<noteq> None"

section \<open>The interface of a sealing operation\<close>

text \<open>
  Three operations of the module seal a plaintext so that a matching opening operation returns
  it: the AEAD wrap, the master-key seal and the sealed box. \<open>pair e d\<close> says that \<open>d\<close> is the
  opening key for the sealing key \<open>e\<close>.
\<close>

locale sealer =
  fixes pair :: "'e \<Rightarrow> 'd \<Rightarrow> bool"
    and seal_op :: "'e \<Rightarrow> bytes \<Rightarrow> (rng, crypto_error, bytes) exec"
    and open_op :: "'d \<Rightarrow> bytes \<Rightarrow> crypto_error + bytes"
  assumes open_seal: "pair e d \<Longrightarrow> seal_op e p r = (Inr b, r') \<Longrightarrow> open_op d b = Inr p"
begin

lemma seal_inject:
  "pair e d \<Longrightarrow> seal_op e p r = (Inr b, r') \<Longrightarrow> seal_op e q s = (Inr b, s') \<Longrightarrow> p = q"
  by (metis open_seal sum.inject(2))

lemma open_seal_key:
  "pair e d \<Longrightarrow> length k = KEY_LEN \<Longrightarrow> seal_op e k r = (Inr b, r') \<Longrightarrow>
     (case open_op d b of Inl err \<Rightarrow> Inl err | Inr bs \<Rightarrow> key_array bs) = Inr k"
  using open_seal by (fastforce simp: key_array_def)

end

text \<open>
  A key sealed by one operation, a payload sealed by another under that key: opening the first
  blob gives the key that opens the second.
\<close>

locale key_chain =
  outer: sealer pair1 seal1 open1 + inner: sealer pair2 seal2 open2
  for pair1 :: "'e \<Rightarrow> 'd \<Rightarrow> bool" and seal1 open1
    and pair2 :: "'f \<Rightarrow> 'g \<Rightarrow> bool" and seal2 open2 +
  fixes to_key :: "bytes \<Rightarrow> 'g"
begin

lemma open_chain:
  assumes "pair1 e d" and "seal1 e k r1 = (Inr b1, r1')"
    and "pair2 f (to_key k)" and "seal2 f p r2 = (Inr b2, r2')"
  shows "(case open1 d b1 of Inl err \<Rightarrow> Inl err | Inr bs \<Rightarrow> open2 (to_key bs) b2) = Inr p"
  using outer.open_seal [OF assms(1,2)] inner.open_seal [OF assms(3,4)] by simp

end

lemma seal_Inr_iff:
  "seal L k p r = (Inr b, r') \<longleftrightarrow>
     (\<exists>c. aead_encrypt L k (map r [0..<NONCE_LEN]) p = Some c \<and> b = map r [0..<NONCE_LEN] @ c
        \<and> r' = (\<lambda>i. r (i + NONCE_LEN)))"
  by (auto simp: seal_def and_then_Inr_iff lift_result_eq ret_eq)

lemma aead_soundD:
  assumes "aead_sound L" and "length k = KEY_LEN" and "length n = NONCE_LEN"
    and "aead_encrypt L k n p = Some c"
  shows "aead_decrypt L k n c = Some p" and "length c = length p + 16"
  using assms unfolding aead_sound_def by blast+

lemma open_blob_seal:
  assumes "aead_sound L" and "length k = KEY_LEN" and "seal L k p r = (Inr b, r')"
  shows "open_blob L k b = Inr p"
proof -
  from assms(3) obtain c where c: "aead_encrypt L k (map r [0..<NONCE_LEN]) p = Some c"
    and b: "b = map r [0..<NONCE_LEN] @ c"
    by (auto simp: seal_Inr_iff)
  have "aead_decrypt L k (map r [0..<NONCE_LEN]) c = Some p"
    using assms(1,2) _ c by (rule aead_soundD) simp
  then show ?thesis by (simp add: open_blob_def b)
qed

interpretation wrap: sealer "\<lambda>k k'. k' = k \<and> length k = KEY_LEN \<and> aead_sound L" "seal L" "open_blob L" for L
  by unfold_locales (auto intro: open_blob_seal)

interpretation master_seal: sealer "\<lambda>k k'. k' = k \<and> length (mk_as_bytes k) = KEY_LEN \<and> aead_sound L"
  "seal_with_master L" "open_with_master L" for L
  by unfold_locales (auto simp: seal_with_master_def open_with_master_def intro: open_blob_seal)

text \<open>The master key under the KEK, private keys under the master key.\<close>

interpretation key_hierarchy: key_chain
  "\<lambda>k k'. k' = k \<and> length k = KEY_LEN \<and> aead_sound L" "seal L" "open_blob L"
  "\<lambda>k k'. k' = k \<and> length (mk_as_bytes k) = KEY_LEN \<and> aead_sound L" "seal_with_master L" "open_with_master L"
  mk_from_bytes for L
  ..

lemma sealbox_key_size: "sizes_ok L \<Longrightarrow> sealbox_key L s e p = Inr k \<Longrightarrow> length k = KEY_LEN"
  by (auto simp: sealbox_key_def sizes_ok_def)

lemma open_sealed_seal_to:
  assumes L: "lib_sound L" and sk: "length sk = KEY_LEN"
    and sealed: "seal_to L (x25519_public L sk) p r = (Inr b, r')"
  shows "open_sealed L sk b = Inr p"
proof -
  define eph where "eph = map r [0..<KEY_LEN]"
  have eph: "length eph = KEY_LEN" by (simp add: eph_def)
  obtain key c where key: "sealbox_key L (x25519_dh L eph (x25519_public L sk)) (x25519_public L eph)
        (x25519_public L sk) = Inr key"
    and c: "seal L key p (\<lambda>i. r (i + KEY_LEN)) = (Inr c, r')"
    and b: "b = x25519_public L eph @ c"
    using sealed by (auto simp: seal_to_def exec_result exec_simps Let_def eph_def)
  have "length (x25519_public L eph) = KEY_LEN"
    using L eph by (simp add: lib_sound_def sizes_ok_def)
  moreover have "x25519_dh L sk (x25519_public L eph) = x25519_dh L eph (x25519_public L sk)"
    using L eph sk by (simp add: lib_sound_def dh_agrees_def)
  moreover have "open_blob L key c = Inr p"
    using L key c by (auto simp: lib_sound_def intro: wrap.open_seal sealbox_key_size)
  ultimately show ?thesis
    using key by (simp add: open_sealed_def b Let_def)
qed

interpretation sealed_box: sealer
  "\<lambda>pk sk. pk = x25519_public L sk \<and> length sk = KEY_LEN \<and> lib_sound L" "seal_to L" "open_sealed L" for L
  by unfold_locales (auto intro: open_sealed_seal_to)

text \<open>The group secret sealed to an admin, telemetry sealed to the group.\<close>

interpretation group_access: key_chain
  "\<lambda>pk sk. pk = x25519_public L sk \<and> length sk = KEY_LEN \<and> lib_sound L" "seal_to L" "open_sealed L"
  "\<lambda>pk sk. pk = x25519_public L sk \<and> length sk = KEY_LEN \<and> lib_sound L" "seal_to L" "open_sealed L"
  id for L
  ..

section \<open>The key derivation\<close>

lemma length_xor_into: "length (xor_into ds as bs) = length ds"
  by (induction ds as bs rule: xor_into.induct) auto

lemma xor_into_map2:
  "length as = length ds \<Longrightarrow> length bs = length ds \<Longrightarrow> xor_into ds as bs = map2 (XOR) as bs"
  by (induction ds as bs rule: xor_into.induct) auto

lemma derive_kek_size: "derive_kek L pw sk salt prm = Inr k \<Longrightarrow> length k = KEY_LEN"
  by (auto simp: derive_kek_def length_xor_into split: sum.splits)

lemma derive_kek_legs:
  assumes "sizes_ok L"
  shows "derive_kek L pw sk salt prm = Inr k \<longleftrightarrow>
    (\<exists>a b. argon2_leg L pw salt prm = Inr a \<and> secret_key_leg L sk salt = Inr b \<and>
       length a = KEY_LEN \<and> length b = KEY_LEN \<and> k = map2 (XOR) a b)"
  using assms
  by (auto simp: derive_kek_def sizes_ok_def argon2_leg_def secret_key_leg_def xor_into_map2
      split: sum.splits if_splits)

lemma map2_xor_cancel:
  fixes a b c :: bytes
  assumes "length b = length a" and "length c = length a"
  shows "map2 (XOR) a b = c \<longleftrightarrow> b = map2 (XOR) a c"
  using assms
proof (induction a arbitrary: b c)
  case (Cons x a)
  obtain y b' z c' where "b = y # b'" "c = z # c'"
    using Cons.prems by (metis length_Suc_conv)
  moreover have "x XOR y = z \<longleftrightarrow> y = x XOR z"
    by (metis xor.assoc xor_self_eq xor.left_neutral)
  ultimately show ?case using Cons by simp
qed simp

lemma map2_xor_commute: "map2 (XOR) a b = map2 (XOR) (b :: bytes) a"
  by (induction a b rule: list_induct2') (auto simp: xor.commute)

lemma kek_legs_cancel:
  assumes "sizes_ok L"
    and "derive_kek L pw sk salt prm = Inr k" and "derive_kek L pw' sk' salt prm = Inr k'"
  shows "(pw = pw' \<longrightarrow> (k = k' \<longleftrightarrow> secret_key_leg L sk salt = secret_key_leg L sk' salt)) \<and>
         (sk = sk' \<longrightarrow> (k = k' \<longleftrightarrow> argon2_leg L pw salt prm = argon2_leg L pw' salt prm))"
proof -
  obtain a b where ab: "argon2_leg L pw salt prm = Inr a" "secret_key_leg L sk salt = Inr b"
    "length a = KEY_LEN" "length b = KEY_LEN" "k = map2 (XOR) a b"
    using assms(1,2) by (auto simp: derive_kek_legs)
  obtain a' b' where ab': "argon2_leg L pw' salt prm = Inr a'" "secret_key_leg L sk' salt = Inr b'"
    "length a' = KEY_LEN" "length b' = KEY_LEN" "k' = map2 (XOR) a' b'"
    using assms(1,3) by (auto simp: derive_kek_legs)
  have cancel: "map2 (XOR) x y = map2 (XOR) x z \<longleftrightarrow> y = z"
    if "length x = KEY_LEN" "length y = KEY_LEN" "length z = KEY_LEN" for x y z :: bytes
    using that map2_xor_cancel [of y x "map2 (XOR) x z"] map2_xor_cancel [of z x "map2 (XOR) x z"] by auto
  show ?thesis
    using ab ab' cancel [of a b b'] cancel [of b a a'] by (auto simp: map2_xor_commute [of _ b] map2_xor_commute [of _ b'])
qed

section \<open>Bootstrap, unlock and password change\<close>

lemma open_array_seal:
  assumes "aead_sound L" and "length k = KEY_LEN" and "length p = KEY_LEN" and "seal L k p r = (Inr b, r')"
  shows "open_array L k b = Inr p"
  using wrap.open_seal_key [of k k L p r b r'] assms by (simp add: open_array_def)

lemma seal_size:
  "aead_sound L \<Longrightarrow> length k = KEY_LEN \<Longrightarrow> seal L k p r = (Inr b, r') \<Longrightarrow> length b = NONCE_LEN + length p + 16"
proof -
  assume "aead_sound L" and "length k = KEY_LEN" and "seal L k p r = (Inr b, r')"
  then obtain c where c: "aead_encrypt L k (map r [0..<NONCE_LEN]) p = Some c"
    and b: "b = map r [0..<NONCE_LEN] @ c"
    by (auto simp: seal_Inr_iff)
  have "length c = length p + 16"
    using \<open>aead_sound L\<close> \<open>length k = KEY_LEN\<close> _ c by (rule aead_soundD) simp
  then show ?thesis by (simp add: b)
qed

text \<open>What a successful bootstrap produced, from the values it drew.\<close>

lemma bootstrap_unfold:
  assumes "bootstrap_identity_with_params L pw prm r = (Inr out, r')"
  obtains kek mkw xw edw r1 r2 r3 r4 r5 r6 json where
    "wf_sk (bo_secret_key out)"
    "length (mk_as_bytes (ui_master_key (bo_identity out))) = KEY_LEN"
    "length (ui_x25519_secret (bo_identity out)) = KEY_LEN"
    "length (ui_ed25519_secret (bo_identity out)) = KEY_LEN"
    "length (kb_kdf_salt (bo_bundle out)) = SALT_LEN"
    "derive_kek L (str_bytes pw) (bo_secret_key out) (kb_kdf_salt (bo_bundle out)) prm = Inr kek"
    "seal L kek (mk_as_bytes (ui_master_key (bo_identity out))) r1 = (Inr (kb_master_key_wrapped (bo_bundle out)), r2)"
    "seal L (mk_as_bytes (ui_master_key (bo_identity out))) (ui_x25519_secret (bo_identity out)) r3
       = (Inr (kb_x25519_private_wrapped (bo_bundle out)), r4)"
    "seal L (mk_as_bytes (ui_master_key (bo_identity out))) (ui_ed25519_secret (bo_identity out)) r5
       = (Inr (kb_ed25519_private_wrapped (bo_bundle out)), r6)"
    "kdf_json_write L prm = Some (kb_kdf_params (bo_bundle out))"
    "kb_x25519_public (bo_bundle out) = x25519_public L (ui_x25519_secret (bo_identity out))"
    "kb_ed25519_public (bo_bundle out) = ed25519_public L (ui_ed25519_secret (bo_identity out))"
  using assms
  by (auto simp: bootstrap_identity_with_params_def exec_result exec_simps mk_random_def to_json_def
      wf_sk_def SECRET_KEY_BYTES_def sk_generate_def)

lemma unlock_sealed:
  assumes L: "lib_sound L"
    and sizes: "length (mk_as_bytes mk) = KEY_LEN" "length x = KEY_LEN" "length ed = KEY_LEN"
    and json: "kdf_json_write L prm = Some (kb_kdf_params b)"
    and kek: "derive_kek L (str_bytes pw) sk (kb_kdf_salt b) prm = Inr kek"
    and "seal L kek (mk_as_bytes mk) r1 = (Inr (kb_master_key_wrapped b), r2)"
    and "seal L (mk_as_bytes mk) x r3 = (Inr (kb_x25519_private_wrapped b), r4)"
    and "seal L (mk_as_bytes mk) ed r5 = (Inr (kb_ed25519_private_wrapped b), r6)"
  shows "unlock_identity L b pw sk =
    Inr \<lparr>ui_master_key = mk, ui_x25519_secret = x, ui_ed25519_secret = ed\<rparr>"
proof -
  have "aead_sound L" using L by (simp add: lib_sound_def)
  note opened = open_array_seal [OF this]
  have "from_json L (kb_kdf_params b) = Inr prm"
    using L json by (simp add: from_json_def lib_sound_def kdf_json_sound_def)
  moreover have "open_array L kek (kb_master_key_wrapped b) = Inr (mk_as_bytes mk)"
    using assms(7) sizes(1) derive_kek_size [OF kek] opened by blast
  moreover have "open_array L (mk_as_bytes mk) (kb_x25519_private_wrapped b) = Inr x"
    "open_array L (mk_as_bytes mk) (kb_ed25519_private_wrapped b) = Inr ed"
    using assms(8,9) sizes opened by blast+
  moreover have "mk_from_bytes (mk_as_bytes mk) = mk"
    by (cases mk) (simp add: mk_from_bytes_def)
  ultimately show ?thesis using kek by (simp add: unlock_identity_def)
qed





lemma seal_total: "lib_total L prm \<Longrightarrow> length k = KEY_LEN \<Longrightarrow> length p = KEY_LEN \<Longrightarrow> \<exists>b. seal L k p r = (Inr b, \<lambda>i. r (i + NONCE_LEN))"
proof -
  assume "lib_total L prm" and "length k = KEY_LEN" and "length p = KEY_LEN"
  then obtain c where "aead_encrypt L k (map r [0..<NONCE_LEN]) p = Some c"
    by (fastforce simp: lib_total_def)
  then show ?thesis
    by (simp add: seal_def and_then_def fill_bytes_def lift_result_def ret_def)
qed

lemma derive_kek_total:
  "lib_total L prm \<Longrightarrow> length salt = SALT_LEN \<Longrightarrow> \<exists>k. derive_kek L pw sk salt prm = Inr k"
proof -
  assume L: "lib_total L prm" and "length salt = SALT_LEN"
  then obtain a b where "argon2id L prm KEY_LEN pw salt = Some a"
    "hkdf_expand L (Some salt) (sk_as_bytes sk) HKDF_INFO KEY_LEN = Some b"
    by (fastforce simp: lib_total_def)
  with L show ?thesis
    by (simp add: lib_total_def derive_kek_def argon2_leg_def secret_key_leg_def)
qed

lemma unlock_bootstrap:
  assumes "lib_sound L"
    and "bootstrap_identity_with_params L pw prm r = (Inr out, r')"
  shows "unlock_identity L (bo_bundle out) pw (bo_secret_key out) = Inr (bo_identity out)"
  using assms(2) by (rule bootstrap_unfold) (simp add: unlock_sealed [OF assms(1)])

lemma bootstrap_total:
  assumes "lib_total L prm"
  shows "\<exists>out. bootstrap_identity_with_params L pw prm r = (Inr out, \<lambda>i. r (i + 204))"
proof -
  have L: "kdf_json_write L prm \<noteq> None" using assms by (simp add: lib_total_def)
  define s where "s n = (\<lambda>i. r (i + n))" for n :: nat
  let ?bs = "\<lambda>n k. map (s n) [0..<k]"
  have fill: "fill_bytes k (s n) = (Inr (?bs n k), s (n + k))" for n k
    by (simp add: fill_bytes_def s_def ac_simps)
  have shift: "(\<lambda>i. s n (i + k)) = s (n + k)" for n k by (simp add: s_def ac_simps)
  have r: "r = s 0" by (simp add: s_def)
  let ?sk = "SecretKey (?bs 0 20)" and ?mk = "?bs 20 32"
  obtain kek where kek: "derive_kek L (str_bytes pw) ?sk (?bs 116 16) prm = Inr kek"
    using derive_kek_total [OF assms] by (metis SALT_LEN_def diff_zero length_map length_upt)
  have seals: "\<exists>b. seal L k p (s n) = (Inr b, s (n + 24))" if "length k = 32" "length p = 32" for k p n
    using seal_total [OF assms, of k p "s n"] that by (simp add: shift NONCE_LEN_def KEY_LEN_def)
  obtain b1 b2 b3 json where
    "seal L kek ?mk (s 132) = (Inr b1, s 156)" "seal L ?mk (?bs 52 32) (s 156) = (Inr b2, s 180)"
    "seal L ?mk (?bs 84 32) (s 180) = (Inr b3, s 204)" "kdf_json_write L prm = Some json"
    using seals [of kek ?mk 132] seals [of ?mk "?bs 52 32" 156] seals [of ?mk "?bs 84 32" 180]
      derive_kek_size [OF kek] L by (auto simp: KEY_LEN_def)
  with kek show ?thesis
    by (simp add: bootstrap_identity_with_params_def sk_generate_def mk_random_def and_then_def
        ret_def lift_result_def fill r SECRET_KEY_BYTES_def KEY_LEN_def SALT_LEN_def to_json_def
        del: upt_rec_numeral upt_Suc)
      (simp add: s_def)
qed

lemma unlock_iff:
  "unlock_identity L bundle pw sk = Inr ident \<longleftrightarrow>
     (\<exists>prm kek mk. from_json L (kb_kdf_params bundle) = Inr prm \<and>
        derive_kek L (str_bytes pw) sk (kb_kdf_salt bundle) prm = Inr kek \<and>
        open_array L kek (kb_master_key_wrapped bundle) = Inr mk \<and> ui_master_key ident = MasterKey mk \<and>
        open_array L mk (kb_x25519_private_wrapped bundle) = Inr (ui_x25519_secret ident) \<and>
        open_array L mk (kb_ed25519_private_wrapped bundle) = Inr (ui_ed25519_secret ident))"
  by (cases ident)
     (auto simp: unlock_identity_def mk_from_bytes_def Let_def split: sum.splits)

lemma open_array_Inr: "open_array L k b = Inr x \<Longrightarrow> length x = KEY_LEN"
  by (auto simp: open_array_def key_array_def split: sum.splits if_splits)

lemma unlock_rewrapped:
  assumes "lib_sound L"
    and "unlock_identity L bundle old_pw sk = Inr ident"
    and "rewrap_master_key L (ui_master_key ident) sk new_pw prm r = (Inr rw, r')"
  shows "unlock_identity L
      (bundle\<lparr>kb_master_key_wrapped := rw_master_key_wrapped rw,
              kb_kdf_salt := rw_kdf_salt rw,
              kb_kdf_params := rw_kdf_params rw\<rparr>) new_pw sk = Inr ident"
proof -
  have L: "aead_sound L" "kdf_json_sound L" using assms(1) by (simp_all add: lib_sound_def)
  obtain mk where mk: "ui_master_key ident = MasterKey mk" "length mk = KEY_LEN"
    "open_array L mk (kb_x25519_private_wrapped bundle) = Inr (ui_x25519_secret ident)"
    "open_array L mk (kb_ed25519_private_wrapped bundle) = Inr (ui_ed25519_secret ident)"
    using assms(2) by (auto simp: unlock_iff dest: open_array_Inr)
  obtain kek r1 r2 where kek: "derive_kek L (str_bytes new_pw) sk (rw_kdf_salt rw) prm = Inr kek"
    and "seal L kek mk r1 = (Inr (rw_master_key_wrapped rw), r2)"
    and json: "kdf_json_write L prm = Some (rw_kdf_params rw)"
    using assms(3) mk(1)
    by (auto simp: rewrap_master_key_def exec_result exec_simps to_json_def)
  then have "open_array L kek (rw_master_key_wrapped rw) = Inr mk"
    using L(1) mk(2) derive_kek_size [OF kek] open_array_seal by blast
  moreover have "from_json L (rw_kdf_params rw) = Inr prm"
    using json L(2) by (simp add: from_json_def kdf_json_sound_def)
  ultimately show ?thesis
    using kek mk by (auto simp: unlock_iff)
qed

lemma unlock_master_size:
  "unlock_identity L b pw sk = Inr ident \<Longrightarrow> length (mk_as_bytes (ui_master_key ident)) = KEY_LEN"
  by (auto simp: unlock_iff dest: open_array_Inr)

lemma rewrap_total:
  assumes "lib_total L prm" and "length (mk_as_bytes mk) = KEY_LEN"
  shows "\<exists>rw r'. rewrap_master_key L mk sk pw prm r = (Inr rw, r')"
proof -
  obtain json where json: "to_json L prm = Inr json"
    using assms(1) by (auto simp: lib_total_def to_json_def)
  obtain kek where kek: "derive_kek L (str_bytes pw) sk (map r [0..<SALT_LEN]) prm = Inr kek"
    using derive_kek_total [OF assms(1)] by (metis diff_zero length_map length_upt)
  obtain b where "seal L kek (mk_as_bytes mk) (\<lambda>i. r (i + SALT_LEN)) = (Inr b, \<lambda>i. r (i + NONCE_LEN + SALT_LEN))"
    using seal_total [OF assms(1) derive_kek_size [OF kek] assms(2)] by blast
  with json kek show ?thesis
    by (auto simp: rewrap_master_key_def and_then_def fill_bytes_def lift_result_def ret_def)
qed

section \<open>A concrete library for the witnesses\<close>

text \<open>
  Toy functions that satisfy the predicates above: keys are their own public keys, the exchange is
  exclusive or, the tag is half of the key, and parameters are written in unary.
\<close>

definition sample_lib :: crypto_lib where
  "sample_lib =
     \<lparr>argon2_params_ok = (\<lambda>prm n. True),
      argon2id = (\<lambda>prm n pw salt. Some (take n (pw @ replicate n 0))),
      hkdf_expand = (\<lambda>salt ikm info n. Some (take n (ikm @ replicate n 0))),
      aead_encrypt = (\<lambda>k n p. Some (p @ take 16 k)),
      aead_decrypt = (\<lambda>k n c. if 16 \<le> length c \<and> drop (length c - 16) c = take 16 k
                              then Some (take (length c - 16) c) else None),
      x25519_public = (\<lambda>s. s),
      x25519_dh = (\<lambda>a b. map2 (XOR) a b),
      ed25519_public = (\<lambda>s. s),
      kdf_json_write = (\<lambda>p. Some (replicate (unat (m_cost_kib p)) CHR ''m''
         @ replicate (unat (t_cost p)) CHR ''t'' @ replicate (unat (p_cost p)) CHR ''p'')),
      kdf_json_read = (\<lambda>s. Some \<lparr>m_cost_kib = of_nat (count_list s CHR ''m''),
         t_cost = of_nat (count_list s CHR ''t''), p_cost = of_nat (count_list s CHR ''p'')\<rparr>)\<rparr>"

lemma count_list_replicate: "count_list (replicate n x) y = (if x = y then n else 0)"
  by (induction n) auto



lemma sample_lib_sound: "lib_sound sample_lib"
proof -
  have "aead_sound sample_lib"
    by (simp add: aead_sound_def sample_lib_def KEY_LEN_def)
  moreover have "sizes_ok sample_lib"
    by (auto simp: sizes_ok_def sample_lib_def)
  moreover have "dh_agrees sample_lib"
    unfolding dh_agrees_def sample_lib_def by (simp add: map2_xor_commute)
  moreover have "kdf_json_sound sample_lib"
    by (simp add: kdf_json_sound_def sample_lib_def count_list_append count_list_replicate)
  ultimately show ?thesis by (simp add: lib_sound_def)
qed

lemma sample_lib_total: "lib_total sample_lib prm"
  by (simp add: lib_total_def sample_lib_def)

definition sample_params :: kdf_params where
  "sample_params = \<lparr>m_cost_kib = 1, t_cost = 2, p_cost = 3\<rparr>"

text \<open>A bootstrap with a constant random source.\<close>

definition sample_boot :: bootstrap_output where
  "sample_boot = projr (fst (bootstrap_identity_with_params sample_lib ''a'' sample_params (\<lambda>_. 7)))"

lemma sample_boot_run:
  "\<exists>r'. bootstrap_identity_with_params sample_lib ''a'' sample_params (\<lambda>_. 7) = (Inr sample_boot, r')"
  using bootstrap_total [OF sample_lib_total [of sample_params], of "''a''" "\<lambda>_. 7"]
  by (auto simp: sample_boot_def)

lemma sample_unlock:
  "unlock_identity sample_lib (bo_bundle sample_boot) ''a'' (bo_secret_key sample_boot) = Inr (bo_identity sample_boot)"
  using sample_boot_run unlock_bootstrap [OF sample_lib_sound] by metis

section \<open>Properties\<close>

text \<open>
  Property C13: unlocking the bundle of a bootstrap with its password and its Secret Key returns
  exactly the master key and the private keys that were generated.
\<close>

theorem unlock_after_bootstrap:
  assumes "lib_sound L"
    and "bootstrap_identity_with_params L pw prm r = (Inr out, r')"
  shows "unlock_identity L (bo_bundle out) pw (bo_secret_key out) = Inr (bo_identity out)"
  using assms by (rule unlock_bootstrap)

theorem unlock_after_bootstrap_witness:
  "unlock_identity sample_lib (bo_bundle sample_boot) ''a'' (bo_secret_key sample_boot) =
     Inr (bo_identity sample_boot)"
proof -
  obtain r' where "bootstrap_identity_with_params sample_lib ''a'' sample_params (\<lambda>_. 7) = (Inr sample_boot, r')"
    using sample_boot_run by blast
  with sample_lib_sound show ?thesis by (rule unlock_after_bootstrap)
qed

text \<open>
  Bootstrap does not fail when the libraries do not, and it consumes exactly 204
  random bytes (Secret Key, master key, two private keys, salt, three nonces), each once.
\<close>

lemma bootstrap_succeeds:
  assumes "lib_total L prm"
  shows "\<exists>out. bootstrap_identity_with_params L pw prm r = (Inr out, \<lambda>i. r (i + 204))"
  using assms by (rule bootstrap_total)

text \<open>
  The shape of every bundle sent to the server: 32-byte public keys, a 16-byte salt,
  wraps of nonce, 32-byte key and tag (72 bytes), readable parameters, and a Secret Key of 20 bytes.
\<close>

lemma bundle_shape:
  assumes "lib_sound L"
    and "bootstrap_identity_with_params L pw prm r = (Inr out, r')"
  shows "length (kb_x25519_public (bo_bundle out)) = 32 \<and>
    length (kb_ed25519_public (bo_bundle out)) = 32 \<and>
    length (kb_kdf_salt (bo_bundle out)) = 16 \<and>
    length (kb_master_key_wrapped (bo_bundle out)) = 72 \<and>
    length (kb_x25519_private_wrapped (bo_bundle out)) = 72 \<and>
    length (kb_ed25519_private_wrapped (bo_bundle out)) = 72 \<and>
    from_json L (kb_kdf_params (bo_bundle out)) = Inr prm \<and>
    wf_sk (bo_secret_key out)"
proof -
  have L: "aead_sound L" "sizes_ok L" "kdf_json_sound L" using assms(1) by (simp_all add: lib_sound_def)
  note [simp] = KEY_LEN_def NONCE_LEN_def SALT_LEN_def
  show ?thesis
    using assms(2)
  proof (rule bootstrap_unfold)
  qed (use L in \<open>auto simp: sizes_ok_def kdf_json_sound_def from_json_def dest!: derive_kek_size seal_size [OF L(1), rotated]\<close>)
qed

text \<open>
  The AEAD refuses this blob, sealed under \<open>k\<close>, under another key \<open>k'\<close>.
\<close>

definition rejects_other_key :: "crypto_lib \<Rightarrow> bytes \<Rightarrow> bytes \<Rightarrow> bytes \<Rightarrow> bool" where
  "rejects_other_key L blob k k' \<longleftrightarrow>
     (k' \<noteq> k \<longrightarrow> aead_decrypt L k' (take NONCE_LEN blob) (drop NONCE_LEN blob) = None)"

text \<open>
  Property C18: with one wrong factor (a password or a Secret Key whose derivation differs from the
  right one's) unlocking fails with the one error \<open>Decrypt\<close>, whichever factor was wrong, provided
  the AEAD refuses the wrap under the other key.
\<close>

theorem unlock_wrong_factor:
  assumes "lib_sound L"
    and "bootstrap_identity_with_params L pw prm r = (Inr out, r')"
    and "derive_kek L (str_bytes pw) (bo_secret_key out) (kb_kdf_salt (bo_bundle out)) prm = Inr kek"
    and "derive_kek L (str_bytes pw') sk' (kb_kdf_salt (bo_bundle out)) prm = Inr kek'"
    and "rejects_other_key L (kb_master_key_wrapped (bo_bundle out)) kek kek'"
    and "pw' = pw \<and> secret_key_leg L sk' (kb_kdf_salt (bo_bundle out))
                     \<noteq> secret_key_leg L (bo_secret_key out) (kb_kdf_salt (bo_bundle out)) \<or>
         sk' = bo_secret_key out \<and> argon2_leg L (str_bytes pw') (kb_kdf_salt (bo_bundle out)) prm
                     \<noteq> argon2_leg L (str_bytes pw) (kb_kdf_salt (bo_bundle out)) prm"
  shows "unlock_identity L (bo_bundle out) pw' sk' = Inl Decrypt"
proof -
  have "sizes_ok L" "kdf_json_sound L" using assms(1) by (simp_all add: lib_sound_def)
  then have "kek' \<noteq> kek"
    using kek_legs_cancel [OF _ assms(3,4)] assms(6) by fastforce
  then have "open_array L kek' (kb_master_key_wrapped (bo_bundle out)) = Inl Decrypt"
    using assms(5) by (simp add: rejects_other_key_def open_array_def open_blob_def)
  moreover have "from_json L (kb_kdf_params (bo_bundle out)) = Inr prm"
    using assms(2) by (rule bootstrap_unfold)
      (use \<open>kdf_json_sound L\<close> in \<open>simp add: from_json_def kdf_json_sound_def\<close>)
  ultimately show ?thesis
    using assms(4) by (simp add: unlock_identity_def)
qed

theorem unlock_wrong_factor_witness:
  "unlock_identity sample_lib (bo_bundle sample_boot) ''b'' (bo_secret_key sample_boot) = Inl Decrypt"
proof -
  obtain r' where boot: "bootstrap_identity_with_params sample_lib ''a'' sample_params (\<lambda>_. 7) = (Inr sample_boot, r')"
    using sample_boot_run by blast
  let ?salt = "kb_kdf_salt (bo_bundle sample_boot)" and ?sk = "bo_secret_key sample_boot"
  let ?kek = "\<lambda>pw. projr (derive_kek sample_lib (str_bytes pw) ?sk ?salt sample_params)"
  have kek: "derive_kek sample_lib (str_bytes pw) ?sk ?salt sample_params = Inr (?kek pw)" for pw
    by (simp add: derive_kek_def argon2_leg_def secret_key_leg_def sample_lib_def)
  have "rejects_other_key sample_lib (kb_master_key_wrapped (bo_bundle sample_boot)) (?kek ''a'') (?kek ''b'')"
    by code_simp
  moreover have "argon2_leg sample_lib (str_bytes ''b'') ?salt sample_params
      \<noteq> argon2_leg sample_lib (str_bytes ''a'') ?salt sample_params"
    by code_simp
  ultimately show ?thesis
    using unlock_wrong_factor [OF sample_lib_sound boot kek kek] by blast
qed

text \<open>
  Property C14: after a password change the bundle with the re-wrapped master key unlocks with the
  new password and the unchanged Secret Key to the same identity: same master key, same private keys.
\<close>

theorem rewrap_changes_password:
  assumes "lib_sound L"
    and "unlock_identity L bundle old_pw sk = Inr ident"
    and "rewrap_master_key L (ui_master_key ident) sk new_pw prm r = (Inr rw, r')"
  shows "unlock_identity L
      (bundle\<lparr>kb_master_key_wrapped := rw_master_key_wrapped rw,
              kb_kdf_salt := rw_kdf_salt rw,
              kb_kdf_params := rw_kdf_params rw\<rparr>) new_pw sk = Inr ident"
  using assms by (rule unlock_rewrapped)

theorem rewrap_changes_password_witness:
  "\<exists>rw :: rewrapped_master. unlock_identity sample_lib
      ((bo_bundle sample_boot)\<lparr>kb_master_key_wrapped := rw_master_key_wrapped rw,
              kb_kdf_salt := rw_kdf_salt rw,
              kb_kdf_params := rw_kdf_params rw\<rparr>) ''b'' (bo_secret_key sample_boot) = Inr (bo_identity sample_boot)"
proof -
  obtain rw r' where "rewrap_master_key sample_lib (ui_master_key (bo_identity sample_boot))
      (bo_secret_key sample_boot) ''b'' sample_params (\<lambda>_. 9) = (Inr rw, r')"
    using rewrap_total [OF sample_lib_total, of "ui_master_key (bo_identity sample_boot)"] sample_unlock
    by (metis unlock_master_size)
  from rewrap_changes_password [OF sample_lib_sound sample_unlock this] show ?thesis by (rule exI)
qed

text \<open>
  The two legs of the KEK are independent. Whatever one leg is, every KEK is reached by
  exactly one value of the other leg; so one factor alone says nothing about the KEK.
\<close>

lemma kek_legs_independent:
  assumes "length leg = KEY_LEN" and "length kek = KEY_LEN"
  shows "(\<exists>!other. length other = KEY_LEN \<and> xor_into (replicate KEY_LEN 0) leg other = kek) \<and>
         (\<exists>!other. length other = KEY_LEN \<and> xor_into (replicate KEY_LEN 0) other leg = kek)"
proof -
  have r: "xor_into (replicate KEY_LEN 0) leg x = kek \<longleftrightarrow> x = map2 (XOR) leg kek" if "length x = KEY_LEN" for x
    using that assms by (simp add: xor_into_map2 map2_xor_cancel)
  moreover have "xor_into (replicate KEY_LEN 0) x leg = xor_into (replicate KEY_LEN 0) leg x" if "length x = KEY_LEN" for x
    using that assms by (simp add: xor_into_map2 map2_xor_commute)
  moreover have "length (map2 (XOR) leg kek) = KEY_LEN" using assms by simp
  ultimately show ?thesis by metis
qed

text \<open>
  Property C33: what is sealed to a public key is opened by its secret: the sealed box round trip.
\<close>

theorem sealed_box_roundtrip:
  assumes "lib_sound L" and "length sk = KEY_LEN"
    and "seal_to L (x25519_public L sk) plaintext r = (Inr blob, r')"
  shows "open_sealed L sk blob = Inr plaintext"
  using assms by (blast intro: sealed_box.open_seal)

theorem sealed_box_roundtrip_witness:
  "\<exists>blob r'. seal_to sample_lib (replicate 32 5) [1, 2, 3] (\<lambda>i. of_nat i) = (Inr blob, r') \<and>
     open_sealed sample_lib (replicate 32 5) blob = Inr [1, 2, 3]"
proof -
  have "x25519_public sample_lib s = s" for s by (simp add: sample_lib_def)
  then obtain blob r' where "seal_to sample_lib (x25519_public sample_lib (replicate 32 5)) [1, 2, 3] (\<lambda>i. of_nat i) = (Inr blob, r')"
    by (fastforce simp: seal_to_def and_then_Inr_iff seal_Inr_iff lift_result_eq ret_eq Let_def
        sealbox_key_def sample_lib_def)
  moreover from this have "open_sealed sample_lib (replicate 32 5) blob = Inr [1, 2, 3]"
    by (rule sealed_box_roundtrip [OF sample_lib_sound, rotated]) (simp add: KEY_LEN_def)
  ultimately show ?thesis by (auto simp: sample_lib_def)
qed

text \<open>
  Device telemetry reaches the admins. The group secret sealed to an admin's public
  key, and telemetry sealed to the group's public key by an agent: the admin opens the first blob
  with the personal secret and the second with what it contains.
\<close>

lemma group_telemetry:
  assumes "lib_sound L" and "length admin_secret = KEY_LEN" and "length (gk_secret gk) = KEY_LEN"
    and "gk_public gk = x25519_public L (gk_secret gk)"
    and "seal_to L (x25519_public L admin_secret) (gk_secret gk) r1 = (Inr wrapped, r1')"
    and "seal_to L (gk_public gk) telemetry r2 = (Inr blob, r2')"
  shows "(case open_sealed L admin_secret wrapped of
            Inl e \<Rightarrow> Inl e
          | Inr group_secret \<Rightarrow> open_sealed L group_secret blob) = Inr telemetry"
  using group_access.open_chain [of "x25519_public L admin_secret" L admin_secret "gk_secret gk"
      r1 wrapped r1' "gk_public gk" telemetry r2 blob r2'] assms by (simp add: id_def cong: sum.case_cong)

end
