(* ===== verification/Discovery.thy ===== *)
theory Discovery
  imports Text_Codec
begin

text \<open>
  \<open>src/transport/discovery.rs\<close>: the signed discovery response, its verification, the
  trust-on-first-use decision and the fetch that binds a response to a fresh challenge.

  \<open>ed25519-dalek\<close> and \<open>serde_json\<close> are the record \<open>discovery_lib\<close>; \<open>reqwest\<close> is the record
  \<open>http\<close>, whose operation acts on the state of the network. A \<open>host\<close> holds what the code reads and
  changes outside itself: the operating system's random source and the network.
\<close>

section \<open>Types and libraries\<close>

datatype discovery_error =
    UnsupportedVersion u32
  | NonceMismatch
  | Malformed_Field string
  | BadSignature
  | Fetch

record discovery_response =
  dr_name :: string
  dr_server_version :: string
  dr_grpc_port :: u16
  dr_server_identity_public :: string
  dr_nonce :: string
  dr_signature :: string
  dr_payload_version :: u32

record verified_server =
  identity_public :: bytes
  vs_name :: string
  vs_server_version :: string
  vs_grpc_port :: u16

datatype trust_decision = FirstContact | Matches | Mismatch

text \<open>
  \<open>VerifyingKey::from_bytes\<close> accepts or not, \<open>verify_strict\<close> of key, message and signature;
  \<open>serde_json::from_slice\<close> of a response.
\<close>

record discovery_lib =
  ed25519_key_ok :: "bytes \<Rightarrow> bool"
  ed25519_verify_strict :: "bytes \<Rightarrow> bytes \<Rightarrow> bytes \<Rightarrow> bool"
  response_json_read :: "bytes \<Rightarrow> discovery_response option"

text \<open>
  \<open>reqwest::get\<close> of a URL: no response, or the status code and the body, where reading the body
  may fail.
\<close>

record 'n http =
  http_get :: "string \<Rightarrow> 'n \<Rightarrow> (nat \<times> bytes option) option \<times> 'n"

record 'n host =
  host_rng :: rng
  host_net :: 'n

definition with_rng :: "(rng, 'e, 'a) exec \<Rightarrow> (('n, 'z) host_scheme, 'e, 'a) exec" where
  "with_rng m = on_part host_rng host_rng_update m"

definition with_net :: "('n \<Rightarrow> 'a \<times> 'n) \<Rightarrow> (('n, 'z) host_scheme, 'e, 'a) exec" where
  "with_net f h = (case f (host_net h) of (x, n) \<Rightarrow> (Inr x, h\<lparr>host_net := n\<rparr>))"

lemma with_rng_Inr_iff [simp]:
  "with_rng m h = (Inr x, h') \<longleftrightarrow> (\<exists>r. m (host_rng h) = (Inr x, r) \<and> h' = h\<lparr>host_rng := r\<rparr>)"
  by (auto simp: with_rng_def on_part_iff)

lemma with_rng_Inl_iff [simp]:
  "with_rng m h = (Inl e, h') \<longleftrightarrow> (\<exists>r. m (host_rng h) = (Inl e, r) \<and> h' = h\<lparr>host_rng := r\<rparr>)"
  by (auto simp: with_rng_def on_part_iff)

lemma with_net_Inr_iff [simp]:
  "with_net f h = (Inr x, h') \<longleftrightarrow> (\<exists>n. f (host_net h) = (x, n) \<and> h' = h\<lparr>host_net := n\<rparr>)"
  by (auto simp: with_net_def split: prod.splits)

lemma with_net_no_error [simp]: "with_net f h \<noteq> (Inl e, h')"
  by (simp add: with_net_def split: prod.splits)

section \<open>The signed bytes\<close>

definition PAYLOAD_VERSION :: u32 where
  "PAYLOAD_VERSION = 1"

definition DOMAIN :: bytes where
  "DOMAIN = str_bytes ''sylva.discovery.v1''"

text \<open>\<open>to_be_bytes\<close> of the two integer types.\<close>

definition u32_be :: "u32 \<Rightarrow> bytes" where
  "u32_be w = [ucast (drop_bit 24 w), ucast (drop_bit 16 w), ucast (drop_bit 8 w), ucast w]"

definition u16_be :: "u16 \<Rightarrow> bytes" where
  "u16_be w = [ucast (drop_bit 8 w), ucast w]"

text \<open>The length is cast to \<open>u32\<close>, so it wraps for fields of 4 GiB and more.\<close>

definition push_field :: "bytes \<Rightarrow> bytes \<Rightarrow> bytes" where
  "push_field out field = out @ u32_be (of_nat (length field)) @ field"

definition canonical_bytes :: "string \<Rightarrow> bytes \<Rightarrow> u16 \<Rightarrow> string \<Rightarrow> bytes" where
  "canonical_bytes nonce public grpc_port name =
     (let out = push_field [] DOMAIN;
          out = push_field out (u32_be PAYLOAD_VERSION);
          out = push_field out (str_bytes nonce);
          out = push_field out public;
          out = push_field out (u16_be grpc_port)
      in push_field out (str_bytes name))"

section \<open>Verification and trust\<close>

definition verify_discovery ::
  "discovery_lib \<Rightarrow> discovery_response \<Rightarrow> string \<Rightarrow> discovery_error + verified_server" where
  "verify_discovery D resp expected_nonce =
     (if dr_payload_version resp \<noteq> PAYLOAD_VERSION
      then Inl (UnsupportedVersion (dr_payload_version resp))
      else if dr_nonce resp \<noteq> expected_nonce then Inl NonceMismatch
      else
     (case decode_hex_array 32 (dr_server_identity_public resp) of
        None \<Rightarrow> Inl (Malformed_Field ''server_identity_public'')
      | Some public \<Rightarrow>
     (case decode_hex_array 64 (dr_signature resp) of
        None \<Rightarrow> Inl (Malformed_Field ''signature'')
      | Some signature \<Rightarrow>
          if \<not> ed25519_key_ok D public then Inl (Malformed_Field ''identity key'')
          else if \<not> ed25519_verify_strict D public
                      (canonical_bytes (dr_nonce resp) public (dr_grpc_port resp) (dr_name resp)) signature
          then Inl BadSignature
          else Inr \<lparr>identity_public = public,
                    vs_name = dr_name resp,
                    vs_server_version = dr_server_version resp,
                    vs_grpc_port = dr_grpc_port resp\<rparr>)))"

definition check_pin :: "verified_server \<Rightarrow> bytes option \<Rightarrow> trust_decision" where
  "check_pin verified pinned =
     (case pinned of
        None \<Rightarrow> FirstContact
      | Some pin \<Rightarrow> if pin = identity_public verified then Matches else Mismatch)"

definition parse_and_verify ::
  "discovery_lib \<Rightarrow> bytes \<Rightarrow> string \<Rightarrow> discovery_error + verified_server" where
  "parse_and_verify D body expected_nonce =
     (case response_json_read D body of
        None \<Rightarrow> Inl (Malformed_Field ''response body'')
      | Some response \<Rightarrow> verify_discovery D response expected_nonce)"

section \<open>Fetching\<close>

definition discovery_url :: "string \<Rightarrow> string \<Rightarrow> string" where
  "discovery_url base_url nonce =
     trim_end_matches (CHR ''/'') base_url @ ''/.well-known/sylva-discovery?nonce='' @ nonce"

definition random_nonce :: "(rng, 'e, string) exec" where
  "random_nonce = and_then (fill_bytes 16) (\<lambda>bs. ret (encode_hex bs))"

definition is_success :: "nat \<Rightarrow> bool" where
  "is_success status \<longleftrightarrow> 200 \<le> status \<and> status < 300"

definition fetch_and_verify ::
  "discovery_lib \<Rightarrow> ('n, 'y) http_scheme \<Rightarrow> string \<Rightarrow>
     (('n, 'z) host_scheme, discovery_error, verified_server) exec" where
  "fetch_and_verify D W base_url =
     and_then (with_rng random_nonce) (\<lambda>nonce.
     and_then (with_net (http_get W (discovery_url base_url nonce))) (\<lambda>response.
       (case response of
          None \<Rightarrow> throw Fetch
        | Some (status, body) \<Rightarrow>
            if \<not> is_success status then throw Fetch
            else (case body of
                    None \<Rightarrow> throw Fetch
                  | Some bs \<Rightarrow> lift_result (parse_and_verify D bs nonce)))))"

section \<open>What an honest server signs\<close>

text \<open>
  The server's response to a challenge, for a signing function and the identity key it belongs
  to (in the repository this is the contract the tests state for the server).
\<close>

definition signed_response ::
  "(bytes \<Rightarrow> bytes) \<Rightarrow> bytes \<Rightarrow> string \<Rightarrow> string \<Rightarrow> u16 \<Rightarrow> discovery_response" where
  "signed_response sign public nonce name grpc_port =
     \<lparr>dr_name = name,
      dr_server_version = ''0.0.1'',
      dr_grpc_port = grpc_port,
      dr_server_identity_public = encode_hex public,
      dr_nonce = nonce,
      dr_signature = encode_hex (sign (canonical_bytes nonce public grpc_port name)),
      dr_payload_version = PAYLOAD_VERSION\<rparr>"

section \<open>Framing\<close>

definition u32_of_be :: "bytes \<Rightarrow> u32 option" where
  "u32_of_be bs = (case bs of
     [a, b, c, d] \<Rightarrow> Some (push_bit 24 (ucast a) OR push_bit 16 (ucast b) OR push_bit 8 (ucast c) OR ucast d)
   | _ \<Rightarrow> None)"

definition u16_of_be :: "bytes \<Rightarrow> u16 option" where
  "u16_of_be bs = (case bs of
     [a, b] \<Rightarrow> Some (push_bit 8 (ucast a) OR ucast b)
   | _ \<Rightarrow> None)"

lemma u16_of_be_u16_be: "u16_of_be (u16_be w) = Some w"
  by (auto simp: u16_of_be_def u16_be_def bit_simps intro!: bit_word_eqI)

lemma u32_of_be_u32_be: "u32_of_be (u32_be w) = Some w"
proof -
  have "bit (push_bit 24 (ucast (ucast (drop_bit 24 w) :: byte)) OR push_bit 16 (ucast (ucast (drop_bit 16 w) :: byte))
      OR push_bit 8 (ucast (ucast (drop_bit 8 w) :: byte)) OR ucast (ucast w :: byte) :: u32) n = bit w n"
    if n: "n < 32" for n
  proof -
    consider "n < 8" | "8 \<le> n" "n < 16" | "16 \<le> n" "n < 24" | "24 \<le> n" by linarith
    then show ?thesis using n by cases (simp_all add: bit_simps, linarith+)
  qed
  then show ?thesis by (simp add: u32_of_be_def u32_be_def) (rule bit_word_eqI, simp)
qed

interpretation be32: codec "\<lambda>_. True" u32_be u32_of_be
  by unfold_locales (rule u32_of_be_u32_be)

interpretation be16: codec "\<lambda>_. True" u16_be u16_of_be
  by unfold_locales (rule u16_of_be_u16_be)

lemma length_be [simp]: "length (u32_be w) = 4" "length (u16_be v) = 2"
  by (simp_all add: u32_be_def u16_be_def)

abbreviation fits_u32 :: "'a list \<Rightarrow> bool" where
  "fits_u32 xs \<equiv> length xs < 2 ^ 32"

definition frame :: "bytes \<Rightarrow> bytes" where
  "frame field = u32_be (of_nat (length field)) @ field"

lemma push_field_frame: "push_field out field = out @ frame field"
  by (simp add: push_field_def frame_def)

lemma frame_inject:
  assumes "fits_u32 f" "fits_u32 g" and eq: "frame f @ r = frame g @ s"
  shows "f = g \<and> r = s"
proof -
  have "u32_be (of_nat (length f)) = u32_be (of_nat (length g))" and rest: "f @ r = g @ s"
    using eq by (simp_all add: frame_def)
  then have "(of_nat (length f) :: u32) = of_nat (length g)"
    by (auto dest: be32.enc_inject [rotated 2])
  then have "length f = length g"
    using assms(1,2) by (simp add: word_of_nat_eq_iff take_bit_nat_eq_self)
  with rest show ?thesis by simp
qed

lemma canonical_bytes_frames:
  "canonical_bytes nonce public port name =
     frame DOMAIN @ frame (u32_be PAYLOAD_VERSION) @ frame (str_bytes nonce) @ frame public @
     frame (u16_be port) @ frame (str_bytes name)"
  by (simp add: canonical_bytes_def push_field_frame Let_def)

lemma canonical_bytes_inject:
  assumes "fits_u32 nonce" "fits_u32 public" "fits_u32 name"
    and "fits_u32 nonce'" "fits_u32 public'" "fits_u32 name'"
    and "canonical_bytes nonce public port name = canonical_bytes nonce' public' port' name'"
  shows "nonce = nonce' \<and> public = public' \<and> port = port' \<and> name = name'"
proof -
  have "frame (str_bytes nonce) @ frame public @ frame (u16_be port) @ frame (str_bytes name) =
    frame (str_bytes nonce') @ frame public' @ frame (u16_be port') @ frame (str_bytes name')"
    using assms(7) by (simp add: canonical_bytes_frames)
  then have "str_bytes nonce = str_bytes nonce'" and
    "frame public @ frame (u16_be port) @ frame (str_bytes name) =
     frame public' @ frame (u16_be port') @ frame (str_bytes name')"
    using assms(1,4) frame_inject by (metis length_str_bytes)+
  moreover from this(2) have "public = public'" and
    r: "frame (u16_be port) @ frame (str_bytes name) = frame (u16_be port') @ frame (str_bytes name')"
    using assms(2,5) frame_inject by blast+
  moreover from r have "u16_be port = u16_be port'" and "frame (str_bytes name) = frame (str_bytes name')"
    by (simp_all add: frame_def)
  moreover from this(2) have "str_bytes name = str_bytes name'"
    using assms(3,6) frame_inject [of "str_bytes name" "str_bytes name'" "[]" "[]"] by simp
  ultimately show ?thesis
    by (auto dest: be16.enc_inject [rotated 2])
qed

section \<open>What a verified response guarantees\<close>

lemma verify_discovery_Inr_iff:
  "verify_discovery D resp nonce = Inr v \<longleftrightarrow>
     dr_payload_version resp = PAYLOAD_VERSION \<and> dr_nonce resp = nonce \<and>
     decode_hex_array 32 (dr_server_identity_public resp) = Some (identity_public v) \<and>
     ed25519_key_ok D (identity_public v) \<and>
     (\<exists>sig. decode_hex_array 64 (dr_signature resp) = Some sig \<and>
        ed25519_verify_strict D (identity_public v)
          (canonical_bytes nonce (identity_public v) (dr_grpc_port resp) (dr_name resp)) sig) \<and>
     vs_name v = dr_name resp \<and> vs_server_version v = dr_server_version resp \<and>
     vs_grpc_port v = dr_grpc_port resp"
  by (cases v) (auto simp: verify_discovery_def split: option.splits if_splits)

lemma decode_hex_array_length: "decode_hex_array n s = Some bs \<Longrightarrow> length bs = n"
  by (simp add: decode_hex_array_iff)

lemma verify_discovery_key_size: "verify_discovery D resp nonce = Inr v \<Longrightarrow> length (identity_public v) = 32"
  by (auto simp: verify_discovery_Inr_iff dest: decode_hex_array_length)

lemma fetch_result_iff:
  "(case response of
      None \<Rightarrow> throw Fetch
    | Some (status, body) \<Rightarrow>
        if \<not> is_success status then throw Fetch
        else (case body of
                None \<Rightarrow> throw Fetch
              | Some bs \<Rightarrow> lift_result (parse_and_verify D bs nonce))) h = (Inr v, h') \<longleftrightarrow>
     (\<exists>st bs. response = Some (st, Some bs) \<and> is_success st \<and> parse_and_verify D bs nonce = Inr v \<and> h' = h)"
  by (auto simp: exec_simps split: option.splits)

lemma fetch_and_verify_Inr_iff:
  "fetch_and_verify D W url h = (Inr v, h') \<longleftrightarrow>
     (\<exists>nonce st body n. nonce = encode_hex (map (host_rng h) [0..<16]) \<and>
        http_get W (discovery_url url nonce) (host_net h) = (Some (st, Some body), n) \<and>
        is_success st \<and> parse_and_verify D body nonce = Inr v \<and>
        h' = h\<lparr>host_rng := (\<lambda>i. host_rng h (i + 16)), host_net := n\<rparr>)"
  by (fastforce simp: fetch_and_verify_def random_nonce_def and_then_Inr_iff fetch_result_iff ret_eq)

lemma length_random_nonce: "length (encode_hex (map r [0..<16])) = 32"
  by simp

text \<open>A key whose holder signs nothing but answers \<open>(nonce, port, name)\<close> from a given set.\<close>

definition signs_only :: "discovery_lib \<Rightarrow> bytes \<Rightarrow> (string \<times> u16 \<times> string) set \<Rightarrow> bool" where
  "signs_only D public answers \<longleftrightarrow>
     (\<forall>m sig. ed25519_verify_strict D public m sig \<longrightarrow>
        (\<exists>(nonce, port, name) \<in> answers. fits_u32 nonce \<and> fits_u32 name \<and>
           m = canonical_bytes nonce public port name))"

lemma verified_is_answer:
  assumes verified: "verify_discovery D resp nonce = Inr v"
    and holder: "signs_only D (identity_public v) answers"
    and sizes: "fits_u32 nonce" "fits_u32 (vs_name v)"
  shows "(nonce, vs_grpc_port v, vs_name v) \<in> answers"
proof -
  have pk: "fits_u32 (identity_public v)"
    using verify_discovery_key_size [OF verified] by simp
  obtain sig where "ed25519_verify_strict D (identity_public v)
      (canonical_bytes nonce (identity_public v) (vs_grpc_port v) (vs_name v)) sig"
    using verified by (auto simp: verify_discovery_Inr_iff)
  with holder obtain n p nm where "(n, p, nm) \<in> answers" "fits_u32 n" "fits_u32 nm"
    "canonical_bytes nonce (identity_public v) (vs_grpc_port v) (vs_name v) =
     canonical_bytes n (identity_public v) p nm"
    unfolding signs_only_def by blast
  with canonical_bytes_inject [OF sizes(1) pk sizes(2) this(2) pk this(3,4)] show ?thesis by simp
qed

section \<open>A small library for the witnesses\<close>

text \<open>
  The key is 32 times the byte 7; the only messages it signs are answers to the nonce of the random
  source \<open>0, 1, 2, ...\<close>, with the port 50051 and the name \<open>home\<close>; the body is ignored.
\<close>

definition sample_nonce :: string where
  "sample_nonce = encode_hex (map of_nat [0..<16])"

definition sample_public :: bytes where
  "sample_public = replicate 32 7"

definition sample_sign :: "bytes \<Rightarrow> bytes" where
  "sample_sign m = replicate 64 9"

definition sample_response :: discovery_response where
  "sample_response = signed_response sample_sign sample_public sample_nonce ''home'' 50051"

definition sample_discovery :: discovery_lib where
  "sample_discovery =
     \<lparr>ed25519_key_ok = (\<lambda>k. length k = 32),
      ed25519_verify_strict = (\<lambda>k m s. k = sample_public
         \<and> m = canonical_bytes sample_nonce sample_public 50051 ''home'' \<and> s = replicate 64 9),
      response_json_read = (\<lambda>body. Some sample_response)\<rparr>"

definition sample_http :: "nat http" where
  "sample_http = \<lparr>http_get = (\<lambda>url n. (Some (200, Some []), Suc n))\<rparr>"

definition sample_host :: "nat host" where
  "sample_host = \<lparr>host_rng = of_nat, host_net = 0\<rparr>"

definition sample_server :: verified_server where
  "sample_server = \<lparr>identity_public = sample_public, vs_name = ''home'',
     vs_server_version = ''0.0.1'', vs_grpc_port = 50051\<rparr>"

lemma sample_verified: "verify_discovery sample_discovery sample_response sample_nonce = Inr sample_server"
proof -
  have "decode_hex_array 32 (encode_hex sample_public) = Some sample_public"
    using hex_text.dec_enc [of sample_public 32] by (simp add: sample_public_def)
  moreover have "decode_hex_array 64 (encode_hex (replicate 64 9)) = Some (replicate 64 9)"
    using hex_text.dec_enc [of "replicate 64 9" 64] by simp
  ultimately show ?thesis
    by (simp add: verify_discovery_def sample_response_def signed_response_def sample_discovery_def
        sample_server_def sample_sign_def) (simp add: sample_public_def)
qed

lemma sample_signs_only: "signs_only sample_discovery sample_public {(sample_nonce, 50051, ''home'')}"
  by (simp add: signs_only_def sample_discovery_def sample_nonce_def)

lemma sample_fetch:
  "\<exists>h'. fetch_and_verify sample_discovery sample_http ''http://h:1'' sample_host = (Inr sample_server, h')"
proof -
  have "parse_and_verify sample_discovery [] sample_nonce = Inr sample_server"
    using sample_verified by (simp add: parse_and_verify_def) (simp add: sample_discovery_def)
  then show ?thesis
    by (simp add: fetch_and_verify_Inr_iff) (simp add: sample_host_def sample_http_def sample_nonce_def is_success_def)
qed

section \<open>Properties\<close>

text \<open>
  Property C21: the signed bytes determine the nonce, the key, the port and the name. No two
  different answers have the same signed bytes, whatever the strings contain, as long as every
  field is shorter than 4 GiB (its length is cast to 32 bits).
\<close>

theorem canonical_bytes_injective:
  assumes "fits_u32 nonce" "fits_u32 public" "fits_u32 name"
    and "fits_u32 nonce'" "fits_u32 public'" "fits_u32 name'"
  shows "canonical_bytes nonce public port name = canonical_bytes nonce' public' port' name' \<longleftrightarrow>
    nonce = nonce' \<and> public = public' \<and> port = port' \<and> name = name'"
  using canonical_bytes_inject [OF assms] by blast

theorem canonical_bytes_injective_witness:
  "canonical_bytes ''ab'' [1] 443 ''c'' \<noteq> canonical_bytes ''a'' [1] 443 ''bc''"
  using canonical_bytes_injective [of "''ab''" "[1]" "''c''" "''a''" "[1]" "''bc''" 443 443] by simp

text \<open>
  Property C20: what discovery returns was signed for this very request. When the key in the
  response belongs to a holder that signs only its own answers, a successful fetch means that the
  holder answered the nonce drawn in this call, with exactly the port and the name returned.
\<close>

theorem fetched_server_answered:
  assumes "fetch_and_verify D W base_url h = (Inr v, h')"
    and "signs_only D (identity_public v) answers"
    and "fits_u32 (vs_name v)"
  shows "(encode_hex (map (host_rng h) [0..<16]), vs_grpc_port v, vs_name v) \<in> answers"
  using assms(1)
  by (auto simp: fetch_and_verify_Inr_iff parse_and_verify_def split: option.splits
      intro!: verified_is_answer [OF _ assms(2) _ assms(3)])

theorem fetched_server_answered_witness:
  "\<exists>v h'. fetch_and_verify sample_discovery sample_http ''http://h:1'' sample_host = (Inr v, h') \<and>
     (encode_hex (map (host_rng sample_host) [0..<16]), vs_grpc_port v, vs_name v)
       \<in> {(sample_nonce, 50051, ''home'')}"
proof -
  obtain h' where run: "fetch_and_verify sample_discovery sample_http ''http://h:1'' sample_host
      = (Inr sample_server, h')"
    using sample_fetch by blast
  have "signs_only sample_discovery (identity_public sample_server) {(sample_nonce, 50051, ''home'')}"
    using sample_signs_only by (simp add: sample_server_def)
  from fetched_server_answered [OF run this] run show ?thesis
    by (intro exI conjI) (assumption, simp add: sample_server_def)
qed

text \<open>
  Property C19: a recorded response cannot be replayed. A body with a response to another challenge
  is refused with \<open>NonceMismatch\<close>, however valid its signature is; two draws of the random source
  give the same nonce only when they give the same 16 bytes.
\<close>

theorem replay_refused:
  assumes "http_get W (discovery_url base_url (encode_hex (map (host_rng h) [0..<16]))) (host_net h)
             = (Some (st, Some body), n)"
    and "is_success st"
    and "response_json_read D body = Some resp"
    and "dr_payload_version resp = PAYLOAD_VERSION"
    and "dr_nonce resp = encode_hex old" and "length old = 16"
    and "old \<noteq> map (host_rng h) [0..<16]"
  shows "fetch_and_verify D W base_url h =
    (Inl NonceMismatch, h\<lparr>host_rng := (\<lambda>i. host_rng h (i + 16)), host_net := n\<rparr>)"
proof -
  have "encode_hex old \<noteq> encode_hex (map (host_rng h) [0..<16])"
    using assms(6,7) hex_text.enc_inject [of old 16 "map (host_rng h) [0..<16]"] by auto
  then have "parse_and_verify D body (encode_hex (map (host_rng h) [0..<16])) = Inl NonceMismatch"
    using assms(3-5) by (simp add: parse_and_verify_def verify_discovery_def)
  then show ?thesis
    using assms(1,2)
    by (auto simp: fetch_and_verify_def random_nonce_def exec_result exec_simps
        simp del: upt_rec_numeral)
qed

theorem replay_refused_witness:
  "fetch_and_verify sample_discovery sample_http ''http://h:1'' \<lparr>host_rng = (\<lambda>i. 1), host_net = 0\<rparr> =
     (Inl NonceMismatch, \<lparr>host_rng = (\<lambda>i. 1), host_net = 1\<rparr>)"
proof -
  have "map of_nat [0..<16] \<noteq> map (\<lambda>i. 1 :: byte) [0..<16]"
    by (simp add: upt_conv_Cons)
  then show ?thesis
    using replay_refused [of sample_http "''http://h:1''" "\<lparr>host_rng = (\<lambda>i. 1), host_net = 0\<rparr>" 200 "[]" 1
        sample_discovery sample_response "map of_nat [0..<16]"]
    by (simp add: sample_http_def sample_discovery_def sample_response_def signed_response_def
        sample_nonce_def is_success_def del: upt_rec_numeral)
qed

text \<open>
  An honest server is always accepted. A response that is signed over the canonical
  bytes with the key it carries verifies against its nonce, and gives back the key, the name and
  the port; hex text and framing lose nothing.
\<close>

lemma honest_response_verifies:
  assumes "length public = 32" and "ed25519_key_ok D public"
    and "\<And>m. length (sign m) = 64" and "\<And>m. ed25519_verify_strict D public m (sign m)"
  shows "verify_discovery D (signed_response sign public nonce name port) nonce =
    Inr \<lparr>identity_public = public, vs_name = name, vs_server_version = ''0.0.1'', vs_grpc_port = port\<rparr>"
  using assms hex_text.dec_enc [of public 32] hex_text.dec_enc [of "sign m" 64 for m]
  by (simp add: verify_discovery_def signed_response_def)

text \<open>
  Property C37: the server version is not authenticated. Replacing it in a response changes
  nothing but the version that verification returns: it is the one field outside the signed bytes.
\<close>

theorem version_not_signed:
  "verify_discovery D (resp\<lparr>dr_server_version := version\<rparr>) nonce =
     map_sum id (\<lambda>v. v\<lparr>vs_server_version := version\<rparr>) (verify_discovery D resp nonce)"
  by (simp add: verify_discovery_def split: option.splits)

end
