(* ===== verification/Storage.thy ===== *)
theory Storage
  imports Crypto
begin

text \<open>
  \<open>src/storage.rs\<close>: the secret store interface, the typed vault over it, the in-memory store and the
  OS keychain.

  The trait \<open>SecretStore\<close> is the record \<open>store_ops\<close>, the implementation's methods acting on the
  state of the backend; what a client of the trait relies on is the locale \<open>secret_store\<close>. The
  crate \<open>keyring\<close> behind the OS keychain is the record \<open>keyring\<close>, \<open>serde_json\<close> on the server
  profile the record \<open>vault_lib\<close>.
\<close>

section \<open>The store interface\<close>

datatype store_error = Backend | Malformed_Value

record 's store_ops =
  store_set :: "string \<Rightarrow> bytes \<Rightarrow> ('s, store_error, unit) exec"
  store_get :: "string \<Rightarrow> ('s, store_error, bytes option) exec"
  store_delete :: "string \<Rightarrow> ('s, store_error, unit) exec"

text \<open>The implementation for a boxed store.\<close>

definition boxed :: "'s store_ops \<Rightarrow> 's store_ops" where
  "boxed S =
     \<lparr>store_set = (\<lambda>key value. store_set S key value),
      store_get = (\<lambda>key. store_get S key),
      store_delete = (\<lambda>key. store_delete S key)\<rparr>"

section \<open>The in-memory store\<close>

type_synonym memory = "string \<rightharpoonup> bytes"

definition memory_new :: memory where
  "memory_new = Map.empty"

definition memory_store :: "memory store_ops" where
  "memory_store =
     \<lparr>store_set = (\<lambda>key value m. (Inr (), m(key \<mapsto> value))),
      store_get = (\<lambda>key m. (Inr (m key), m)),
      store_delete = (\<lambda>key m. (Inr (), m(key := None)))\<rparr>"

section \<open>The OS keychain\<close>

text \<open>
  \<open>keyring::Entry\<close>: a handle for a service and a key, with the secret behind it. Of the errors the
  code distinguishes only \<open>NoEntry\<close>.
\<close>

datatype keyring_error = NoEntry | Other_Keyring_Error

record ('k, 'c) keyring =
  entry_new :: "string \<Rightarrow> string \<Rightarrow> ('k, keyring_error, 'c) exec"
  set_secret :: "'c \<Rightarrow> bytes \<Rightarrow> ('k, keyring_error, unit) exec"
  get_secret :: "'c \<Rightarrow> ('k, keyring_error, bytes) exec"
  delete_credential :: "'c \<Rightarrow> ('k, keyring_error, unit) exec"

record os_keychain =
  service :: string

definition os_keychain_new :: "string \<Rightarrow> os_keychain" where
  "os_keychain_new svc = \<lparr>service = svc\<rparr>"

definition keychain_entry ::
  "('k, 'c) keyring \<Rightarrow> os_keychain \<Rightarrow> string \<Rightarrow> ('k, store_error, 'c) exec" where
  "keychain_entry K kc key = map_error (\<lambda>_. Backend) (entry_new K (service kc) key)"

definition keychain_set ::
  "('k, 'c) keyring \<Rightarrow> os_keychain \<Rightarrow> string \<Rightarrow> bytes \<Rightarrow> ('k, store_error, unit) exec" where
  "keychain_set K kc key value =
     and_then (keychain_entry K kc key) (\<lambda>entry.
     map_error (\<lambda>_. Backend) (set_secret K entry value))"

definition keychain_get ::
  "('k, 'c) keyring \<Rightarrow> os_keychain \<Rightarrow> string \<Rightarrow> ('k, store_error, bytes option) exec" where
  "keychain_get K kc key =
     and_then (keychain_entry K kc key) (\<lambda>entry.
     and_then (attempt (get_secret K entry)) (\<lambda>r.
       (case r of
          Inr value \<Rightarrow> ret (Some value)
        | Inl NoEntry \<Rightarrow> ret None
        | Inl _ \<Rightarrow> throw Backend)))"

definition keychain_delete ::
  "('k, 'c) keyring \<Rightarrow> os_keychain \<Rightarrow> string \<Rightarrow> ('k, store_error, unit) exec" where
  "keychain_delete K kc key =
     and_then (keychain_entry K kc key) (\<lambda>entry.
     and_then (attempt (delete_credential K entry)) (\<lambda>r.
       (case r of
          Inr _ \<Rightarrow> ret ()
        | Inl NoEntry \<Rightarrow> ret ()
        | Inl _ \<Rightarrow> throw Backend)))"

definition keychain_store :: "('k, 'c) keyring \<Rightarrow> os_keychain \<Rightarrow> 'k store_ops" where
  "keychain_store K kc =
     \<lparr>store_set = keychain_set K kc,
      store_get = keychain_get K kc,
      store_delete = keychain_delete K kc\<rparr>"

section \<open>The vault\<close>

definition MASTER_KEY :: string where "MASTER_KEY = ''master_key''"
definition SECRET_KEY :: string where "SECRET_KEY = ''secret_key''"
definition DEVICE_SECRET :: string where "DEVICE_SECRET = ''device_secret''"
definition SESSION_TOKEN :: string where "SESSION_TOKEN = ''session_token''"
definition SERVER_PROFILE :: string where "SERVER_PROFILE = ''server_profile''"

record server_profile =
  sp_endpoints :: "string list"
  sp_identity_public :: bytes
  sp_user_id :: string

record vault_lib =
  profile_json_write :: "server_profile \<Rightarrow> bytes option"
  profile_json_read :: "bytes \<Rightarrow> server_profile option"

text \<open>The byte sequences \<open>String::from_utf8\<close> accepts (table 3-7 of the Unicode standard).\<close>

definition is_cont :: "byte \<Rightarrow> bool" where
  "is_cont b \<longleftrightarrow> 0x80 \<le> b \<and> b \<le> 0xBF"

definition second_ok :: "byte \<Rightarrow> byte \<Rightarrow> bool" where
  "second_ok lead b \<longleftrightarrow>
     (if lead = 0xE0 then 0xA0 \<le> b \<and> b \<le> 0xBF
      else if lead = 0xED then 0x80 \<le> b \<and> b \<le> 0x9F
      else if lead = 0xF0 then 0x90 \<le> b \<and> b \<le> 0xBF
      else if lead = 0xF4 then 0x80 \<le> b \<and> b \<le> 0x8F
      else is_cont b)"

fun utf8_valid :: "bytes \<Rightarrow> bool" where
  "utf8_valid [] = True"
| "utf8_valid (a # bs) =
     (if a < 0x80 then utf8_valid bs
      else if 0xC2 \<le> a \<and> a \<le> 0xDF then
        (case bs of b # rest \<Rightarrow> is_cont b \<and> utf8_valid rest | _ \<Rightarrow> False)
      else if 0xE0 \<le> a \<and> a \<le> 0xEF then
        (case bs of b # c # rest \<Rightarrow> second_ok a b \<and> is_cont c \<and> utf8_valid rest | _ \<Rightarrow> False)
      else if 0xF0 \<le> a \<and> a \<le> 0xF4 then
        (case bs of b # c # d # rest \<Rightarrow> second_ok a b \<and> is_cont c \<and> is_cont d \<and> utf8_valid rest
         | _ \<Rightarrow> False)
      else False)"

definition string_from_utf8 :: "bytes \<Rightarrow> string option" where
  "string_from_utf8 bs = (if utf8_valid bs then Some (bytes_str bs) else None)"

text \<open>The conversion of a byte vector to \<open>[u8; 32]\<close>.\<close>

definition array32 :: "bytes \<Rightarrow> bytes option" where
  "array32 bs = (if length bs = 32 then Some bs else None)"

text \<open>The match every getter makes on what the store returns.\<close>

definition decode_stored :: "(bytes \<Rightarrow> 'a option) \<Rightarrow> bytes option \<Rightarrow> ('s, store_error, 'a option) exec" where
  "decode_stored decode stored =
     (case stored of
        Some bs \<Rightarrow> and_then (lift_result (ok_or (decode bs) Malformed_Value)) (\<lambda>x. ret (Some x))
      | None \<Rightarrow> ret None)"

definition vault_set_session_token :: "'s store_ops \<Rightarrow> string \<Rightarrow> ('s, store_error, unit) exec" where
  "vault_set_session_token S token = store_set S SESSION_TOKEN (str_bytes token)"

definition vault_session_token :: "'s store_ops \<Rightarrow> ('s, store_error, string option) exec" where
  "vault_session_token S = and_then (store_get S SESSION_TOKEN) (decode_stored string_from_utf8)"

definition vault_set_master_key :: "'s store_ops \<Rightarrow> master_key \<Rightarrow> ('s, store_error, unit) exec" where
  "vault_set_master_key S key = store_set S MASTER_KEY (mk_as_bytes key)"

definition vault_master_key :: "'s store_ops \<Rightarrow> ('s, store_error, master_key option) exec" where
  "vault_master_key S =
     and_then (store_get S MASTER_KEY) (decode_stored (\<lambda>bs. map_option mk_from_bytes (array32 bs)))"

definition vault_set_secret_key :: "'s store_ops \<Rightarrow> secret_key \<Rightarrow> ('s, store_error, unit) exec" where
  "vault_set_secret_key S sk = store_set S SECRET_KEY (sk_as_bytes sk)"

definition vault_secret_key :: "'s store_ops \<Rightarrow> ('s, store_error, secret_key option) exec" where
  "vault_secret_key S =
     and_then (store_get S SECRET_KEY) (decode_stored (\<lambda>bs. ok_of (sk_from_bytes bs)))"

definition vault_set_device_secret :: "'s store_ops \<Rightarrow> bytes \<Rightarrow> ('s, store_error, unit) exec" where
  "vault_set_device_secret S secret = store_set S DEVICE_SECRET secret"

definition vault_device_secret :: "'s store_ops \<Rightarrow> ('s, store_error, bytes option) exec" where
  "vault_device_secret S = and_then (store_get S DEVICE_SECRET) (decode_stored array32)"

definition vault_set_server_profile ::
  "vault_lib \<Rightarrow> 's store_ops \<Rightarrow> server_profile \<Rightarrow> ('s, store_error, unit) exec" where
  "vault_set_server_profile J S profile =
     and_then (lift_result (ok_or (profile_json_write J profile) Malformed_Value)) (\<lambda>json.
     store_set S SERVER_PROFILE json)"

definition vault_server_profile ::
  "vault_lib \<Rightarrow> 's store_ops \<Rightarrow> ('s, store_error, server_profile option) exec" where
  "vault_server_profile J S = and_then (store_get S SERVER_PROFILE) (decode_stored (profile_json_read J))"

text \<open>The loop of \<open>clear\<close> stops at the first key that cannot be deleted.\<close>

fun delete_all :: "'s store_ops \<Rightarrow> string list \<Rightarrow> ('s, store_error, unit) exec" where
  "delete_all S [] = ret ()"
| "delete_all S (key # keys) = and_then (store_delete S key) (\<lambda>_. delete_all S keys)"

definition vault_clear :: "'s store_ops \<Rightarrow> ('s, store_error, unit) exec" where
  "vault_clear S = delete_all S [MASTER_KEY, SECRET_KEY, DEVICE_SECRET, SESSION_TOKEN, SERVER_PROFILE]"

definition vault_clear_session :: "'s store_ops \<Rightarrow> ('s, store_error, unit) exec" where
  "vault_clear_session S =
     and_then (store_delete S SESSION_TOKEN) (\<lambda>_.
     and_then (store_delete S MASTER_KEY) (\<lambda>_. ret ()))"

section \<open>What a client of the store relies on\<close>

text \<open>
  \<open>view s\<close> is the contents of the backend state. A failed operation may leave its own entry in any
  condition, but no operation touches another entry.
\<close>

locale secret_store =
  fixes S :: "'s store_ops"
    and view :: "'s \<Rightarrow> string \<Rightarrow> bytes option"
  assumes set_ok: "store_set S k v s = (Inr (), s') \<Longrightarrow> view s' k = Some v"
    and set_other: "store_set S k v s = (r, s') \<Longrightarrow> k' \<noteq> k \<Longrightarrow> view s' k' = view s k'"
    and get_ok: "store_get S k s = (Inr w, s') \<Longrightarrow> w = view s k"
    and get_keeps: "store_get S k s = (q, s') \<Longrightarrow> view s' = view s"
    and delete_ok: "store_delete S k s = (Inr (), s') \<Longrightarrow> view s' k = None"
    and delete_other: "store_delete S k s = (r, s') \<Longrightarrow> k' \<noteq> k \<Longrightarrow> view s' k' = view s k'"
begin

lemma delete_all_other:
  "delete_all S ks s = (r, s') \<Longrightarrow> k \<notin> set ks \<Longrightarrow> view s' k = view s k"
proof (induction ks arbitrary: s)
  case Nil
  then show ?case by (simp add: ret_eq)
next
  case (Cons key ks)
  obtain r1 s1 where d: "store_delete S key s = (r1, s1)" by (cases "store_delete S key s")
  have "view s1 k = view s k" using delete_other [OF d] Cons.prems by simp
  with Cons d show ?case by (cases r1) (auto simp: and_then_def)
qed

lemma delete_all_gone:
  "delete_all S ks s = (Inr (), s') \<Longrightarrow> k \<in> set ks \<Longrightarrow> view s' k = None"
proof (induction ks arbitrary: s)
  case Nil
  then show ?case by simp
next
  case (Cons key ks)
  obtain s1 where d: "store_delete S key s = (Inr (), s1)" and rest: "delete_all S ks s1 = (Inr (), s')"
    using Cons.prems by (auto simp: and_then_Inr_iff)
  show ?case
  proof (cases "k \<in> set ks")
    case True
    with Cons.IH rest show ?thesis by blast
  next
    case False
    with Cons.prems d delete_ok delete_all_other [OF rest] show ?thesis by simp
  qed
qed

lemma read_entry_keeps:
  "and_then (store_get S k) (decode_stored dec) s = (q, s') \<Longrightarrow> view s' = view s"
  by (auto simp: and_then_def decode_stored_def exec_simps ok_or_def split: prod.splits sum.splits option.splits
      dest: get_keeps)

lemma read_entry_value:
  "and_then (store_get S k) (decode_stored dec) s = (Inr x, s') \<Longrightarrow>
     (case view s k of None \<Rightarrow> x = None | Some bs \<Rightarrow> x = dec bs \<and> x \<noteq> None)"
  by (auto simp: and_then_Inr_iff decode_stored_def exec_simps split: option.splits dest!: get_ok)

end

text \<open>A store where a failed write or deletion leaves the entry as it was.\<close>

locale atomic_store = secret_store +
  assumes set_failed: "store_set S k v s = (Inl e, s') \<Longrightarrow> view s' k = view s k"
    and delete_failed: "store_delete S k s = (Inl e, s') \<Longrightarrow> view s' k = view s k"
begin

lemma delete_all_entry:
  "delete_all S ks s = (r, s') \<Longrightarrow> view s' k = view s k \<or> view s' k = None"
proof (induction ks arbitrary: s)
  case Nil
  then show ?case by (simp add: ret_eq)
next
  case (Cons key ks)
  obtain r1 s1 where d: "store_delete S key s = (r1, s1)" by (cases "store_delete S key s")
  have one: "view s1 k = view s k \<or> view s1 k = None"
    using delete_other [OF d, of k] delete_ok delete_failed d by (cases r1; cases "k = key") auto
  show ?case
  proof (cases r1)
    case (Inl e)
    with one d Cons.prems show ?thesis by (simp add: and_then_def)
  next
    case (Inr u)
    with d Cons.prems have "delete_all S ks s1 = (r, s')" by (simp add: and_then_def)
    with Cons.IH one show ?thesis by metis
  qed
qed

end

text \<open>A store whose backend does not fail.\<close>

locale reliable_store = secret_store +
  assumes set_total: "fst (store_set S k v s) = Inr ()"
    and get_total: "\<exists>w. fst (store_get S k s) = Inr w"
    and delete_total: "fst (store_delete S k s) = Inr ()"
begin

lemma set_run: "\<exists>s'. store_set S k v s = (Inr (), s')"
  using set_total by (metis prod.collapse)

lemma get_run: "\<exists>s'. store_get S k s = (Inr (view s k), s') \<and> view s' = view s"
  using get_total [of k s] get_ok get_keeps by (metis prod.collapse)

lemma delete_run: "\<exists>s'. store_delete S k s = (Inr (), s')"
  using delete_total by (metis prod.collapse)

lemma delete_all_run: "\<exists>s'. delete_all S ks s = (Inr (), s')"
proof (induction ks arbitrary: s)
  case Nil
  then show ?case by (simp add: ret_eq)
next
  case (Cons k ks)
  then show ?case using delete_run [of k s] by (auto simp: and_then_Inr_iff)
qed

lemma read_entry_absent:
  "view s k = None \<Longrightarrow> fst (and_then (store_get S k) (decode_stored dec) s) = Inr None"
  using get_run [of k s] by (auto simp: and_then_def decode_stored_def exec_simps)

lemma read_entry_malformed:
  "view s k = Some bs \<Longrightarrow> dec bs = None \<Longrightarrow>
     fst (and_then (store_get S k) (decode_stored dec) s) = Inl Malformed_Value"
  using get_run [of k s] by (auto simp: and_then_def decode_stored_def exec_simps)

lemma read_entry_present:
  "view s k = Some bs \<Longrightarrow> dec bs = Some x \<Longrightarrow>
     fst (and_then (store_get S k) (decode_stored dec) s) = Inr (Some x)"
  using get_run [of k s] by (auto simp: and_then_def decode_stored_def exec_simps)

end

interpretation memory: reliable_store memory_store "\<lambda>m. m"
  by unfold_locales (auto simp: memory_store_def)

interpretation memory_atomic: atomic_store memory_store "\<lambda>m. m"
  by unfold_locales (auto simp: memory_store_def)

text \<open>Boxing keeps the contract.\<close>

lemma boxed_same: "boxed S = S"
  by (simp add: boxed_def)

interpretation boxed_memory: reliable_store "boxed memory_store" "\<lambda>m. m"
  unfolding boxed_same by (rule memory.reliable_store_axioms)

section \<open>Typed entries\<close>

text \<open>
  A pair of a setter and a getter of the vault: it stores one value under its own key, in an
  encoding that can be read back.
\<close>

locale vault_entry = secret_store S view + codec wf enc dec
  for S :: "'s store_ops" and view and wf :: "'a \<Rightarrow> bool" and enc :: "'a \<Rightarrow> bytes" and dec +
  fixes key :: string
    and put :: "'a \<Rightarrow> ('s, store_error, unit) exec"
    and fetch :: "('s, store_error, 'a option) exec"
  assumes put_ok: "put x s = (Inr (), s') \<Longrightarrow> store_set S key (enc x) s = (Inr (), s')"
    and put_other: "put x s = (r, s') \<Longrightarrow> k \<noteq> key \<Longrightarrow> view s' k = view s k"
    and fetch_eq: "fetch = and_then (store_get S key) (decode_stored dec)"
begin

lemma put_view: "put x s = (Inr (), s') \<Longrightarrow> view s' key = Some (enc x)"
  by (rule set_ok) (rule put_ok)

lemma fetch_keeps: "fetch s = (q, s') \<Longrightarrow> view s' = view s"
  unfolding fetch_eq by (rule read_entry_keeps)

lemma fetch_value: "fetch s = (Inr q, s') \<Longrightarrow> (case view s key of None \<Rightarrow> q = None | Some bs \<Rightarrow> q = dec bs \<and> q \<noteq> None)"
  unfolding fetch_eq by (rule read_entry_value)

text \<open>A stored value is fetched unless the backend fails, and then with the backend's error.\<close>

lemma fetch_stored:
  assumes "wf x" and "view s key = Some (enc x)"
  shows "fst (fetch s) = map_sum id (\<lambda>_. Some x) (fst (store_get S key s))"
proof -
  obtain q s' where g: "store_get S key s = (q, s')" by (cases "store_get S key s")
  show ?thesis
  proof (cases q)
    case (Inr w)
    then have "w = Some (enc x)" using get_ok g assms(2) by simp
    with g Inr dec_enc [OF assms(1)] show ?thesis
      by (simp add: fetch_eq and_then_def decode_stored_def exec_simps)
  qed (use g in \<open>simp add: fetch_eq and_then_def\<close>)
qed

lemma fetch_absent: "view s key = None \<Longrightarrow> ok_of (fst (fetch s)) \<in> {None, Some None}"
proof -
  assume x: "view s key = None"
  obtain q s' where run: "fetch s = (q, s')" by (cases "fetch s")
  then show "ok_of (fst (fetch s)) \<in> {None, Some None}"
    using x fetch_value [of s _ s'] by (cases q) auto
qed

end

definition profile_json_sound :: "vault_lib \<Rightarrow> bool" where
  "profile_json_sound J \<longleftrightarrow> (\<forall>p b. profile_json_write J p = Some b \<longrightarrow> profile_json_read J b = Some p)"

definition wf_mk :: "master_key \<Rightarrow> bool" where
  "wf_mk mk \<longleftrightarrow> length (mk_as_bytes mk) = 32"

lemma mk_from_as [simp]: "mk_from_bytes (mk_as_bytes mk) = mk"
  by (cases mk) (simp add: mk_from_bytes_def)

interpretation mk_raw: codec wf_mk mk_as_bytes "\<lambda>bs. map_option mk_from_bytes (array32 bs)"
  by unfold_locales (simp add: wf_mk_def array32_def)

interpretation utf8: codec "\<lambda>s. utf8_valid (str_bytes s)" str_bytes string_from_utf8
  by unfold_locales (simp add: string_from_utf8_def)

interpretation raw32: codec "\<lambda>bs. length bs = 32" "\<lambda>bs. bs" array32
  by unfold_locales (simp add: array32_def)

interpretation profile_json: codec "\<lambda>p. profile_json_sound J \<and> profile_json_write J p \<noteq> None"
  "\<lambda>p. the (profile_json_write J p)" "profile_json_read J" for J
  by unfold_locales (auto simp: profile_json_sound_def)

lemma master_entry:
  "secret_store S view \<Longrightarrow> vault_entry S view wf_mk mk_as_bytes (\<lambda>bs. map_option mk_from_bytes (array32 bs))
     MASTER_KEY (vault_set_master_key S) (vault_master_key S)"
  by (intro vault_entry.intro vault_entry_axioms.intro mk_raw.codec_axioms)
     (auto simp: vault_set_master_key_def vault_master_key_def dest: secret_store.set_other)

lemma secret_entry:
  "secret_store S view \<Longrightarrow> vault_entry S view wf_sk sk_as_bytes (\<lambda>bs. ok_of (sk_from_bytes bs))
     SECRET_KEY (vault_set_secret_key S) (vault_secret_key S)"
  by (intro vault_entry.intro vault_entry_axioms.intro sk_raw.codec_axioms)
     (auto simp: vault_set_secret_key_def vault_secret_key_def dest: secret_store.set_other)

lemma device_entry:
  "secret_store S view \<Longrightarrow> vault_entry S view (\<lambda>bs. length bs = 32) (\<lambda>bs. bs) array32
     DEVICE_SECRET (vault_set_device_secret S) (vault_device_secret S)"
  by (intro vault_entry.intro vault_entry_axioms.intro raw32.codec_axioms)
     (auto simp: vault_set_device_secret_def vault_device_secret_def dest: secret_store.set_other)

lemma token_entry:
  "secret_store S view \<Longrightarrow> vault_entry S view (\<lambda>s. utf8_valid (str_bytes s)) str_bytes string_from_utf8
     SESSION_TOKEN (vault_set_session_token S) (vault_session_token S)"
  by (intro vault_entry.intro vault_entry_axioms.intro utf8.codec_axioms)
     (auto simp: vault_set_session_token_def vault_session_token_def dest: secret_store.set_other)

lemma profile_entry:
  "secret_store S view \<Longrightarrow> vault_entry S view (\<lambda>p. profile_json_sound J \<and> profile_json_write J p \<noteq> None)
     (\<lambda>p. the (profile_json_write J p)) (profile_json_read J)
     SERVER_PROFILE (vault_set_server_profile J S) (vault_server_profile J S)"
  by (intro vault_entry.intro vault_entry_axioms.intro profile_json.codec_axioms)
     (auto simp: vault_set_server_profile_def vault_server_profile_def exec_result lift_result_eq
       and_then_def ok_or_def split: option.splits dest: secret_store.set_other)

interpretation mem_master: vault_entry memory_store "\<lambda>m. m" wf_mk mk_as_bytes
  "\<lambda>bs. map_option mk_from_bytes (array32 bs)" MASTER_KEY "vault_set_master_key memory_store"
  "vault_master_key memory_store"
  by (rule master_entry) (rule memory.secret_store_axioms)

lemmas entry_names = MASTER_KEY_def SECRET_KEY_def DEVICE_SECRET_def SESSION_TOKEN_def SERVER_PROFILE_def

section \<open>The OS keychain implements the contract\<close>

text \<open>
  What \<open>keyring\<close> documents: a handle denotes its service and key, the secret set is the secret
  returned, \<open>NoEntry\<close> means that there is none, and other entries are not affected.
\<close>

definition keyring_sound ::
  "('k, 'c) keyring \<Rightarrow> ('c \<Rightarrow> string \<times> string) \<Rightarrow> ('k \<Rightarrow> string \<times> string \<Rightarrow> bytes option) \<Rightarrow> bool" where
  "keyring_sound K den content \<longleftrightarrow>
     (\<forall>svc key k r k'. entry_new K svc key k = (r, k') \<longrightarrow>
        content k' = content k \<and> (\<forall>c. r = Inr c \<longrightarrow> den c = (svc, key))) \<and>
     (\<forall>c v k r k'. set_secret K c v k = (r, k') \<longrightarrow>
        (r = Inr () \<longrightarrow> content k' (den c) = Some v) \<and> (\<forall>p. p \<noteq> den c \<longrightarrow> content k' p = content k p)) \<and>
     (\<forall>c k r k'. get_secret K c k = (r, k') \<longrightarrow> content k' = content k \<and>
        (\<forall>v. r = Inr v \<longrightarrow> content k (den c) = Some v) \<and> (r = Inl NoEntry \<longrightarrow> content k (den c) = None)) \<and>
     (\<forall>c k r k'. delete_credential K c k = (r, k') \<longrightarrow>
        (r = Inr () \<or> r = Inl NoEntry \<longrightarrow> content k' (den c) = None) \<and>
        (\<forall>p. p \<noteq> den c \<longrightarrow> content k' p = content k p))"

lemma keyring_entryD:
  "keyring_sound K den content \<Longrightarrow> entry_new K svc key k = (r, k') \<Longrightarrow>
     content k' = content k \<and> (\<forall>c. r = Inr c \<longrightarrow> den c = (svc, key))"
  unfolding keyring_sound_def by (drule conjunct1) blast

lemma keyring_setD:
  "keyring_sound K den content \<Longrightarrow> set_secret K c v k = (r, k') \<Longrightarrow>
     (r = Inr () \<longrightarrow> content k' (den c) = Some v) \<and> (\<forall>p. p \<noteq> den c \<longrightarrow> content k' p = content k p)"
  unfolding keyring_sound_def by (drule conjunct2, drule conjunct1) blast

lemma keyring_getD:
  "keyring_sound K den content \<Longrightarrow> get_secret K c k = (r, k') \<Longrightarrow> content k' = content k \<and>
     (\<forall>v. r = Inr v \<longrightarrow> content k (den c) = Some v) \<and> (r = Inl NoEntry \<longrightarrow> content k (den c) = None)"
  unfolding keyring_sound_def by (drule conjunct2, drule conjunct2, drule conjunct1) blast

lemma keyring_deleteD:
  "keyring_sound K den content \<Longrightarrow> delete_credential K c k = (r, k') \<Longrightarrow>
     (r = Inr () \<or> r = Inl NoEntry \<longrightarrow> content k' (den c) = None) \<and>
     (\<forall>p. p \<noteq> den c \<longrightarrow> content k' p = content k p)"
  unfolding keyring_sound_def by (drule conjunct2, drule conjunct2, drule conjunct2) blast

lemma keychain_set_eq:
  "keychain_set K kc key v k =
     (case entry_new K (service kc) key k of
        (Inl e, k1) \<Rightarrow> (Inl Backend, k1)
      | (Inr c, k1) \<Rightarrow> (case set_secret K c v k1 of (r, k2) \<Rightarrow> (map_sum (\<lambda>_. Backend) id r, k2)))"
  by (simp add: keychain_set_def keychain_entry_def map_error_def and_then_def split: prod.split sum.split)

lemma keychain_get_eq:
  "keychain_get K kc key k =
     (case entry_new K (service kc) key k of
        (Inl e, k1) \<Rightarrow> (Inl Backend, k1)
      | (Inr c, k1) \<Rightarrow> (case get_secret K c k1 of
           (Inr v, k2) \<Rightarrow> (Inr (Some v), k2)
         | (Inl NoEntry, k2) \<Rightarrow> (Inr None, k2)
         | (Inl Other_Keyring_Error, k2) \<Rightarrow> (Inl Backend, k2)))"
  by (simp add: keychain_get_def keychain_entry_def map_error_def and_then_def attempt_def exec_simps
      split: prod.split sum.split keyring_error.split)

lemma keychain_delete_eq:
  "keychain_delete K kc key k =
     (case entry_new K (service kc) key k of
        (Inl e, k1) \<Rightarrow> (Inl Backend, k1)
      | (Inr c, k1) \<Rightarrow> (case delete_credential K c k1 of
           (Inl Other_Keyring_Error, k2) \<Rightarrow> (Inl Backend, k2)
         | (_, k2) \<Rightarrow> (Inr (), k2)))"
  by (simp add: keychain_delete_def keychain_entry_def map_error_def and_then_def attempt_def exec_simps
      split: prod.split sum.split keyring_error.split)

lemma keychain_set_run:
  assumes K: "keyring_sound K den content" and run: "keychain_set K kc key v k = (r, k')"
  shows "(r = Inr () \<longrightarrow> content k' (service kc, key) = Some v) \<and>
    (\<forall>p. p \<noteq> (service kc, key) \<longrightarrow> content k' p = content k p)"
proof -
  obtain q k1 where e: "entry_new K (service kc) key k = (q, k1)" by (cases "entry_new K (service kc) key k")
  note c1 = keyring_entryD [OF K e]
  show ?thesis
  proof (cases q)
    case (Inl err)
    then show ?thesis using run e c1 by (auto simp: keychain_set_eq)
  next
    case (Inr c)
    obtain q2 k2 where g: "set_secret K c v k1 = (q2, k2)" by (cases "set_secret K c v k1")
    have "r = map_sum (\<lambda>_. Backend) id q2" "k' = k2" using run e g Inr by (simp_all add: keychain_set_eq)
    then show ?thesis using keyring_setD [OF K g] c1 Inr by (cases q2) auto
  qed
qed

lemma keychain_get_run:
  assumes K: "keyring_sound K den content" and run: "keychain_get K kc key k = (r, k')"
  shows "content k' = content k \<and> (\<forall>v. r = Inr v \<longrightarrow> v = content k (service kc, key))"
proof -
  obtain q k1 where e: "entry_new K (service kc) key k = (q, k1)" by (cases "entry_new K (service kc) key k")
  note c1 = keyring_entryD [OF K e]
  show ?thesis
  proof (cases q)
    case (Inl err)
    then show ?thesis using run e c1 by (auto simp: keychain_get_eq)
  next
    case (Inr c)
    obtain q2 k2 where g: "get_secret K c k1 = (q2, k2)" by (cases "get_secret K c k1")
    show ?thesis
      using run e g c1 Inr keyring_getD [OF K g]
      by (cases q2; cases "projl q2") (simp_all add: keychain_get_eq, auto)
  qed
qed

lemma keychain_delete_run:
  assumes K: "keyring_sound K den content" and run: "keychain_delete K kc key k = (r, k')"
  shows "(r = Inr () \<longrightarrow> content k' (service kc, key) = None) \<and>
    (\<forall>p. p \<noteq> (service kc, key) \<longrightarrow> content k' p = content k p)"
proof -
  obtain q k1 where e: "entry_new K (service kc) key k = (q, k1)" by (cases "entry_new K (service kc) key k")
  note c1 = keyring_entryD [OF K e]
  show ?thesis
  proof (cases q)
    case (Inl err)
    then show ?thesis using run e c1 by (auto simp: keychain_delete_eq)
  next
    case (Inr c)
    obtain q2 k2 where g: "delete_credential K c k1 = (q2, k2)" by (cases "delete_credential K c k1")
    show ?thesis
      using run e g c1 Inr keyring_deleteD [OF K g]
      by (cases q2; cases "projl q2") (simp_all add: keychain_delete_eq, auto)
  qed
qed

lemma keychain_is_secret_store:
  assumes "keyring_sound K den content"
  shows "secret_store (keychain_store K kc) (\<lambda>k key. content k (service kc, key))"
  using keychain_set_run [OF assms] keychain_get_run [OF assms] keychain_delete_run [OF assms]
  by unfold_locales (auto simp: keychain_store_def)

text \<open>A keyring that works: its operations fail at most for want of an entry.\<close>

definition keyring_total :: "('k, 'c) keyring \<Rightarrow> bool" where
  "keyring_total K \<longleftrightarrow>
     (\<forall>svc key k. \<exists>c k'. entry_new K svc key k = (Inr c, k')) \<and>
     (\<forall>c v k. \<exists>k'. set_secret K c v k = (Inr (), k')) \<and>
     (\<forall>c k. fst (get_secret K c k) \<noteq> Inl Other_Keyring_Error) \<and>
     (\<forall>c k. fst (delete_credential K c k) \<noteq> Inl Other_Keyring_Error)"

lemma keyring_entry_total: "keyring_total K \<Longrightarrow> \<exists>c k'. entry_new K svc key k = (Inr c, k')"
  and keyring_set_total: "keyring_total K \<Longrightarrow> \<exists>k'. set_secret K c v k = (Inr (), k')"
  and keyring_get_total: "keyring_total K \<Longrightarrow> get_secret K c k = (q, k') \<Longrightarrow> q \<noteq> Inl Other_Keyring_Error"
  and keyring_delete_total: "keyring_total K \<Longrightarrow> delete_credential K c k = (q', k') \<Longrightarrow> q' \<noteq> Inl Other_Keyring_Error"
  unfolding keyring_total_def by (metis fst_conv)+

lemma keychain_reliable:
  assumes "keyring_sound K den content" and total: "keyring_total K"
  shows "reliable_store (keychain_store K kc) (\<lambda>k key. content k (service kc, key))"
proof -
  note entry = keyring_entry_total [OF total]
  have get: "\<exists>w. fst (keychain_get K kc key k) = Inr w" for key k
  proof -
    obtain c k1 where e: "entry_new K (service kc) key k = (Inr c, k1)" using entry by blast
    obtain q k2 where g: "get_secret K c k1 = (q, k2)" by (cases "get_secret K c k1")
    from keyring_get_total [OF total g] e g show ?thesis
      by (cases q; cases "projl q") (simp_all add: keychain_get_eq)
  qed
  have delete: "fst (keychain_delete K kc key k) = Inr ()" for key k
  proof -
    obtain c k1 where e: "entry_new K (service kc) key k = (Inr c, k1)" using entry by blast
    obtain q k2 where g: "delete_credential K c k1 = (q, k2)" by (cases "delete_credential K c k1")
    from keyring_delete_total [OF total g] e g show ?thesis
      by (cases q; cases "projl q") (simp_all add: keychain_delete_eq)
  qed
  have set: "fst (keychain_set K kc key v k) = Inr ()" for key v k
  proof -
    obtain c k1 where e: "entry_new K (service kc) key k = (Inr c, k1)" using entry by blast
    obtain k2 where "set_secret K c v k1 = (Inr (), k2)" using keyring_set_total [OF total] by blast
    with e show ?thesis by (simp add: keychain_set_eq)
  qed
  show ?thesis
    using get delete set
    by (intro reliable_store.intro reliable_store_axioms.intro keychain_is_secret_store [OF assms(1)])
       (simp_all add: keychain_store_def)
qed

text \<open>
  A keyring whose calls either do what they say or nothing. The crate does not document it; it is
  what the theorems about stores with failing writes assume of the platform's credential store.
\<close>

definition keyring_atomic ::
  "('k, 'c) keyring \<Rightarrow> ('c \<Rightarrow> string \<times> string) \<Rightarrow> ('k \<Rightarrow> string \<times> string \<Rightarrow> bytes option) \<Rightarrow> bool" where
  "keyring_atomic K den content \<longleftrightarrow>
     (\<forall>c v k e k'. set_secret K c v k = (Inl e, k') \<longrightarrow> content k' (den c) = content k (den c)) \<and>
     (\<forall>c k e k'. delete_credential K c k = (Inl e, k') \<longrightarrow> content k' (den c) = content k (den c))"

lemma keychain_atomic:
  assumes sound: "keyring_sound K den content" and atomic: "keyring_atomic K den content"
  shows "atomic_store (keychain_store K kc) (\<lambda>k key. content k (service kc, key))"
proof -
  have set: "content k' (service kc, key) = content k (service kc, key)"
    if run: "keychain_set K kc key v k = (Inl e, k')" for key v k e k'
  proof -
    obtain q k1 where n: "entry_new K (service kc) key k = (q, k1)" by (cases "entry_new K (service kc) key k")
    show ?thesis
    proof (cases q)
      case (Inr c)
      obtain q2 k2 where g: "set_secret K c v k1 = (q2, k2)" by (cases "set_secret K c v k1")
      with run n Inr obtain e2 where "q2 = Inl e2" "k' = k2" by (cases q2) (auto simp: keychain_set_eq)
      then have "content k' (den c) = content k1 (den c)" using atomic g by (auto simp: keyring_atomic_def)
      with keyring_entryD [OF sound n] Inr show ?thesis by simp
    qed (use run n keyring_entryD [OF sound n] in \<open>simp add: keychain_set_eq\<close>)
  qed
  have delete: "content k' (service kc, key) = content k (service kc, key)"
    if run: "keychain_delete K kc key k = (Inl e, k')" for key k e k'
  proof -
    obtain q k1 where n: "entry_new K (service kc) key k = (q, k1)" by (cases "entry_new K (service kc) key k")
    show ?thesis
    proof (cases q)
      case (Inr c)
      obtain q2 k2 where g: "delete_credential K c k1 = (q2, k2)" by (cases "delete_credential K c k1")
      with run n Inr obtain e2 where "q2 = Inl e2" "k' = k2"
        by (cases q2) (auto simp: keychain_delete_eq split: keyring_error.split_asm)
      then have "content k' (den c) = content k1 (den c)" using atomic g by (auto simp: keyring_atomic_def)
      with keyring_entryD [OF sound n] Inr show ?thesis by simp
    qed (use run n keyring_entryD [OF sound n] in \<open>simp add: keychain_delete_eq\<close>)
  qed
  show ?thesis
    using set delete
    by (intro atomic_store.intro atomic_store_axioms.intro keychain_is_secret_store [OF sound])
       (auto simp: keychain_store_def dest: set delete)
qed

section \<open>Wiping\<close>

definition VAULT_KEYS :: "string list" where
  "VAULT_KEYS = [MASTER_KEY, SECRET_KEY, DEVICE_SECRET, SESSION_TOKEN, SERVER_PROFILE]"

lemma vault_clear_keys: "vault_clear S = delete_all S VAULT_KEYS"
  by (simp only: vault_clear_def VAULT_KEYS_def)

lemma vault_clear_session_keys: "vault_clear_session S = delete_all S [SESSION_TOKEN, MASTER_KEY]"
  by (simp add: vault_clear_session_def fun_eq_iff)

context secret_store begin

text \<open>A wipe that fails has deleted the keys before the failing one and left those after it.\<close>

lemma delete_all_failed:
  assumes "delete_all S ks s = (Inl e, s')" and "distinct ks"
  obtains del key rest where "ks = del @ key # rest"
    and "\<And>k. k \<in> set del \<Longrightarrow> view s' k = None" and "\<And>k. k \<in> set rest \<Longrightarrow> view s' k = view s k"
  using assms
proof (induction ks arbitrary: s thesis)
  case Nil
  then show ?case by (simp add: ret_eq)
next
  case (Cons key ks)
  obtain r1 s1 where d: "store_delete S key s = (r1, s1)" by (cases "store_delete S key s")
  show ?case
  proof (cases r1)
    case (Inl e1)
    with d Cons.prems(2) have "s' = s1" by (simp add: and_then_def)
    have "view s' k = view s k" if "k \<in> set ks" for k
      using \<open>s' = s1\<close> delete_other [OF d, of k] that Cons.prems(3) by auto
    then show ?thesis by (intro Cons.prems(1) [of "[]" key ks]) simp_all
  next
    case (Inr u)
    with d Cons.prems(2) have run: "delete_all S ks s1 = (Inl e, s')" by (simp add: and_then_def)
    have gone: "view s' key = None"
      using delete_all_other [OF run, of key] delete_ok d Inr Cons.prems(3) by simp
    obtain del key2 rest where ks: "ks = del @ key2 # rest"
      and del: "\<And>k. k \<in> set del \<Longrightarrow> view s' k = None"
      and rest: "\<And>k. k \<in> set rest \<Longrightarrow> view s' k = view s1 k"
      using Cons.IH [OF _ run] Cons.prems(3) by auto
    have "view s' k = view s k" if "k \<in> set rest" for k
      using rest [OF that] delete_other [OF d, of k] that Cons.prems(3) ks by auto
    then show ?thesis
      using gone del by (intro Cons.prems(1) [of "key # del" key2 rest]) (auto simp: ks)
  qed
qed

end

section \<open>A keyring and a profile encoding for the witnesses\<close>

definition sample_keyring :: "(string \<times> string \<Rightarrow> bytes option, string \<times> string) keyring" where
  "sample_keyring =
     \<lparr>entry_new = (\<lambda>svc key k. (Inr (svc, key), k)),
      set_secret = (\<lambda>c v k. (Inr (), k(c \<mapsto> v))),
      get_secret = (\<lambda>c k. (case k c of None \<Rightarrow> (Inl NoEntry, k) | Some v \<Rightarrow> (Inr v, k))),
      delete_credential = (\<lambda>c k. (if k c = None then Inl NoEntry else Inr (), k(c := None)))\<rparr>"

lemma sample_keyring_sound: "keyring_sound sample_keyring (\<lambda>c. c) (\<lambda>k. k)"
  by (auto simp: keyring_sound_def sample_keyring_def split: option.splits)

lemma sample_keyring_total: "keyring_total sample_keyring"
  by (auto simp: keyring_total_def sample_keyring_def split: option.split)

lemma sample_keyring_atomic: "keyring_atomic sample_keyring (\<lambda>c. c) (\<lambda>k. k)"
  by (auto simp: keyring_atomic_def sample_keyring_def split: if_splits)

definition sample_profile :: server_profile where
  "sample_profile = \<lparr>sp_endpoints = [''h:1''], sp_identity_public = replicate 32 9, sp_user_id = ''u''\<rparr>"

definition sample_vault_lib :: vault_lib where
  "sample_vault_lib =
     \<lparr>profile_json_write = (\<lambda>p. if p = sample_profile then Some [1] else None),
      profile_json_read = (\<lambda>b. if b = [1] then Some sample_profile else None)\<rparr>"

lemma sample_vault_sound: "profile_json_sound sample_vault_lib"
  by (auto simp: profile_json_sound_def sample_vault_lib_def split: if_splits)

section \<open>Properties\<close>

text \<open>
  Property C22: the vault keeps its five items apart. After the five setters have stored a master
  key, a Secret Key, a device secret, a session token and a server profile, one after the other
  in any store that keeps the contract, each getter returns the item that was stored whenever the
  backend can read its entry, and otherwise the backend's own error; never another value, never
  nothing, and never an error of its own.
\<close>

theorem vault_keeps_all_items:
  assumes "secret_store S view" and "profile_json_sound J"
    and "wf_mk mk" and "wf_sk sk" and "length dev = 32" and "utf8_valid (str_bytes token)"
    and "vault_set_master_key S mk s0 = (Inr (), s1)"
    and "vault_set_secret_key S sk s1 = (Inr (), s2)"
    and "vault_set_device_secret S dev s2 = (Inr (), s3)"
    and "vault_set_session_token S token s3 = (Inr (), s4)"
    and "vault_set_server_profile J S profile s4 = (Inr (), s)"
  shows "fst (vault_master_key S s) = map_sum id (\<lambda>_. Some mk) (fst (store_get S MASTER_KEY s)) \<and>
    fst (vault_secret_key S s) = map_sum id (\<lambda>_. Some sk) (fst (store_get S SECRET_KEY s)) \<and>
    fst (vault_device_secret S s) = map_sum id (\<lambda>_. Some dev) (fst (store_get S DEVICE_SECRET s)) \<and>
    fst (vault_session_token S s) = map_sum id (\<lambda>_. Some token) (fst (store_get S SESSION_TOKEN s)) \<and>
    fst (vault_server_profile J S s) = map_sum id (\<lambda>_. Some profile) (fst (store_get S SERVER_PROFILE s))"
proof -
  note m = master_entry [OF assms(1)] and k = secret_entry [OF assms(1)] and d = device_entry [OF assms(1)]
    and t = token_entry [OF assms(1)] and p = profile_entry [OF assms(1), of J]
  have w: "profile_json_write J profile \<noteq> None"
    using assms(11) by (auto simp: vault_set_server_profile_def exec_result lift_result_eq)
  have pv: "view s SERVER_PROFILE = Some (the (profile_json_write J profile))"
    by (rule vault_entry.put_view [OF p assms(11)])
  have "view s SESSION_TOKEN = Some (str_bytes token)"
    using vault_entry.put_view [OF t assms(10)] vault_entry.put_other [OF p assms(11)] by (simp add: entry_names)
  moreover have "view s DEVICE_SECRET = Some dev"
    using vault_entry.put_view [OF d assms(9)] vault_entry.put_other [OF t assms(10)]
      vault_entry.put_other [OF p assms(11)] by (simp add: entry_names)
  moreover have "view s SECRET_KEY = Some (sk_as_bytes sk)"
    using vault_entry.put_view [OF k assms(8)] vault_entry.put_other [OF d assms(9)]
      vault_entry.put_other [OF t assms(10)] vault_entry.put_other [OF p assms(11)] by (simp add: entry_names)
  moreover have "view s MASTER_KEY = Some (mk_as_bytes mk)"
    using vault_entry.put_view [OF m assms(7)] vault_entry.put_other [OF k assms(8)]
      vault_entry.put_other [OF d assms(9)] vault_entry.put_other [OF t assms(10)]
      vault_entry.put_other [OF p assms(11)] by (simp add: entry_names)
  ultimately show ?thesis
    using vault_entry.fetch_stored [OF m assms(3)] vault_entry.fetch_stored [OF k assms(4)]
      vault_entry.fetch_stored [OF d assms(5)] vault_entry.fetch_stored [OF t assms(6)]
      vault_entry.fetch_stored [OF p _ pv] w assms(2) by blast
qed

lemma memory_get_result: "map_sum id f (fst (store_get memory_store k m)) = Inr (f (m k))"
  by (simp add: memory_store_def)

theorem vault_keeps_all_items_witness:
  "\<exists>s :: memory. fst (vault_master_key memory_store s) = Inr (Some (MasterKey (replicate 32 1))) \<and>
    fst (vault_secret_key memory_store s) = Inr (Some (SecretKey (replicate 20 2))) \<and>
    fst (vault_device_secret memory_store s) = Inr (Some (replicate 32 3)) \<and>
    fst (vault_session_token memory_store s) = Inr (Some ''tok'') \<and>
    fst (vault_server_profile sample_vault_lib memory_store s) = Inr (Some sample_profile)"
proof -
  have "\<exists>s :: memory.
      fst (vault_master_key memory_store s) =
        map_sum id (\<lambda>_. Some (MasterKey (replicate 32 1))) (fst (store_get memory_store MASTER_KEY s)) \<and>
      fst (vault_secret_key memory_store s) =
        map_sum id (\<lambda>_. Some (SecretKey (replicate 20 2))) (fst (store_get memory_store SECRET_KEY s)) \<and>
      fst (vault_device_secret memory_store s) =
        map_sum id (\<lambda>_. Some (replicate 32 3)) (fst (store_get memory_store DEVICE_SECRET s)) \<and>
      fst (vault_session_token memory_store s) =
        map_sum id (\<lambda>_. Some ''tok'') (fst (store_get memory_store SESSION_TOKEN s)) \<and>
      fst (vault_server_profile sample_vault_lib memory_store s) =
        map_sum id (\<lambda>_. Some sample_profile) (fst (store_get memory_store SERVER_PROFILE s))"
    by (rule exI, rule vault_keeps_all_items [OF memory.secret_store_axioms sample_vault_sound])
       (auto simp: wf_mk_def wf_sk_def SECRET_KEY_BYTES_def str_bytes_def byte_of_char_def
         vault_set_master_key_def vault_set_secret_key_def vault_set_device_secret_def
         vault_set_session_token_def vault_set_server_profile_def memory_store_def sample_vault_lib_def
         exec_result exec_simps)
  then show ?thesis by (simp only: memory_get_result)
qed

text \<open>
  \<open>clear\<close> wipes everything. When it succeeds, none of the five entries is left and
  every other entry of the store is as before; when it fails, it has deleted the entries before
  the failing one, starting with the master key, and left the later ones.
\<close>

lemma clear_wipes_everything:
  assumes "secret_store S view"
  shows "(vault_clear S s = (Inr (), s') \<longrightarrow>
      view s' = (\<lambda>k. if k \<in> set VAULT_KEYS then None else view s k)) \<and>
    (vault_clear S s = (Inl e, s') \<longrightarrow>
      (\<exists>i < 5. (\<forall>j < i. view s' (VAULT_KEYS ! j) = None) \<and>
               (\<forall>j. i < j \<and> j < 5 \<longrightarrow> view s' (VAULT_KEYS ! j) = view s (VAULT_KEYS ! j))))"
proof (intro conjI impI)
  assume "vault_clear S s = (Inr (), s')"
  then show "view s' = (\<lambda>k. if k \<in> set VAULT_KEYS then None else view s k)"
    using secret_store.delete_all_gone [OF assms] secret_store.delete_all_other [OF assms]
    by (auto simp: vault_clear_keys)
next
  assume "vault_clear S s = (Inl e, s')"
  moreover have "distinct VAULT_KEYS" by (simp add: VAULT_KEYS_def entry_names)
  ultimately obtain del key rest where keys: "VAULT_KEYS = del @ key # rest"
    and del: "\<And>k. k \<in> set del \<Longrightarrow> view s' k = None"
    and rest: "\<And>k. k \<in> set rest \<Longrightarrow> view s' k = view s k"
    using secret_store.delete_all_failed [OF assms] unfolding vault_clear_keys by metis
  have five: "length del + length rest = 4"
    using arg_cong [OF keys, of length] by (simp add: VAULT_KEYS_def)
  have "view s' (VAULT_KEYS ! j) = None" if "j < length del" for j
    using that del by (simp add: keys nth_append)
  moreover have "view s' (VAULT_KEYS ! j) = view s (VAULT_KEYS ! j)" if "length del < j" "j < 5" for j
  proof (rule rest)
    have "VAULT_KEYS ! j = rest ! (j - Suc (length del))"
      using that by (simp add: keys nth_append nth_Cons')
    then show "VAULT_KEYS ! j \<in> set rest" using that five by simp
  qed
  ultimately show "\<exists>i < 5. (\<forall>j < i. view s' (VAULT_KEYS ! j) = None) \<and>
      (\<forall>j. i < j \<and> j < 5 \<longrightarrow> view s' (VAULT_KEYS ! j) = view s (VAULT_KEYS ! j))"
    using five by (intro exI [of _ "length del"]) auto
qed

text \<open>
  Signing out keeps the device enrolled. \<open>clear_session\<close> touches the session token and
  the master key only, whether it succeeds or not, and removes both when it succeeds; the Secret
  Key, the device secret and the server profile stay.
\<close>

lemma clear_session_keeps_enrollment:
  assumes "secret_store S view" and "vault_clear_session S s = (r, s')"
  shows "(\<forall>k. k \<noteq> SESSION_TOKEN \<and> k \<noteq> MASTER_KEY \<longrightarrow> view s' k = view s k) \<and>
    (r = Inr () \<longrightarrow> view s' = (view s)(SESSION_TOKEN := None, MASTER_KEY := None))"
proof -
  have run: "delete_all S [SESSION_TOKEN, MASTER_KEY] s = (r, s')"
    using assms(2) by (simp add: vault_clear_session_keys)
  have other: "view s' k = view s k" if "k \<notin> set [SESSION_TOKEN, MASTER_KEY]" for k
    using assms(1) run that by (rule secret_store.delete_all_other)
  moreover have "view s' k = None" if "r = Inr ()" "k \<in> set [SESSION_TOKEN, MASTER_KEY]" for k
    using secret_store.delete_all_gone [OF assms(1)] run that by blast
  ultimately show ?thesis by (auto simp: fun_eq_iff)
qed

text \<open>
  A stored value of the wrong size is reported, never used. For each of the three
  fixed-size secrets and for a token that is not UTF-8 the getter returns the malformed-value
  error, and it changes nothing.
\<close>

lemma malformed_value_is_an_error:
  assumes "reliable_store S view"
  shows "(view s MASTER_KEY = Some bs \<and> length bs \<noteq> 32 \<longrightarrow> fst (vault_master_key S s) = Inl Malformed_Value) \<and>
    (view s SECRET_KEY = Some bs \<and> length bs \<noteq> 20 \<longrightarrow> fst (vault_secret_key S s) = Inl Malformed_Value) \<and>
    (view s DEVICE_SECRET = Some bs \<and> length bs \<noteq> 32 \<longrightarrow> fst (vault_device_secret S s) = Inl Malformed_Value) \<and>
    (view s SESSION_TOKEN = Some bs \<and> \<not> utf8_valid bs \<longrightarrow> fst (vault_session_token S s) = Inl Malformed_Value)"
  by (intro conjI impI; elim conjE)
     (simp_all add: vault_master_key_def vault_secret_key_def vault_device_secret_def vault_session_token_def
       reliable_store.read_entry_malformed [OF assms] array32_def sk_from_bytes_def SECRET_KEY_BYTES_def
       string_from_utf8_def)

text \<open>
  Property C36: the OS keychain is a secret store. For any keyring that behaves as documented its
  operations keep the contract the vault relies on, and the only error they return is \<open>Backend\<close>. On
  a keyring that fails at most for want of an entry no operation fails at all, so a missing credential
  is absence and not an error, for reading as for deleting; and where a failed call of the keyring
  leaves the entry as it was, so does a failed operation of the store.
\<close>

theorem keychain_keeps_contract:
  assumes "keyring_sound K den content"
  shows "secret_store (keychain_store K kc) (\<lambda>k key. content k (service kc, key)) \<and>
    fst (store_get (keychain_store K kc) key k) \<noteq> Inl Malformed_Value \<and>
    fst (store_set (keychain_store K kc) key v k) \<noteq> Inl Malformed_Value \<and>
    fst (store_delete (keychain_store K kc) key k) \<noteq> Inl Malformed_Value \<and>
    (keyring_total K \<longrightarrow>
       fst (store_get (keychain_store K kc) key k) = Inr (content k (service kc, key)) \<and>
       fst (store_set (keychain_store K kc) key v k) = Inr () \<and>
       fst (store_delete (keychain_store K kc) key k) = Inr ()) \<and>
    (keyring_atomic K den content \<longrightarrow>
       atomic_store (keychain_store K kc) (\<lambda>k key. content k (service kc, key)))"
proof (intro conjI impI)
  show "secret_store (keychain_store K kc) (\<lambda>k key. content k (service kc, key))"
    using assms by (rule keychain_is_secret_store)
  show "fst (store_get (keychain_store K kc) key k) \<noteq> Inl Malformed_Value"
    and "fst (store_set (keychain_store K kc) key v k) \<noteq> Inl Malformed_Value"
    and "fst (store_delete (keychain_store K kc) key k) \<noteq> Inl Malformed_Value"
    by (auto simp: keychain_store_def keychain_get_eq keychain_set_eq keychain_delete_eq
        split: prod.split sum.split keyring_error.split)
  show "atomic_store (keychain_store K kc) (\<lambda>k key. content k (service kc, key))" if "keyring_atomic K den content"
    using assms that by (rule keychain_atomic)
  assume "keyring_total K"
  note store = keychain_reliable [OF assms this, of kc]
  show "fst (store_get (keychain_store K kc) key k) = Inr (content k (service kc, key))"
    using reliable_store.get_run [OF store, of key k] by auto
  show "fst (store_set (keychain_store K kc) key v k) = Inr ()"
    by (rule reliable_store.set_total [OF store])
  show "fst (store_delete (keychain_store K kc) key k) = Inr ()"
    by (rule reliable_store.delete_total [OF store])
qed

theorem keychain_keeps_contract_witness:
  "secret_store (keychain_store sample_keyring (os_keychain_new ''sylva'')) (\<lambda>k key. k (''sylva'', key)) \<and>
   atomic_store (keychain_store sample_keyring (os_keychain_new ''sylva'')) (\<lambda>k key. k (''sylva'', key)) \<and>
   fst (store_get (keychain_store sample_keyring (os_keychain_new ''sylva'')) ''k'' Map.empty) = Inr None \<and>
   fst (store_delete (keychain_store sample_keyring (os_keychain_new ''sylva'')) ''k'' Map.empty) = Inr ()"
  using keychain_keeps_contract [OF sample_keyring_sound, of "os_keychain_new ''sylva''" "''k''" Map.empty]
    sample_keyring_total sample_keyring_atomic
  by (simp add: os_keychain_new_def)

end
