(* ===== verification/Proto.thy ===== *)
theory Proto
  imports Prelude
begin

text \<open>
  The messages of \<open>proto/account/v1/account.proto\<close> as the generated stubs give them to the code:
  one record per message, an optional value for a message field, a datatype for the \<open>oneof\<close>. And
  the status of a failed call.
\<close>

record key_material =
  km_x25519_public :: bytes
  km_ed25519_public :: bytes
  km_x25519_private_wrapped :: bytes
  km_ed25519_private_wrapped :: bytes
  km_master_key_wrapped :: bytes
  km_kdf_salt :: bytes
  km_kdf_params :: string

record device_enrollment =
  de_device_label :: string
  de_platform :: string
  de_device_public_key :: bytes
  de_machine_label :: string

record bootstrap_request =
  br_email :: string
  br_display_name :: string
  br_password :: string
  br_key_material :: "key_material option"
  br_device :: "device_enrollment option"

record login_request =
  lr_email :: string
  lr_password :: string
  lr_mfa_challenge_token :: string
  lr_mfa_response :: bytes

record session_msg =
  sm_token :: string
  sm_user_id :: string
  sm_expires_at :: string

record mfa_required =
  mr_mfa_challenge_token :: string
  mr_methods :: "string list"

datatype login_outcome = Session session_msg | Mfa_Required mfa_required

type_synonym login_response = "login_outcome option"

record verify_mfa_request =
  vm_mfa_challenge_token :: string
  vm_mfa_response :: bytes

record device_msg =
  dm_device_id :: string
  dm_device_label :: string
  dm_platform :: string
  dm_machine_id :: string
  dm_created_at :: string
  dm_last_seen_at :: string
  dm_revoked_at :: string

record profile_msg =
  pm_user_id :: string
  pm_email :: string
  pm_display_name :: string
  pm_instance_role :: string

record update_email_request =
  ue_new_email :: string
  ue_current_password :: string

record change_password_request =
  cp_current_password :: string
  cp_new_password :: string
  cp_new_master_key_wrapped :: bytes
  cp_new_kdf_salt :: bytes
  cp_new_kdf_params :: string

text \<open>\<open>tonic::Code\<close> and the part of \<open>tonic::Status\<close> the code looks at.\<close>

datatype grpc_code =
    Code_Ok | Cancelled | Unknown | InvalidArgument | DeadlineExceeded | NotFound | AlreadyExists
  | PermissionDenied | ResourceExhausted | FailedPrecondition | Aborted | OutOfRange | Unimplemented
  | Internal | Unavailable | DataLoss | Unauthenticated

datatype status = Status (status_code: grpc_code) (status_message: string)

end
