(* ===== verification/Transport.thy ===== *)
theory Transport
  imports Discovery Proto
begin

text \<open>
  \<open>src/transport/client.rs\<close> and \<open>src/transport/mod.rs\<close>: connecting to the first reachable endpoint,
  the calls of the \<open>Account\<close> service with the session token attached, and the one-shot
  discover-verify-pin-connect.

  \<open>tonic\<close> and the server behind it are the record \<open>net\<close>, an extension of \<open>http\<close>: whether an
  endpoint URL is valid, connecting to it, whether a text can be a metadata value, and one
  operation per remote call, which takes the channel, the \<open>authorization\<close> metadata if any and the
  message.
\<close>

section \<open>The network\<close>

text \<open>\<open>tonic::transport::Error\<close>, by what it prints.\<close>

datatype tonic_error = Tonic_Error string

type_synonym ('n, 'c, 'req, 'resp) rpc =
  "'c \<Rightarrow> string option \<Rightarrow> 'req \<Rightarrow> 'n \<Rightarrow> (status + 'resp) \<times> 'n"

record ('n, 'c) net = "'n http" +
  endpoint_ok :: "string \<Rightarrow> bool"
  dial :: "string \<Rightarrow> 'n \<Rightarrow> (tonic_error + 'c) \<times> 'n"
  metadata_ok :: "string \<Rightarrow> bool"
  rpc_bootstrap :: "('n, 'c, bootstrap_request, session_msg) rpc"
  rpc_login :: "('n, 'c, login_request, login_response) rpc"
  rpc_get_key_material :: "('n, 'c, unit, key_material option) rpc"
  rpc_register_device :: "('n, 'c, device_enrollment option, device_msg) rpc"
  rpc_list_my_devices :: "('n, 'c, unit, device_msg list) rpc"
  rpc_revoke_device :: "('n, 'c, string, unit) rpc"
  rpc_get_profile :: "('n, 'c, unit, profile_msg) rpc"
  rpc_update_display_name :: "('n, 'c, string, profile_msg) rpc"
  rpc_update_email :: "('n, 'c, update_email_request, profile_msg) rpc"
  rpc_change_password :: "('n, 'c, change_password_request, unit) rpc"
  rpc_get_avatar :: "('n, 'c, unit, bytes) rpc"
  rpc_set_avatar :: "('n, 'c, bytes, unit) rpc"

section \<open>Connecting\<close>

datatype transport_error =
    NoEndpoints
  | AllEndpointsFailed
  | BadEndpoint
  | Transport_Error tonic_error
  | Rpc status
  | EmptyResponse

definition http_url :: "string \<Rightarrow> string" where
  "http_url endpoint = ''http://'' @ endpoint"

fun connect_loop ::
  "('n, 'c, 'y) net_scheme \<Rightarrow> string list \<Rightarrow> transport_error option \<Rightarrow>
     (('n, 'z) host_scheme, transport_error, 'c) exec" where
  "connect_loop W [] last_error =
     throw (case last_error of Some e \<Rightarrow> e | None \<Rightarrow> AllEndpointsFailed)"
| "connect_loop W (endpoint # endpoints) last_error =
     (if \<not> endpoint_ok W (http_url endpoint) then connect_loop W endpoints (Some BadEndpoint)
      else and_then (with_net (dial W (http_url endpoint))) (\<lambda>result.
             (case result of
                Inr channel \<Rightarrow> ret channel
              | Inl err \<Rightarrow> connect_loop W endpoints (Some (Transport_Error err)))))"

definition connect_endpoints ::
  "('n, 'c, 'y) net_scheme \<Rightarrow> string list \<Rightarrow> (('n, 'z) host_scheme, transport_error, 'c) exec" where
  "connect_endpoints W endpoints =
     (if endpoints = [] then throw NoEndpoints else connect_loop W endpoints None)"

section \<open>Remote calls\<close>

text \<open>A call with \<open>?\<close>: a failed status becomes \<open>Rpc\<close>.\<close>

definition call :: "('n \<Rightarrow> (status + 'a) \<times> 'n) \<Rightarrow> (('n, 'z) host_scheme, transport_error, 'a) exec" where
  "call f = and_then (with_net f) (\<lambda>r. lift_result (map_sum Rpc id r))"

definition bootstrap_call ::
  "('n, 'c, 'y) net_scheme \<Rightarrow> 'c \<Rightarrow> bootstrap_request \<Rightarrow>
     (('n, 'z) host_scheme, transport_error, session_msg) exec" where
  "bootstrap_call W channel request = call (rpc_bootstrap W channel None request)"

definition login_call ::
  "('n, 'c, 'y) net_scheme \<Rightarrow> 'c \<Rightarrow> login_request \<Rightarrow>
     (('n, 'z) host_scheme, transport_error, login_response) exec" where
  "login_call W channel request = call (rpc_login W channel None request)"

record 'c account_session =
  as_channel :: 'c
  as_token :: string

definition session_new :: "'c \<Rightarrow> string \<Rightarrow> 'c account_session" where
  "session_new channel token = \<lparr>as_channel = channel, as_token = token\<rparr>"

text \<open>
  The metadata of an authenticated request: none when the token cannot be a header value.
\<close>

definition authed :: "('n, 'c, 'y) net_scheme \<Rightarrow> 'c account_session \<Rightarrow> string option" where
  "authed W a =
     (let value = ''Bearer '' @ as_token a in if metadata_ok W value then Some value else None)"

definition session_key_material ::
  "('n, 'c, 'y) net_scheme \<Rightarrow> 'c account_session \<Rightarrow>
     (('n, 'z) host_scheme, transport_error, key_material) exec" where
  "session_key_material W a =
     and_then (call (rpc_get_key_material W (as_channel a) (authed W a) ())) (\<lambda>response.
     lift_result (ok_or response EmptyResponse))"

definition session_register_device ::
  "('n, 'c, 'y) net_scheme \<Rightarrow> 'c account_session \<Rightarrow> device_enrollment \<Rightarrow>
     (('n, 'z) host_scheme, transport_error, device_msg) exec" where
  "session_register_device W a device =
     call (rpc_register_device W (as_channel a) (authed W a) (Some device))"

definition session_list_devices ::
  "('n, 'c, 'y) net_scheme \<Rightarrow> 'c account_session \<Rightarrow>
     (('n, 'z) host_scheme, transport_error, device_msg list) exec" where
  "session_list_devices W a = call (rpc_list_my_devices W (as_channel a) (authed W a) ())"

definition session_revoke_device ::
  "('n, 'c, 'y) net_scheme \<Rightarrow> 'c account_session \<Rightarrow> string \<Rightarrow>
     (('n, 'z) host_scheme, transport_error, unit) exec" where
  "session_revoke_device W a device_id =
     and_then (call (rpc_revoke_device W (as_channel a) (authed W a) device_id)) (\<lambda>_. ret ())"

definition session_get_profile ::
  "('n, 'c, 'y) net_scheme \<Rightarrow> 'c account_session \<Rightarrow>
     (('n, 'z) host_scheme, transport_error, profile_msg) exec" where
  "session_get_profile W a = call (rpc_get_profile W (as_channel a) (authed W a) ())"

definition session_update_display_name ::
  "('n, 'c, 'y) net_scheme \<Rightarrow> 'c account_session \<Rightarrow> string \<Rightarrow>
     (('n, 'z) host_scheme, transport_error, profile_msg) exec" where
  "session_update_display_name W a display_name =
     call (rpc_update_display_name W (as_channel a) (authed W a) display_name)"

definition session_update_email ::
  "('n, 'c, 'y) net_scheme \<Rightarrow> 'c account_session \<Rightarrow> string \<Rightarrow> string \<Rightarrow>
     (('n, 'z) host_scheme, transport_error, profile_msg) exec" where
  "session_update_email W a new_email current_password =
     call (rpc_update_email W (as_channel a) (authed W a)
       \<lparr>ue_new_email = new_email, ue_current_password = current_password\<rparr>)"

definition session_change_password ::
  "('n, 'c, 'y) net_scheme \<Rightarrow> 'c account_session \<Rightarrow> change_password_request \<Rightarrow>
     (('n, 'z) host_scheme, transport_error, unit) exec" where
  "session_change_password W a request =
     and_then (call (rpc_change_password W (as_channel a) (authed W a) request)) (\<lambda>_. ret ())"

text \<open>The server says that no avatar is set with an empty blob.\<close>

definition session_get_avatar ::
  "('n, 'c, 'y) net_scheme \<Rightarrow> 'c account_session \<Rightarrow>
     (('n, 'z) host_scheme, transport_error, bytes option) exec" where
  "session_get_avatar W a =
     and_then (call (rpc_get_avatar W (as_channel a) (authed W a) ())) (\<lambda>avatar.
     ret (if avatar = [] then None else Some avatar))"

definition session_set_avatar ::
  "('n, 'c, 'y) net_scheme \<Rightarrow> 'c account_session \<Rightarrow> bytes \<Rightarrow>
     (('n, 'z) host_scheme, transport_error, unit) exec" where
  "session_set_avatar W a avatar =
     and_then (call (rpc_set_avatar W (as_channel a) (authed W a) avatar)) (\<lambda>_. ret ())"

section \<open>Discover and connect\<close>

datatype connect_error =
    Discovery discovery_error
  | Connect_Failed transport_error
  | Identity_Mismatch

definition host_port :: "string \<Rightarrow> u16 \<Rightarrow> string" where
  "host_port host port = host @ '':'' @ show_u16 port"

definition discover_and_connect ::
  "discovery_lib \<Rightarrow> ('n, 'c, 'y) net_scheme \<Rightarrow> string \<Rightarrow> u16 \<Rightarrow> bytes option \<Rightarrow>
     (('n, 'z) host_scheme, connect_error, 'c \<times> verified_server \<times> trust_decision) exec" where
  "discover_and_connect D W host discovery_port pinned =
     and_then (map_error Discovery (fetch_and_verify D W (http_url (host_port host discovery_port)))) (\<lambda>verified.
       (let decision = check_pin verified pinned in
        if decision = Mismatch then throw Identity_Mismatch
        else and_then (map_error Connect_Failed (connect_endpoints W [host_port host (vs_grpc_port verified)]))
               (\<lambda>channel. ret (channel, verified, decision))))"


section \<open>Running calls\<close>

lemma call_Inr_iff [simp]:
  "call f h = (Inr x, h') \<longleftrightarrow> (\<exists>n. f (host_net h) = (Inr x, n) \<and> h' = h\<lparr>host_net := n\<rparr>)"
  by (cases "f (host_net h)"; cases "fst (f (host_net h))")
     (auto simp: call_def and_then_Inr_iff lift_result_eq)

lemma call_Inl_iff [simp]:
  "call f h = (Inl e, h') \<longleftrightarrow> (\<exists>st n. f (host_net h) = (Inl st, n) \<and> e = Rpc st \<and> h' = h\<lparr>host_net := n\<rparr>)"
  by (cases "f (host_net h)"; cases "fst (f (host_net h))")
     (auto simp: call_def and_then_Inl_iff lift_result_eq)

text \<open>What acts on the random source and the network leaves the rest of the state alone.\<close>

lemma keeps_rest_rng [keeps_intros]: "keeps (\<lambda>h. host.more h = z) (with_rng m)"
  by (auto simp: keeps_def with_rng_def on_part_iff)

lemma keeps_rest_net [keeps_intros]: "keeps (\<lambda>h. host.more h = z) (with_net f)"
  by (auto simp: keeps_def with_net_def split: prod.splits)

lemma keeps_rest_call [keeps_intros]: "keeps (\<lambda>h. host.more h = z) (call f)"
  unfolding call_def by (intro keeps_intros)

lemma keeps_rest_connect_loop [keeps_intros]: "keeps (\<lambda>h. host.more h = z) (connect_loop W es e)"
proof (induction es arbitrary: e)
  case Nil
  show ?case by (simp add: keeps_throw)
next
  case (Cons a es)
  have "keeps (\<lambda>h. host.more h = z)
      (case result of Inr channel \<Rightarrow> ret channel | Inl err \<Rightarrow> connect_loop W es (Some (Transport_Error err)))" for result
    using Cons by (cases result) (simp_all add: keeps_ret)
  with Cons show ?case by (auto intro!: keeps_and_then keeps_rest_net)
qed

lemma keeps_rest_fetch [keeps_intros]: "keeps (\<lambda>h. host.more h = z) (fetch_and_verify D W url)"
  unfolding fetch_and_verify_def
  by (intro keeps_and_then keeps_rest_rng keeps_rest_net)
     (auto intro!: keeps_intros split: option.splits prod.splits)

lemma keeps_rest_discover [keeps_intros]:
  "keeps (\<lambda>h. host.more h = z) (discover_and_connect D W host port pinned)"
  unfolding discover_and_connect_def connect_endpoints_def Let_def
  by (intro keeps_and_then keeps_map_error keeps_rest_fetch)
     (auto intro!: keeps_intros simp del: connect_loop.simps)

section \<open>What the client relies on from an account server\<close>

text \<open>
  A session from a login has a token that may be sent as a header and that the server accepts,
  and for an accepted token the server returns the account's key material, which neither call
  changes.
\<close>

locale key_service =
  fixes W :: "('n, 'c, 'y) net_scheme"
    and material :: "'n \<Rightarrow> key_material"
    and issued :: "'n \<Rightarrow> string \<Rightarrow> bool"
  assumes session_issued:
      "rpc_login W c None req n = (Inr (Some (Session s)), n') \<Longrightarrow>
         issued n' (sm_token s) \<and> material n' = material n"
    and serves_material:
      "issued n tok \<Longrightarrow>
         \<exists>n'. rpc_get_key_material W c (Some (''Bearer '' @ tok)) () n = (Inr (Some (material n)), n') \<and>
              material n' = material n"
    and token_is_header: "issued n tok \<Longrightarrow> metadata_ok W (''Bearer '' @ tok)"
begin

lemma authed_issued: "issued n tok \<Longrightarrow> authed W (session_new c tok) = Some (''Bearer '' @ tok)"
  using token_is_header by (simp add: authed_def session_new_def)

end

text \<open>And it keeps one avatar: what was set is what is returned.\<close>

locale account_service = key_service W material issued
  for W :: "('n, 'c, 'y) net_scheme" and material and issued +
  fixes avatar :: "'n \<Rightarrow> bytes"
  assumes gets_avatar:
      "issued n tok \<Longrightarrow>
         \<exists>n'. rpc_get_avatar W c (Some (''Bearer '' @ tok)) () n = (Inr (avatar n), n') \<and> avatar n' = avatar n"
    and sets_avatar:
      "issued n tok \<Longrightarrow>
         \<exists>n'. rpc_set_avatar W c (Some (''Bearer '' @ tok)) blob n = (Inr (), n') \<and>
              avatar n' = blob \<and> issued n' tok"
begin

lemma session_set_avatar_run:
  "issued (host_net h) tok \<Longrightarrow>
     \<exists>n'. session_set_avatar W (session_new c tok) blob h = (Inr (), h\<lparr>host_net := n'\<rparr>) \<and>
          avatar n' = blob \<and> issued n' tok"
  using sets_avatar [of "host_net h" tok c blob] authed_issued [of "host_net h" tok c]
  by (auto simp: session_set_avatar_def and_then_Inr_iff ret_eq session_new_def)

lemma session_get_avatar_run:
  "issued (host_net h) tok \<Longrightarrow>
     \<exists>n'. session_get_avatar W (session_new c tok) h =
            (Inr (if avatar (host_net h) = [] then None else Some (avatar (host_net h))), h\<lparr>host_net := n'\<rparr>) \<and>
          avatar n' = avatar (host_net h)"
  using gets_avatar [of "host_net h" tok c] authed_issued [of "host_net h" tok c]
  by (auto simp: session_get_avatar_def and_then_Inr_iff ret_eq session_new_def)

end

section \<open>Failover\<close>

text \<open>
  Trying endpoints that all fail: the network after it, or \<open>None\<close> when one of them connects.
\<close>

fun failed_dials :: "('n, 'c, 'y) net_scheme \<Rightarrow> string list \<Rightarrow> 'n \<Rightarrow> 'n option" where
  "failed_dials W [] n = Some n"
| "failed_dials W (e # es) n =
     (if \<not> endpoint_ok W (http_url e) then failed_dials W es n
      else (case dial W (http_url e) n of
              (Inl err, n') \<Rightarrow> failed_dials W es n'
            | (Inr c, n') \<Rightarrow> None))"

text \<open>The first endpoint that connects, with its channel and the network after it.\<close>

definition first_success ::
  "('n, 'c, 'y) net_scheme \<Rightarrow> string list \<Rightarrow> 'n \<Rightarrow> 'c \<Rightarrow> 'n \<Rightarrow> bool" where
  "first_success W es n c n' \<longleftrightarrow>
     (\<exists>pre e post m. es = pre @ e # post \<and> failed_dials W pre n = Some m \<and>
        endpoint_ok W (http_url e) \<and> dial W (http_url e) m = (Inr c, n'))"

lemma first_success_Nil [simp]: "\<not> first_success W [] n c n'"
  by (simp add: first_success_def)

lemma first_success_Cons:
  "first_success W (e # es) n c n' \<longleftrightarrow>
     (if \<not> endpoint_ok W (http_url e) then first_success W es n c n'
      else (case dial W (http_url e) n of
              (Inl err, m) \<Rightarrow> first_success W es m c n'
            | (Inr d, m) \<Rightarrow> d = c \<and> m = n'))"
proof -
  have split_Cons: "(\<exists>pre a post m. e # es = pre @ a # post \<and> P pre a post m) \<longleftrightarrow>
      (\<exists>m. P [] e es m) \<or> (\<exists>pre a post m. es = pre @ a # post \<and> P (e # pre) a post m)" for P
  proof (intro iffI; elim exE disjE conjE)
    fix pre a post m
    assume "e # es = pre @ a # post" and "P pre a post m"
    then show "(\<exists>m. P [] e es m) \<or> (\<exists>pre a post m. es = pre @ a # post \<and> P (e # pre) a post m)"
      by (cases pre) auto
  next
    fix m
    assume "P [] e es m"
    then show "\<exists>pre a post m. e # es = pre @ a # post \<and> P pre a post m"
      by (intro exI conjI) (rule append_Nil [symmetric])
  next
    fix pre a post m
    assume "es = pre @ a # post" and "P (e # pre) a post m"
    then show "\<exists>pre a post m. e # es = pre @ a # post \<and> P pre a post m"
      by (intro exI [of _ "e # pre"] exI [of _ a] exI [of _ post] exI [of _ m]) simp
  qed
  show ?thesis
    unfolding first_success_def split_Cons by (auto split: sum.splits prod.splits; blast)
qed

lemma connect_loop_Inr_iff:
  "connect_loop W es l h = (Inr c, h') \<longleftrightarrow>
     (\<exists>n'. first_success W es (host_net h) c n' \<and> h' = h\<lparr>host_net := n'\<rparr>)"
proof (induction es arbitrary: l h)
  case Nil
  show ?case by (simp add: throw_eq)
next
  case (Cons e es)
  show ?case
  proof (cases "endpoint_ok W (http_url e)")
    case False
    with Cons show ?thesis by (simp add: first_success_Cons)
  next
    case True
    obtain r m where d: "dial W (http_url e) (host_net h) = (r, m)" by (cases "dial W (http_url e) (host_net h)")
    with True Cons show ?thesis
      by (cases r) (auto simp: first_success_Cons and_then_Inr_iff ret_eq)
  qed
qed

text \<open>The way the last endpoint fails, when the others have failed.\<close>

definition last_failure ::
  "('n, 'c, 'y) net_scheme \<Rightarrow> string \<Rightarrow> 'n \<Rightarrow> transport_error \<Rightarrow> 'n \<Rightarrow> bool" where
  "last_failure W e n err n' \<longleftrightarrow>
     (if endpoint_ok W (http_url e)
      then (\<exists>terr. dial W (http_url e) n = (Inl terr, n') \<and> err = Transport_Error terr)
      else err = BadEndpoint \<and> n' = n)"

lemma connect_loop_Inl_iff:
  "connect_loop W es l h = (Inl err, h') \<longleftrightarrow>
     (if es = [] then err = (case l of Some e \<Rightarrow> e | None \<Rightarrow> AllEndpointsFailed) \<and> h' = h
      else (\<exists>m n. failed_dials W (butlast es) (host_net h) = Some m \<and> last_failure W (last es) m err n \<and>
              h' = h\<lparr>host_net := n\<rparr>))"
proof (induction es arbitrary: l h)
  case Nil
  show ?case by (auto simp: throw_eq)
next
  case (Cons e es)
  show ?case
  proof (cases "endpoint_ok W (http_url e)")
    case False
    with Cons show ?thesis by (auto simp: last_failure_def)
  next
    case True
    obtain r m where d: "dial W (http_url e) (host_net h) = (r, m)" by (cases "dial W (http_url e) (host_net h)")
    with True Cons show ?thesis
      by (cases r) (auto simp: and_then_Inl_iff ret_eq last_failure_def)
  qed
qed

lemma discover_Inr_iff:
  "discover_and_connect D W host port pinned h = (Inr (c, v, d), h') \<longleftrightarrow>
     (\<exists>h1. fetch_and_verify D W (http_url (host_port host port)) h = (Inr v, h1) \<and>
        d = check_pin v pinned \<and> d \<noteq> Mismatch \<and>
        connect_endpoints W [host_port host (vs_grpc_port v)] h1 = (Inr c, h'))"
  by (auto simp: discover_and_connect_def and_then_Inr_iff Let_def exec_simps split: if_splits)

lemma discover_trust:
  assumes "discover_and_connect D W host port pinned h = (Inr (c, v, d), h')"
  shows "(case pinned of None \<Rightarrow> d = FirstContact | Some pin \<Rightarrow> d = Matches \<and> identity_public v = pin)"
  using assms by (auto simp: discover_Inr_iff check_pin_def split: option.splits if_splits)

section \<open>A network for the witnesses\<close>

text \<open>
  The discovery answer of the sample library, and a server that is reached through every endpoint
  but \<open>down:1\<close>; it refuses every call as unimplemented.
\<close>

definition refused :: "'n \<Rightarrow> (status + 'a) \<times> 'n" where
  "refused n = (Inl (Status Unimplemented ''''), n)"

definition sample_net :: "(nat, nat) net" where
  "sample_net =
     \<lparr>http_get = (\<lambda>url n. (Some (200, Some []), Suc n)),
      endpoint_ok = (\<lambda>url. url \<noteq> ''http://'' @ []),
      dial = (\<lambda>url n. (if url = ''http://down:1'' then Inl (Tonic_Error ''refused'') else Inr 7, Suc n)),
      metadata_ok = (\<lambda>v. True),
      rpc_bootstrap = (\<lambda>c m r. refused),
      rpc_login = (\<lambda>c m r. refused),
      rpc_get_key_material = (\<lambda>c m r. refused),
      rpc_register_device = (\<lambda>c m r. refused),
      rpc_list_my_devices = (\<lambda>c m r. refused),
      rpc_revoke_device = (\<lambda>c m r. refused),
      rpc_get_profile = (\<lambda>c m r. refused),
      rpc_update_display_name = (\<lambda>c m r. refused),
      rpc_update_email = (\<lambda>c m r. refused),
      rpc_change_password = (\<lambda>c m r. refused),
      rpc_get_avatar = (\<lambda>c m r. refused),
      rpc_set_avatar = (\<lambda>c m r. refused)\<rparr>"

lemma sample_net_fetch:
  "fetch_and_verify sample_discovery sample_net url sample_host =
     (Inr sample_server, \<lparr>host_rng = (\<lambda>i. of_nat (i + 16)), host_net = 1\<rparr>)"
proof -
  have "parse_and_verify sample_discovery [] sample_nonce = Inr sample_server"
    using sample_verified by (simp add: parse_and_verify_def) (simp add: sample_discovery_def)
  then show ?thesis
    by (simp add: fetch_and_verify_Inr_iff)
       (simp add: sample_host_def sample_net_def sample_nonce_def is_success_def)
qed

section \<open>Properties\<close>

text \<open>
  Endpoint failover. Connecting returns a channel exactly when one of the endpoints
  connects, and then it is the channel of the first one that does; the endpoints before it were all
  tried in order or skipped as invalid, and none after it was contacted.
\<close>

lemma connects_to_first_reachable:
  "connect_endpoints W es h = (Inr c, h') \<longleftrightarrow>
     (\<exists>pre e post m n'. es = pre @ e # post \<and> failed_dials W pre (host_net h) = Some m \<and>
        endpoint_ok W (http_url e) \<and> dial W (http_url e) m = (Inr c, n') \<and> h' = h\<lparr>host_net := n'\<rparr>)"
  by (cases es) (auto simp: connect_endpoints_def throw_eq connect_loop_Inr_iff first_success_def
      simp del: connect_loop.simps)

text \<open>
  Property C39: the error of a failed connect. Without endpoints it is \<open>NoEndpoints\<close>; otherwise every
  endpoint has failed, tried in order, and the error is the very one of the last endpoint: what its dial
  returned, or \<open>BadEndpoint\<close> when its address is invalid. So the errors of the others are lost and
  \<open>AllEndpointsFailed\<close> is never returned.
\<close>

theorem connect_reports_last_error:
  "connect_endpoints W es h = (Inl err, h') \<longleftrightarrow>
     (if es = [] then err = NoEndpoints \<and> h' = h
      else (\<exists>m n. failed_dials W (butlast es) (host_net h) = Some m \<and> h' = h\<lparr>host_net := n\<rparr> \<and>
              (if endpoint_ok W (http_url (last es))
               then \<exists>terr. dial W (http_url (last es)) m = (Inl terr, n) \<and> err = Transport_Error terr
               else err = BadEndpoint \<and> n = m)))"
  by (auto simp: connect_endpoints_def throw_eq connect_loop_Inl_iff last_failure_def simp del: connect_loop.simps)

text \<open>
  A changed identity is refused before anything is sent to it. When discovery verifies
  a server whose key is not the pinned one, the result is \<open>Identity_Mismatch\<close> and the network is as
  discovery left it: no channel was opened.
\<close>

lemma changed_identity_refused:
  assumes "fetch_and_verify D W (http_url (host_port host port)) h = (Inr v, h1)"
    and "pin \<noteq> identity_public v"
  shows "discover_and_connect D W host port (Some pin) h = (Inl Identity_Mismatch, h1)"
  using assms
  by (auto simp: discover_and_connect_def and_then_Inl_iff check_pin_def throw_eq map_error_Inl_iff)

text \<open>
  Property C16: a channel is only ever opened to the server that the pinned key vouches for. With a
  pin, a successful connection has the pinned identity; when that key signs only its holder's
  answers, the holder answered this call's nonce with the port that was dialled, on the host the
  user entered.
\<close>

theorem connection_is_pinned:
  assumes "discover_and_connect D W host port (Some pin) h = (Inr (c, v, d), h')"
    and "signs_only D pin answers" and "fits_u32 (vs_name v)"
  shows "d = Matches \<and> identity_public v = pin \<and>
    (encode_hex (map (host_rng h) [0..<16]), vs_grpc_port v, vs_name v) \<in> answers \<and>
    (\<exists>m n'. dial W (http_url (host_port host (vs_grpc_port v))) m = (Inr c, n') \<and> host_net h' = n')"
proof -
  obtain h1 where f: "fetch_and_verify D W (http_url (host_port host port)) h = (Inr v, h1)"
    and con: "connect_endpoints W [host_port host (vs_grpc_port v)] h1 = (Inr c, h')"
    using assms(1) by (auto simp: discover_Inr_iff)
  have pin: "d = Matches" "identity_public v = pin" using discover_trust [OF assms(1)] by simp_all
  moreover have "\<exists>n. parse_and_verify D n (encode_hex (map (host_rng h) [0..<16])) = Inr v"
    using f by (auto simp: fetch_and_verify_Inr_iff)
  then have "(encode_hex (map (host_rng h) [0..<16]), vs_grpc_port v, vs_name v) \<in> answers"
    using assms(2,3) pin
    by (auto simp: parse_and_verify_def split: option.splits intro!: verified_is_answer)
  moreover have "\<exists>m n'. dial W (http_url (host_port host (vs_grpc_port v))) m = (Inr c, n') \<and> host_net h' = n'"
    using con by (auto simp: connect_endpoints_def connect_loop_Inr_iff first_success_def Cons_eq_append_conv
        simp del: connect_loop.simps)
  ultimately show ?thesis by blast
qed

theorem connection_is_pinned_witness:
  "\<exists>h'. discover_and_connect sample_discovery sample_net ''h'' 1 (Some sample_public) sample_host
      = (Inr (7, sample_server, Matches), h') \<and>
     (encode_hex (map (host_rng sample_host) [0..<16]), vs_grpc_port sample_server, vs_name sample_server)
       \<in> {(sample_nonce, 50051, ''home'')}"
proof -
  have "check_pin sample_server (Some sample_public) = Matches"
    by (simp add: check_pin_def sample_server_def)
  moreover have "endpoint_ok sample_net (http_url (host_port ''h'' p))"
    "dial sample_net (http_url (host_port ''h'' p)) 1 = (Inr 7, 2)" for p
    by (simp_all add: sample_net_def http_url_def host_port_def)
  ultimately have run: "\<exists>h'. discover_and_connect sample_discovery sample_net ''h'' 1 (Some sample_public) sample_host
      = (Inr (7, sample_server, Matches), h')"
    by (auto simp: discover_Inr_iff sample_net_fetch connect_endpoints_def and_then_Inr_iff ret_eq)
  then obtain h' where run: "discover_and_connect sample_discovery sample_net ''h'' 1 (Some sample_public) sample_host
      = (Inr (7, sample_server, Matches), h')" by blast
  have "fits_u32 (vs_name sample_server)" by (simp add: sample_server_def)
  from connection_is_pinned [OF run sample_signs_only this] run show ?thesis by blast
qed

end
