(* ===== verification/Mock_Server.thy ===== *)
theory Mock_Server
  imports Transport
begin

text \<open>
  The account server of the facade's tests in \<open>src/client.rs\<close> (\<open>struct Mock\<close>): it issues one token,
  serves a fixed wrapped bundle, canned devices and profile, and stores the avatar. It is the
  repository's own statement of what the client expects from a server; here it provides the
  interfaces \<open>key_service\<close> and \<open>account_service\<close> and runs the witnesses of the client.
\<close>

record mock =
  mo_key_material :: key_material
  mo_avatar :: "bytes option"

definition MOCK_TOKEN :: string where
  "MOCK_TOKEN = ''tok-facade''"

definition require_token :: "string option \<Rightarrow> status + unit" where
  "require_token authorization =
     (if authorization = Some (''Bearer '' @ MOCK_TOKEN) then Inr ()
      else Inl (Status Unauthenticated ''bad token''))"

definition mock_session :: session_msg where
  "mock_session = \<lparr>sm_token = MOCK_TOKEN, sm_user_id = ''u-1'', sm_expires_at = ''2030''\<rparr>"

definition mock_bootstrap :: "(mock, 'c, bootstrap_request, session_msg) rpc" where
  "mock_bootstrap c authorization req m = (Inr mock_session, m)"

definition mock_login :: "(mock, 'c, login_request, login_response) rpc" where
  "mock_login c authorization req m = (Inr (Some (Session mock_session)), m)"

definition mock_get_key_material :: "(mock, 'c, unit, key_material option) rpc" where
  "mock_get_key_material c authorization req m =
     (case require_token authorization of
        Inl st \<Rightarrow> (Inl st, m)
      | Inr _ \<Rightarrow> (Inr (Some (mo_key_material m)), m))"

definition mock_register_device :: "(mock, 'c, device_enrollment option, device_msg) rpc" where
  "mock_register_device c authorization req m =
     (case require_token authorization of
        Inl st \<Rightarrow> (Inl st, m)
      | Inr _ \<Rightarrow>
          (let dev = (case req of
                 Some d \<Rightarrow> d
               | None \<Rightarrow> \<lparr>de_device_label = [], de_platform = [], de_device_public_key = [], de_machine_label = []\<rparr>)
           in (Inr \<lparr>dm_device_id = ''dev-2'', dm_device_label = de_device_label dev,
                 dm_platform = de_platform dev, dm_machine_id = ''m'', dm_created_at = ''2026'',
                 dm_last_seen_at = [], dm_revoked_at = []\<rparr>, m)))"

definition mock_list_my_devices :: "(mock, 'c, unit, device_msg list) rpc" where
  "mock_list_my_devices c authorization req m =
     (case require_token authorization of
        Inl st \<Rightarrow> (Inl st, m)
      | Inr _ \<Rightarrow>
          (Inr [\<lparr>dm_device_id = ''dev-1'', dm_device_label = ''Olivia'' @ [CHR 0x27] @ ''s PC'',
             dm_platform = ''windows'', dm_machine_id = ''m'', dm_created_at = ''2026'',
             dm_last_seen_at = [], dm_revoked_at = []\<rparr>], m))"

definition mock_revoke_device :: "(mock, 'c, string, unit) rpc" where
  "mock_revoke_device c authorization req m =
     (case require_token authorization of
        Inl st \<Rightarrow> (Inl st, m)
      | Inr _ \<Rightarrow> (Inr (), m))"

definition mock_verify_mfa :: "(mock, 'c, verify_mfa_request, session_msg) rpc" where
  "mock_verify_mfa c authorization req m = (Inl (Status Unimplemented ''mock''), m)"

definition mock_profile :: profile_msg where
  "mock_profile = \<lparr>pm_user_id = ''u-1'', pm_email = ''o@x'', pm_display_name = ''Olivia'',
     pm_instance_role = ''owner''\<rparr>"

definition mock_get_profile :: "(mock, 'c, unit, profile_msg) rpc" where
  "mock_get_profile c authorization req m =
     (case require_token authorization of
        Inl st \<Rightarrow> (Inl st, m)
      | Inr _ \<Rightarrow> (Inr mock_profile, m))"

definition mock_update_display_name :: "(mock, 'c, string, profile_msg) rpc" where
  "mock_update_display_name c authorization display_name m =
     (case require_token authorization of
        Inl st \<Rightarrow> (Inl st, m)
      | Inr _ \<Rightarrow> (Inr (mock_profile\<lparr>pm_display_name := display_name\<rparr>), m))"

definition mock_update_email :: "(mock, 'c, update_email_request, profile_msg) rpc" where
  "mock_update_email c authorization req m =
     (case require_token authorization of
        Inl st \<Rightarrow> (Inl st, m)
      | Inr _ \<Rightarrow> (Inr (mock_profile\<lparr>pm_email := ue_new_email req\<rparr>), m))"

definition mock_change_password :: "(mock, 'c, change_password_request, unit) rpc" where
  "mock_change_password c authorization r m =
     (case require_token authorization of
        Inl st \<Rightarrow> (Inl st, m)
      | Inr _ \<Rightarrow>
          if cp_new_master_key_wrapped r = [] \<or> cp_new_kdf_salt r = []
          then (Inl (Status InvalidArgument ''missing re-wrap''), m)
          else (Inr (), m))"

definition mock_get_avatar :: "(mock, 'c, unit, bytes) rpc" where
  "mock_get_avatar c authorization req m =
     (case require_token authorization of
        Inl st \<Rightarrow> (Inl st, m)
      | Inr _ \<Rightarrow> (Inr (case mo_avatar m of None \<Rightarrow> [] | Some a \<Rightarrow> a), m))"

definition mock_set_avatar :: "(mock, 'c, bytes, unit) rpc" where
  "mock_set_avatar c authorization avatar m =
     (case require_token authorization of
        Inl st \<Rightarrow> (Inl st, m)
      | Inr _ \<Rightarrow> (Inr (), m\<lparr>mo_avatar := Some avatar\<rparr>))"

text \<open>
  The server on a network where every endpoint reaches it, beside a discovery service with the
  given answers.
\<close>

definition mock_net :: "(string \<Rightarrow> mock \<Rightarrow> (nat \<times> bytes option) option \<times> mock) \<Rightarrow> (mock, unit) net" where
  "mock_net get =
     \<lparr>http_get = get,
      endpoint_ok = (\<lambda>url. True),
      dial = (\<lambda>url m. (Inr (), m)),
      metadata_ok = (\<lambda>v. True),
      rpc_bootstrap = mock_bootstrap,
      rpc_login = mock_login,
      rpc_get_key_material = mock_get_key_material,
      rpc_register_device = mock_register_device,
      rpc_list_my_devices = mock_list_my_devices,
      rpc_revoke_device = mock_revoke_device,
      rpc_get_profile = mock_get_profile,
      rpc_update_display_name = mock_update_display_name,
      rpc_update_email = mock_update_email,
      rpc_change_password = mock_change_password,
      rpc_get_avatar = mock_get_avatar,
      rpc_set_avatar = mock_set_avatar\<rparr>"

definition mock_blob :: "mock \<Rightarrow> bytes" where
  "mock_blob m = (case mo_avatar m of None \<Rightarrow> [] | Some a \<Rightarrow> a)"

interpretation mock_service: account_service "mock_net get" mo_key_material "\<lambda>m tok. tok = MOCK_TOKEN" mock_blob
  for get
proof
  fix c req s and n n' :: mock
  assume "rpc_login (mock_net get) c None req n = (Inr (Some (Session s)), n')"
  then show "sm_token s = MOCK_TOKEN \<and> mo_key_material n' = mo_key_material n"
    by (auto simp: mock_net_def mock_login_def mock_session_def)
qed (simp_all add: mock_net_def mock_get_key_material_def mock_get_avatar_def mock_set_avatar_def
  mock_blob_def require_token_def)

end
