(* ===== verification/Flows.thy ===== *)
theory Flows
  imports Crypto Mock_Server
begin

text \<open>
  \<open>src/flows.rs\<close>: creating the first owner and signing in, composed from the cryptography and the
  transport, and the bridge between the wire's key material and the local key bundle.
\<close>

section \<open>Types\<close>

datatype enroll_error =
    Transport_Failed transport_error
  | Crypto_Failed crypto_error
  | Mfa_Needed
  | EmptyLogin

record new_owner =
  no_email :: string
  no_display_name :: string
  no_password :: string
  no_device_label :: string
  no_platform :: string
  no_machine_label :: string

record 'c enrolled_owner =
  eo_account :: "'c account_session"
  eo_user_id :: string
  eo_secret_key :: secret_key
  eo_identity :: unlocked_identity
  eo_device_public :: bytes
  eo_device_secret :: bytes

record 'c logged_in =
  li_account :: "'c account_session"
  li_user_id :: string
  li_identity :: unlocked_identity

section \<open>The bridge\<close>

definition bundle_to_key_material :: "key_bundle \<Rightarrow> key_material" where
  "bundle_to_key_material bundle =
     \<lparr>km_x25519_public = kb_x25519_public bundle,
      km_ed25519_public = kb_ed25519_public bundle,
      km_x25519_private_wrapped = kb_x25519_private_wrapped bundle,
      km_ed25519_private_wrapped = kb_ed25519_private_wrapped bundle,
      km_master_key_wrapped = kb_master_key_wrapped bundle,
      km_kdf_salt = kb_kdf_salt bundle,
      km_kdf_params = kb_kdf_params bundle\<rparr>"

definition key_material_to_bundle :: "key_material \<Rightarrow> key_bundle" where
  "key_material_to_bundle material =
     \<lparr>kb_x25519_public = km_x25519_public material,
      kb_ed25519_public = km_ed25519_public material,
      kb_x25519_private_wrapped = km_x25519_private_wrapped material,
      kb_ed25519_private_wrapped = km_ed25519_private_wrapped material,
      kb_master_key_wrapped = km_master_key_wrapped material,
      kb_kdf_salt = km_kdf_salt material,
      kb_kdf_params = km_kdf_params material\<rparr>"

section \<open>Enrollment and sign-in\<close>

text \<open>The request of the enrollment, from what was generated.\<close>

definition owner_request :: "new_owner \<Rightarrow> bootstrap_output \<Rightarrow> device_keypair \<Rightarrow> bootstrap_request" where
  "owner_request owner boot device =
     \<lparr>br_email = no_email owner,
      br_display_name = no_display_name owner,
      br_password = no_password owner,
      br_key_material = Some (bundle_to_key_material (bo_bundle boot)),
      br_device = Some
        \<lparr>de_device_label = no_device_label owner,
         de_platform = no_platform owner,
         de_device_public_key = dk_public device,
         de_machine_label = no_machine_label owner\<rparr>\<rparr>"

definition enroll_new_owner_with_params ::
  "crypto_lib \<Rightarrow> ('n, 'c, 'y) net_scheme \<Rightarrow> 'c \<Rightarrow> new_owner \<Rightarrow> kdf_params \<Rightarrow>
     (('n, 'z) host_scheme, enroll_error, 'c enrolled_owner) exec" where
  "enroll_new_owner_with_params L W channel owner params =
     and_then (map_error Crypto_Failed (with_rng (bootstrap_identity_with_params L (no_password owner) params))) (\<lambda>boot.
     and_then (with_rng (generate_device_keypair L)) (\<lambda>device.
     and_then (map_error Transport_Failed (bootstrap_call W channel (owner_request owner boot device))) (\<lambda>session.
     ret \<lparr>eo_account = session_new channel (sm_token session),
          eo_user_id = sm_user_id session,
          eo_secret_key = bo_secret_key boot,
          eo_identity = bo_identity boot,
          eo_device_public = dk_public device,
          eo_device_secret = dk_secret device\<rparr>)))"

definition enroll_new_owner ::
  "crypto_lib \<Rightarrow> ('n, 'c, 'y) net_scheme \<Rightarrow> 'c \<Rightarrow> new_owner \<Rightarrow>
     (('n, 'z) host_scheme, enroll_error, 'c enrolled_owner) exec" where
  "enroll_new_owner L W channel owner = enroll_new_owner_with_params L W channel owner default_kdf_params"

definition login ::
  "crypto_lib \<Rightarrow> ('n, 'c, 'y) net_scheme \<Rightarrow> 'c \<Rightarrow> string \<Rightarrow> string \<Rightarrow> secret_key \<Rightarrow>
     (('n, 'z) host_scheme, enroll_error, 'c logged_in) exec" where
  "login L W channel email password sk =
     and_then (map_error Transport_Failed (login_call W channel
        \<lparr>lr_email = email, lr_password = password, lr_mfa_challenge_token = [], lr_mfa_response = []\<rparr>)) (\<lambda>response.
       (case response of
          Some (Session session) \<Rightarrow>
            (let account = session_new channel (sm_token session) in
     and_then (map_error Transport_Failed (session_key_material W account)) (\<lambda>key_material.
     and_then (lift_result (map_sum Crypto_Failed id
                 (unlock_identity L (key_material_to_bundle key_material) password sk))) (\<lambda>identity.
     ret \<lparr>li_account = account, li_user_id = sm_user_id session, li_identity = identity\<rparr>)))
        | Some (Mfa_Required _) \<Rightarrow> throw Mfa_Needed
        | None \<Rightarrow> throw EmptyLogin))"

section \<open>Lemmas\<close>

interpretation bridge: codec "\<lambda>_. True" bundle_to_key_material "\<lambda>m. Some (key_material_to_bundle m)"
  by unfold_locales (simp add: bundle_to_key_material_def key_material_to_bundle_def)

lemma bundle_material_bundle [simp]: "key_material_to_bundle (bundle_to_key_material b) = b"
  using bridge.dec_enc by simp

lemma material_bundle_material [simp]: "bundle_to_key_material (key_material_to_bundle m) = m"
  by (simp add: bundle_to_key_material_def key_material_to_bundle_def)

lemma keeps_rest_session_key_material [keeps_intros]:
  "keeps (\<lambda>h. host.more h = z) (session_key_material W a)"
  unfolding session_key_material_def by (intro keeps_intros)

lemma keeps_rest_enroll [keeps_intros]:
  "keeps (\<lambda>h. host.more h = z) (enroll_new_owner_with_params L W c owner prm)"
  unfolding enroll_new_owner_with_params_def bootstrap_call_def by (intro keeps_intros)

lemma keeps_rest_login [keeps_intros]:
  "keeps (\<lambda>h. host.more h = z) (login L W c email pw sk)"
  unfolding login_def login_call_def Let_def
  by (intro keeps_and_then keeps_map_error keeps_rest_call)
     (auto intro!: keeps_intros split: option.splits login_outcome.splits)

lemma enroll_Inr_iff:
  "enroll_new_owner_with_params L W c owner prm h = (Inr en, h') \<longleftrightarrow>
     (\<exists>boot r1 device r2 session n.
        bootstrap_identity_with_params L (no_password owner) prm (host_rng h) = (Inr boot, r1) \<and>
        generate_device_keypair L r1 = (Inr device :: enroll_error + device_keypair, r2) \<and>
        rpc_bootstrap W c None (owner_request owner boot device) (host_net h) = (Inr session, n) \<and>
        h' = h\<lparr>host_rng := r2, host_net := n\<rparr> \<and>
        en = \<lparr>eo_account = session_new c (sm_token session), eo_user_id = sm_user_id session,
              eo_secret_key = bo_secret_key boot, eo_identity = bo_identity boot,
              eo_device_public = dk_public device, eo_device_secret = dk_secret device\<rparr>)"
  (is "?L \<longleftrightarrow> ?R")
proof
  assume ?L
  then show ?R
    by (fastforce simp: enroll_new_owner_with_params_def and_then_Inr_iff bootstrap_call_def ret_eq)
next
  assume ?R
  then show ?L
    by (fastforce simp: enroll_new_owner_with_params_def and_then_Inr_iff bootstrap_call_def ret_eq)
qed

text \<open>What follows the response to the login request.\<close>

definition after_login ::
  "crypto_lib \<Rightarrow> ('n, 'c, 'y) net_scheme \<Rightarrow> 'c \<Rightarrow> string \<Rightarrow> secret_key \<Rightarrow> login_response \<Rightarrow>
     (('n, 'z) host_scheme, enroll_error, 'c logged_in) exec" where
  "after_login L W channel password sk response =
       (case response of
          Some (Session session) \<Rightarrow>
            (let account = session_new channel (sm_token session) in
     and_then (map_error Transport_Failed (session_key_material W account)) (\<lambda>key_material.
     and_then (lift_result (map_sum Crypto_Failed id
                 (unlock_identity L (key_material_to_bundle key_material) password sk))) (\<lambda>identity.
     ret \<lparr>li_account = account, li_user_id = sm_user_id session, li_identity = identity\<rparr>)))
        | Some (Mfa_Required _) \<Rightarrow> throw Mfa_Needed
        | None \<Rightarrow> throw EmptyLogin)"

lemma login_after_login:
  "login L W channel email password sk =
     and_then (map_error Transport_Failed (login_call W channel
        \<lparr>lr_email = email, lr_password = password, lr_mfa_challenge_token = [], lr_mfa_response = []\<rparr>))
       (after_login L W channel password sk)"
  unfolding login_def after_login_def ..

lemma after_login_Inr_iff:
  "after_login L W c pw sk response h = (Inr li, h') \<longleftrightarrow>
     (\<exists>session km n ident. response = Some (Session session) \<and>
        rpc_get_key_material W c (authed W (session_new c (sm_token session))) () (host_net h) = (Inr (Some km), n) \<and>
        unlock_identity L (key_material_to_bundle km) pw sk = Inr ident \<and>
        h' = h\<lparr>host_net := n\<rparr> \<and>
        li = \<lparr>li_account = session_new c (sm_token session), li_user_id = sm_user_id session, li_identity = ident\<rparr>)"
proof -
  have "as_channel (session_new c t) = c" for t by (simp add: session_new_def)
  then have "after_login L W c pw sk (Some (Session s)) h = (Inr li, h') \<longleftrightarrow>
      (\<exists>km n ident. rpc_get_key_material W c (authed W (session_new c (sm_token s))) () (host_net h) = (Inr (Some km), n) \<and>
        unlock_identity L (key_material_to_bundle km) pw sk = Inr ident \<and>
        h' = h\<lparr>host_net := n\<rparr> \<and>
        li = \<lparr>li_account = session_new c (sm_token s), li_user_id = sm_user_id s, li_identity = ident\<rparr>)" for s
    by (auto simp: after_login_def session_key_material_def and_then_Inr_iff exec_simps Let_def)
  then show ?thesis
    by (cases response rule: option.exhaust [case_product login_outcome.exhaust [of "the response"]])
       (simp_all add: after_login_def throw_eq)
qed

lemma login_Inr_iff:
  "login L W c email pw sk h = (Inr li, h') \<longleftrightarrow>
     (\<exists>session n1 km n2 ident.
        rpc_login W c None \<lparr>lr_email = email, lr_password = pw, lr_mfa_challenge_token = [], lr_mfa_response = []\<rparr>
          (host_net h) = (Inr (Some (Session session)), n1) \<and>
        rpc_get_key_material W c (authed W (session_new c (sm_token session))) () n1 = (Inr (Some km), n2) \<and>
        unlock_identity L (key_material_to_bundle km) pw sk = Inr ident \<and>
        h' = h\<lparr>host_net := n2\<rparr> \<and>
        li = \<lparr>li_account = session_new c (sm_token session), li_user_id = sm_user_id session, li_identity = ident\<rparr>)"
  by (simp add: login_after_login login_call_def and_then_Inr_iff after_login_Inr_iff) fastforce

context key_service
begin

lemma login_run:
  assumes "rpc_login W c None
      \<lparr>lr_email = email, lr_password = pw, lr_mfa_challenge_token = [], lr_mfa_response = []\<rparr> (host_net h)
      = (Inr (Some (Session s)), n)"
  shows "\<exists>n'. material n' = material (host_net h) \<and> login L W c email pw sk h =
    (map_sum Crypto_Failed
       (\<lambda>ident. \<lparr>li_account = session_new c (sm_token s), li_user_id = sm_user_id s, li_identity = ident\<rparr>)
       (unlock_identity L (key_material_to_bundle (material (host_net h))) pw sk),
     h\<lparr>host_net := n'\<rparr>)"
proof -
  from session_issued [OF assms] have s: "issued n (sm_token s)" "material n = material (host_net h)" by simp_all
  obtain n' where g: "rpc_get_key_material W c (authed W (session_new c (sm_token s))) () n
      = (Inr (Some (material (host_net h))), n')" and m: "material n' = material (host_net h)"
    using serves_material [OF s(1)] authed_issued [OF s(1)] s(2) by auto
  have ch: "as_channel (session_new c t) = c" for t by (simp add: session_new_def)
  have "login L W c email pw sk h =
    (map_sum Crypto_Failed
       (\<lambda>ident. \<lparr>li_account = session_new c (sm_token s), li_user_id = sm_user_id s, li_identity = ident\<rparr>)
       (unlock_identity L (key_material_to_bundle (material (host_net h))) pw sk),
     h\<lparr>host_net := n'\<rparr>)"
    using assms g
    by (cases "unlock_identity L (key_material_to_bundle (material (host_net h))) pw sk")
       (simp_all add: login_def login_call_def call_def with_net_def and_then_def map_error_def exec_simps
         session_key_material_def ch Let_def)
  with m show ?thesis by blast
qed

end

text \<open>What an enrollment sent, and what it returned.\<close>

lemma enrolled_request:
  assumes "lib_sound L"
    and "enroll_new_owner_with_params L W c owner prm h = (Inr en, h')"
  shows "\<exists>req session km dev.
    rpc_bootstrap W c None req (host_net h) = (Inr session, host_net h') \<and>
    br_email req = no_email owner \<and> br_key_material req = Some km \<and> br_device req = Some dev \<and>
    unlock_identity L (key_material_to_bundle km) (no_password owner) (eo_secret_key en) = Inr (eo_identity en) \<and>
    de_device_public_key dev = x25519_public L (eo_device_secret en) \<and>
    eo_account en = session_new c (sm_token session) \<and> eo_user_id en = sm_user_id session"
proof -
  obtain boot r1 device r2 session n where
    boot: "bootstrap_identity_with_params L (no_password owner) prm (host_rng h) = (Inr boot, r1)"
    and dev: "generate_device_keypair L r1 = (Inr device :: enroll_error + device_keypair, r2)"
    and req: "rpc_bootstrap W c None (owner_request owner boot device) (host_net h) = (Inr session, n)"
    and h': "h' = h\<lparr>host_rng := r2, host_net := n\<rparr>"
    and en: "en = \<lparr>eo_account = session_new c (sm_token session), eo_user_id = sm_user_id session,
        eo_secret_key = bo_secret_key boot, eo_identity = bo_identity boot,
        eo_device_public = dk_public device, eo_device_secret = dk_secret device\<rparr>"
    using assms(2) by (auto simp: enroll_Inr_iff)
  have "unlock_identity L (bo_bundle boot) (no_password owner) (bo_secret_key boot) = Inr (bo_identity boot)"
    using assms(1) boot by (rule unlock_bootstrap)
  moreover have "dk_public device = x25519_public L (dk_secret device)"
    using dev by (auto simp: generate_device_keypair_def and_then_Inr_iff ret_eq)
  ultimately show ?thesis
    using req by (intro exI [of _ "owner_request owner boot device"] exI [of _ session])
      (simp add: h' en owner_request_def)
qed

section \<open>The mock server for the witnesses\<close>

definition no_discovery :: "string \<Rightarrow> mock \<Rightarrow> (nat \<times> bytes option) option \<times> mock" where
  "no_discovery url m = (None, m)"

definition sample_owner :: new_owner where
  "sample_owner = \<lparr>no_email = ''o@x'', no_display_name = ''O'', no_password = ''a'',
     no_device_label = ''pc'', no_platform = ''linux'', no_machine_label = ''pc''\<rparr>"

definition sample_mock_host :: "mock host" where
  "sample_mock_host = \<lparr>host_rng = (\<lambda>_. 7),
     host_net = \<lparr>mo_key_material = bundle_to_key_material (bo_bundle sample_boot), mo_avatar = None\<rparr>\<rparr>"

lemma enroll_on_mock:
  "\<exists>en h'. enroll_new_owner_with_params sample_lib (mock_net g) () sample_owner sample_params sample_mock_host = (Inr en, h')"
proof -
  obtain r' where "bootstrap_identity_with_params sample_lib ''a'' sample_params (\<lambda>_. 7) = (Inr sample_boot, r')"
    using sample_boot_run by blast
  then have "\<exists>boot r1. bootstrap_identity_with_params sample_lib (no_password sample_owner) sample_params
      (host_rng sample_mock_host) = (Inr boot, r1)"
    by (auto simp: sample_owner_def sample_mock_host_def)
  moreover have "\<exists>device r2. generate_device_keypair sample_lib r1 = (Inr device :: enroll_error + device_keypair, r2)" for r1
    by (auto simp: generate_device_keypair_def and_then_Inr_iff ret_eq)
  moreover have "rpc_bootstrap (mock_net g) () None req n = (Inr mock_session, n)" for req n
    by (simp add: mock_net_def mock_bootstrap_def)
  ultimately show ?thesis by (simp add: enroll_Inr_iff) metis
qed

section \<open>Properties\<close>

text \<open>
  Property C10: what the server receives at enrollment can be unlocked. A successful enrollment made
  one \<open>Bootstrap\<close> call; the key material in it unlocks with the owner's password and the returned
  Secret Key to the returned identity, the device key in it belongs to the returned device
  secret, and the account session carries the token of the response.
\<close>

theorem enrollment_is_recoverable:
  assumes "lib_sound L"
    and "enroll_new_owner_with_params L W c owner prm h = (Inr en, h')"
  shows "\<exists>req session km dev.
    rpc_bootstrap W c None req (host_net h) = (Inr session, host_net h') \<and>
    br_email req = no_email owner \<and> br_key_material req = Some km \<and> br_device req = Some dev \<and>
    unlock_identity L (key_material_to_bundle km) (no_password owner) (eo_secret_key en) = Inr (eo_identity en) \<and>
    de_device_public_key dev = x25519_public L (eo_device_secret en) \<and>
    eo_account en = session_new c (sm_token session) \<and> eo_user_id en = sm_user_id session"
  using assms by (rule enrolled_request)

theorem enrollment_is_recoverable_witness:
  "\<exists>en h'. enroll_new_owner_with_params sample_lib (mock_net no_discovery) () sample_owner sample_params sample_mock_host = (Inr en, h') \<and>
    (\<exists>req session km dev.
      rpc_bootstrap (mock_net no_discovery) () None req (host_net sample_mock_host) = (Inr session, host_net h') \<and>
      br_email req = no_email sample_owner \<and> br_key_material req = Some km \<and> br_device req = Some dev \<and>
      unlock_identity sample_lib (key_material_to_bundle km) (no_password sample_owner) (eo_secret_key en) = Inr (eo_identity en) \<and>
      de_device_public_key dev = x25519_public sample_lib (eo_device_secret en) \<and>
      eo_account en = session_new () (sm_token session) \<and> eo_user_id en = sm_user_id session)"
proof -
  obtain en h' where run: "enroll_new_owner_with_params sample_lib (mock_net no_discovery) () sample_owner
      sample_params sample_mock_host = (Inr en, h')"
    using enroll_on_mock by blast
  from run enrollment_is_recoverable [OF sample_lib_sound run] show ?thesis by blast
qed

text \<open>
  Signing in on another device after a bootstrap. When the server serves the key
  material of the bootstrap and its login returns a session, signing in with the password and the
  Secret Key of the bootstrap unlocks the identity that was generated; with factors that do not
  unlock the material it fails with a cryptographic error, never with another identity.
\<close>

lemma login_unlocks_bootstrap:
  assumes "lib_sound L" and "key_service W material issued"
    and "bootstrap_identity_with_params L pw prm r = (Inr boot, r')"
    and "material (host_net h) = bundle_to_key_material (bo_bundle boot)"
    and "rpc_login W c None
      \<lparr>lr_email = email, lr_password = pw', lr_mfa_challenge_token = [], lr_mfa_response = []\<rparr> (host_net h)
      = (Inr (Some (Session s)), n)"
  shows "(pw' = pw \<and> sk = bo_secret_key boot \<longrightarrow>
      fst (login L W c email pw' sk h) =
        Inr \<lparr>li_account = session_new c (sm_token s), li_user_id = sm_user_id s, li_identity = bo_identity boot\<rparr>) \<and>
    (\<forall>e. unlock_identity L (bo_bundle boot) pw' sk = Inl e \<longrightarrow>
      fst (login L W c email pw' sk h) = Inl (Crypto_Failed e))"
proof -
  obtain n' where run: "login L W c email pw' sk h =
    (map_sum Crypto_Failed
       (\<lambda>ident. \<lparr>li_account = session_new c (sm_token s), li_user_id = sm_user_id s, li_identity = ident\<rparr>)
       (unlock_identity L (bo_bundle boot) pw' sk), h\<lparr>host_net := n'\<rparr>)"
    using key_service.login_run [OF assms(2,5)] assms(4) by auto
  have "unlock_identity L (bo_bundle boot) pw (bo_secret_key boot) = Inr (bo_identity boot)"
    using assms(1,3) by (rule unlock_bootstrap)
  then show ?thesis using run by auto
qed

end
