(* ===== verification/Client.thy ===== *)
theory Client
  imports Flows Storage
begin

text \<open>
  \<open>src/client.rs\<close>: the stateful client facade. Its state extends the host (random source and
  network) by the backend of the secret store and by the in-memory connection and session; every
  method is a fallible computation on that state. The lock around the in-memory part makes each
  method's access to it exclusive; here methods run one after the other.

  The libraries, the network, the store's operations and the platform name are the record \<open>env\<close>.
\<close>

section \<open>Types\<close>

datatype client_error =
    NotConnected
  | NotSignedIn
  | Connect
  | IdentityMismatch
  | CryptoFailed
  | SecretKeyRequired
  | StorageFailed
  | ServerError

datatype trust_status = First_Contact | Trusted

record connect_info =
  server_name :: string
  identity_fingerprint :: string
  ci_grpc_port :: u16
  trust :: trust_status

record enrollment =
  en_user_id :: string
  en_secret_key :: string

record device_info =
  di_device_id :: string
  di_label :: string
  di_platform :: string
  di_created_at :: string
  di_revoked :: bool

record profile =
  pr_user_id :: string
  pr_email :: string
  pr_display_name :: string
  pr_instance_role :: string

datatype sign_in_outcome = Success string | MfaRequired

record 'c inner =
  in_channel :: "'c option"
  in_verified :: "verified_server option"
  in_endpoints :: "string list"
  in_session :: "'c account_session option"
  in_identity :: "unlocked_identity option"
  in_secret_key :: "secret_key option"

record ('n, 's, 'c) client = "'n host" +
  cl_store :: 's
  cl_inner :: "'c inner"

record ('n, 's, 'c) env =
  env_crypto :: crypto_lib
  env_discovery :: discovery_lib
  env_vault :: vault_lib
  env_net :: "('n, 'c) net"
  env_store :: "'s store_ops"
  env_os :: string

type_synonym ('n, 's, 'c, 'a) client_exec = "(('n, 's, 'c) client, client_error, 'a) exec"

section \<open>Construction and access to the state\<close>

definition inner_default :: "'c inner" where
  "inner_default =
     \<lparr>in_channel = None, in_verified = None, in_endpoints = [], in_session = None,
      in_identity = None, in_secret_key = None\<rparr>"

definition client_with_store :: "'n host \<Rightarrow> 's \<Rightarrow> ('n, 's, 'c) client" where
  "client_with_store h store =
     host.extend h (client.fields store inner_default)"

text \<open>The store operations of the production constructor: the boxed OS keychain.\<close>

definition client_new_store :: "('k, 'h) keyring \<Rightarrow> string \<Rightarrow> 'k store_ops" where
  "client_new_store K svc = boxed (keychain_store K (os_keychain_new svc))"

definition on_store :: "('s, store_error, 'a) exec \<Rightarrow> ('n, 's, 'c, 'a) client_exec" where
  "on_store m = map_error (\<lambda>_. StorageFailed) (on_part cl_store cl_store_update m)"

definition get_inner :: "('n, 's, 'c, 'c inner) client_exec" where
  "get_inner = read_state cl_inner"

definition set_inner :: "('c inner \<Rightarrow> 'c inner) \<Rightarrow> ('n, 's, 'c, unit) client_exec" where
  "set_inner f = modify_state (cl_inner_update f)"

definition current_session :: "('n, 's, 'c, 'c account_session) client_exec" where
  "current_session =
     and_then get_inner (\<lambda>inner. lift_result (ok_or (in_session inner) NotSignedIn))"

text \<open>A remote call whose every failure is \<open>ServerError\<close>.\<close>

definition server_call :: "(('n, 's, 'c) client, transport_error, 'a) exec \<Rightarrow> ('n, 's, 'c, 'a) client_exec" where
  "server_call m = map_error (\<lambda>_. ServerError) m"

section \<open>Conversions and error maps\<close>

fun map_connect_err :: "connect_error \<Rightarrow> client_error" where
  "map_connect_err Identity_Mismatch = IdentityMismatch"
| "map_connect_err (Discovery e) = Connect"
| "map_connect_err (Connect_Failed e) = Connect"

fun map_enroll_err :: "enroll_error \<Rightarrow> client_error" where
  "map_enroll_err (Crypto_Failed e) = CryptoFailed"
| "map_enroll_err (Transport_Failed e) = ServerError"
| "map_enroll_err EmptyLogin = ServerError"
| "map_enroll_err Mfa_Needed = ServerError"

definition to_device_info :: "device_msg \<Rightarrow> device_info" where
  "to_device_info d =
     \<lparr>di_device_id = dm_device_id d,
      di_label = dm_device_label d,
      di_platform = dm_platform d,
      di_created_at = dm_created_at d,
      di_revoked = (dm_revoked_at d \<noteq> [])\<rparr>"

definition profile_info :: "profile_msg \<Rightarrow> profile" where
  "profile_info p =
     \<lparr>pr_user_id = pm_user_id p,
      pr_email = pm_email p,
      pr_display_name = pm_display_name p,
      pr_instance_role = pm_instance_role p\<rparr>"

definition material_to_bundle :: "key_material \<Rightarrow> key_bundle" where
  "material_to_bundle m =
     \<lparr>kb_x25519_public = km_x25519_public m,
      kb_ed25519_public = km_ed25519_public m,
      kb_x25519_private_wrapped = km_x25519_private_wrapped m,
      kb_ed25519_private_wrapped = km_ed25519_private_wrapped m,
      kb_master_key_wrapped = km_master_key_wrapped m,
      kb_kdf_salt = km_kdf_salt m,
      kb_kdf_params = km_kdf_params m\<rparr>"

definition map_change_password_err :: "transport_error \<Rightarrow> client_error" where
  "map_change_password_err err =
     (case err of
        Rpc st \<Rightarrow> if status_code st = Unauthenticated then CryptoFailed else ServerError
      | _ \<Rightarrow> ServerError)"

fun client_hex :: "bytes \<Rightarrow> string" where
  "client_hex [] = []"
| "client_hex (b # bs) = HEX ! unat (drop_bit 4 b) # HEX ! unat (b AND 0x0f) # client_hex bs"

section \<open>Caching the post-authentication state\<close>

record to_cache =
  tc_identity_public :: bytes
  tc_user_id :: string
  tc_token :: string
  tc_master_key :: master_key
  tc_secret_key :: secret_key
  tc_device_secret :: "bytes option"
  tc_endpoints :: "string list"

definition persist :: "('n, 's, 'c) env \<Rightarrow> to_cache \<Rightarrow> ('n, 's, 'c, unit) client_exec" where
  "persist E data =
     (let S = env_store E in
     and_then (on_store (vault_set_master_key S (tc_master_key data))) (\<lambda>_.
     and_then (on_store (vault_set_secret_key S (tc_secret_key data))) (\<lambda>_.
     and_then (on_store (vault_set_session_token S (tc_token data))) (\<lambda>_.
     and_then (case tc_device_secret data of
                 Some secret \<Rightarrow> on_store (vault_set_device_secret S secret)
               | None \<Rightarrow> ret ()) (\<lambda>_.
     and_then (on_store (vault_set_server_profile (env_vault E) S
                 \<lparr>sp_endpoints = tc_endpoints data,
                  sp_identity_public = tc_identity_public data,
                  sp_user_id = tc_user_id data\<rparr>)) (\<lambda>_.
     ret ()))))))"

section \<open>Connecting, enrolling, signing in\<close>

definition client_connect ::
  "('n, 's, 'c) env \<Rightarrow> string \<Rightarrow> u16 \<Rightarrow> ('n, 's, 'c, connect_info) client_exec" where
  "client_connect E host discovery_port =
     and_then (on_store (vault_server_profile (env_vault E) (env_store E))) (\<lambda>stored.
       (let pinned = map_option sp_identity_public stored in
     and_then (map_error map_connect_err
         (discover_and_connect (env_discovery E) (env_net E) host discovery_port pinned))
         (\<lambda>(channel, verified, decision).
       (let info =
          \<lparr>server_name = vs_name verified,
           identity_fingerprint = client_hex (identity_public verified),
           ci_grpc_port = vs_grpc_port verified,
           trust = (case decision of FirstContact \<Rightarrow> First_Contact | _ \<Rightarrow> Trusted)\<rparr> in
     and_then (set_inner (\<lambda>inner. inner\<lparr>in_endpoints := [host_port host discovery_port],
                 in_verified := Some verified, in_channel := Some channel\<rparr>)) (\<lambda>_.
     ret info)))))"

definition create_owner ::
  "('n, 's, 'c) env \<Rightarrow> string \<Rightarrow> string \<Rightarrow> string \<Rightarrow> string \<Rightarrow> ('n, 's, 'c, enrollment) client_exec" where
  "create_owner E email display_name password device_label =
     and_then get_inner (\<lambda>inner.
     and_then (lift_result (ok_or (in_channel inner) NotConnected)) (\<lambda>channel.
     and_then (lift_result (ok_or (in_verified inner) NotConnected)) (\<lambda>verified.
     and_then (map_error map_enroll_err (enroll_new_owner (env_crypto E) (env_net E) channel
         \<lparr>no_email = email, no_display_name = display_name, no_password = password,
          no_device_label = device_label, no_platform = env_os E, no_machine_label = device_label\<rparr>))
         (\<lambda>enrolled.
     and_then (persist E
         \<lparr>tc_identity_public = identity_public verified,
          tc_user_id = eo_user_id enrolled,
          tc_token = as_token (eo_account enrolled),
          tc_master_key = ui_master_key (eo_identity enrolled),
          tc_secret_key = eo_secret_key enrolled,
          tc_device_secret = Some (eo_device_secret enrolled),
          tc_endpoints = in_endpoints inner\<rparr>) (\<lambda>_.
     and_then (set_inner (\<lambda>inner. inner\<lparr>in_session := Some (eo_account enrolled),
                 in_identity := Some (eo_identity enrolled),
                 in_secret_key := Some (eo_secret_key enrolled)\<rparr>)) (\<lambda>_.
     ret \<lparr>en_user_id = eo_user_id enrolled, en_secret_key = sk_display (eo_secret_key enrolled)\<rparr>))))))"

text \<open>The Secret Key of a sign-in: the text the user entered, or the cached one.\<close>

definition resolve_secret_key ::
  "('n, 's, 'c) env \<Rightarrow> string option \<Rightarrow> ('n, 's, 'c, secret_key) client_exec" where
  "resolve_secret_key E entered =
     (case entered of
        Some s \<Rightarrow> lift_result (map_sum (\<lambda>_. CryptoFailed) id (sk_parse s))
      | None \<Rightarrow>
          and_then (on_store (vault_secret_key (env_store E))) (\<lambda>cached.
          lift_result (ok_or cached SecretKeyRequired)))"

definition sign_in ::
  "('n, 's, 'c) env \<Rightarrow> string \<Rightarrow> string \<Rightarrow> string option \<Rightarrow> ('n, 's, 'c, sign_in_outcome) client_exec" where
  "sign_in E email password entered =
     and_then (resolve_secret_key E entered) (\<lambda>resolved.
     and_then get_inner (\<lambda>inner.
     and_then (lift_result (ok_or (in_channel inner) NotConnected)) (\<lambda>channel.
     and_then (lift_result (ok_or (in_verified inner) NotConnected)) (\<lambda>verified.
     and_then (attempt (login (env_crypto E) (env_net E) channel email password resolved)) (\<lambda>result.
       (case result of
          Inr logged_in \<Rightarrow>
            and_then (persist E
               \<lparr>tc_identity_public = identity_public verified,
                tc_user_id = li_user_id logged_in,
                tc_token = as_token (li_account logged_in),
                tc_master_key = ui_master_key (li_identity logged_in),
                tc_secret_key = resolved,
                tc_device_secret = None,
                tc_endpoints = in_endpoints inner\<rparr>) (\<lambda>_.
            and_then (set_inner (\<lambda>inner. inner\<lparr>in_session := Some (li_account logged_in),
                        in_identity := Some (li_identity logged_in),
                        in_secret_key := Some resolved\<rparr>)) (\<lambda>_.
            ret (Success (li_user_id logged_in))))
        | Inl Mfa_Needed \<Rightarrow> ret MfaRequired
        | Inl (Crypto_Failed e) \<Rightarrow> throw CryptoFailed
        | Inl other \<Rightarrow> throw (map_enroll_err other)))))))"

section \<open>Devices and profile\<close>

definition enroll_this_device ::
  "('n, 's, 'c) env \<Rightarrow> string \<Rightarrow> ('n, 's, 'c, device_info) client_exec" where
  "enroll_this_device E label =
     and_then current_session (\<lambda>session.
     and_then (with_rng (generate_device_keypair (env_crypto E))) (\<lambda>device.
     and_then (server_call (session_register_device (env_net E) session
         \<lparr>de_device_label = label, de_platform = env_os E, de_device_public_key = dk_public device,
          de_machine_label = label\<rparr>)) (\<lambda>enrolled.
     and_then (on_store (vault_set_device_secret (env_store E) (dk_secret device))) (\<lambda>_.
     ret (to_device_info enrolled)))))"

definition list_devices :: "('n, 's, 'c) env \<Rightarrow> ('n, 's, 'c, device_info list) client_exec" where
  "list_devices E =
     and_then current_session (\<lambda>session.
     and_then (server_call (session_list_devices (env_net E) session)) (\<lambda>devices.
     ret (map to_device_info devices)))"

definition revoke_device :: "('n, 's, 'c) env \<Rightarrow> string \<Rightarrow> ('n, 's, 'c, unit) client_exec" where
  "revoke_device E device_id =
     and_then current_session (\<lambda>session.
     and_then (server_call (session_revoke_device (env_net E) session device_id)) (\<lambda>_.
     ret ()))"

definition get_profile :: "('n, 's, 'c) env \<Rightarrow> ('n, 's, 'c, profile) client_exec" where
  "get_profile E =
     and_then current_session (\<lambda>session.
     and_then (server_call (session_get_profile (env_net E) session)) (\<lambda>p.
     ret (profile_info p)))"

definition update_display_name ::
  "('n, 's, 'c) env \<Rightarrow> string \<Rightarrow> ('n, 's, 'c, profile) client_exec" where
  "update_display_name E display_name =
     and_then current_session (\<lambda>session.
     and_then (server_call (session_update_display_name (env_net E) session display_name)) (\<lambda>p.
     ret (profile_info p)))"

definition update_email ::
  "('n, 's, 'c) env \<Rightarrow> string \<Rightarrow> string \<Rightarrow> ('n, 's, 'c, profile) client_exec" where
  "update_email E new_email current_password =
     and_then current_session (\<lambda>session.
     and_then (server_call (session_update_email (env_net E) session new_email current_password)) (\<lambda>p.
     ret (profile_info p)))"

definition change_password ::
  "('n, 's, 'c) env \<Rightarrow> string \<Rightarrow> string \<Rightarrow> ('n, 's, 'c, unit) client_exec" where
  "change_password E current_password new_password =
     and_then (on_store (vault_secret_key (env_store E))) (\<lambda>cached.
     and_then (lift_result (ok_or cached SecretKeyRequired)) (\<lambda>sk.
     and_then current_session (\<lambda>session.
     and_then (server_call (session_key_material (env_net E) session)) (\<lambda>material.
       (let bundle = material_to_bundle material in
     and_then (lift_result (map_sum (\<lambda>_. CryptoFailed) id
         (unlock_identity (env_crypto E) bundle current_password sk))) (\<lambda>unlocked.
     and_then (map_error (\<lambda>_. CryptoFailed) (with_rng (rewrap_master_key (env_crypto E)
         (ui_master_key unlocked) sk new_password default_kdf_params))) (\<lambda>rewrapped.
     and_then (map_error map_change_password_err (session_change_password (env_net E) session
         \<lparr>cp_current_password = current_password,
          cp_new_password = new_password,
          cp_new_master_key_wrapped = rw_master_key_wrapped rewrapped,
          cp_new_kdf_salt = rw_kdf_salt rewrapped,
          cp_new_kdf_params = rw_kdf_params rewrapped\<rparr>)) (\<lambda>_.
     ret ()))))))))"

section \<open>Avatar\<close>

definition get_avatar :: "('n, 's, 'c) env \<Rightarrow> ('n, 's, 'c, bytes option) client_exec" where
  "get_avatar E =
     and_then (on_store (vault_master_key (env_store E))) (\<lambda>cached.
     and_then (lift_result (ok_or cached NotSignedIn)) (\<lambda>master.
     and_then current_session (\<lambda>session.
     and_then (server_call (session_get_avatar (env_net E) session)) (\<lambda>blob.
       (case blob of
          Some b \<Rightarrow>
            and_then (lift_result (map_sum (\<lambda>_. CryptoFailed) id (open_with_master (env_crypto E) master b)))
              (\<lambda>png. ret (Some png))
        | None \<Rightarrow> ret None)))))"

definition set_avatar :: "('n, 's, 'c) env \<Rightarrow> bytes \<Rightarrow> ('n, 's, 'c, unit) client_exec" where
  "set_avatar E png =
     and_then (on_store (vault_master_key (env_store E))) (\<lambda>cached.
     and_then (lift_result (ok_or cached NotSignedIn)) (\<lambda>master.
     and_then (map_error (\<lambda>_. CryptoFailed) (with_rng (seal_with_master (env_crypto E) master png))) (\<lambda>sealed.
     and_then current_session (\<lambda>session.
     and_then (server_call (session_set_avatar (env_net E) session sealed)) (\<lambda>_.
     ret ())))))"

section \<open>Signing out, forgetting, restoring\<close>

definition sign_out :: "('n, 's, 'c) env \<Rightarrow> ('n, 's, 'c, unit) client_exec" where
  "sign_out E =
     and_then (on_store (vault_clear_session (env_store E))) (\<lambda>_.
     and_then (set_inner (\<lambda>_. inner_default)) (\<lambda>_. ret ()))"

definition forget_server :: "('n, 's, 'c) env \<Rightarrow> ('n, 's, 'c, unit) client_exec" where
  "forget_server E =
     and_then (on_store (vault_clear (env_store E))) (\<lambda>_.
     and_then (set_inner (\<lambda>_. inner_default)) (\<lambda>_. ret ()))"

definition restore :: "('n, 's, 'c) env \<Rightarrow> ('n, 's, 'c, string option) client_exec" where
  "restore E =
     and_then (on_store (vault_server_profile (env_vault E) (env_store E))) (\<lambda>stored.
       (case stored of
          None \<Rightarrow> ret None
        | Some profile \<Rightarrow>
     and_then (on_store (vault_session_token (env_store E))) (\<lambda>cached.
       (case cached of
          None \<Rightarrow> ret None
        | Some token \<Rightarrow>
       (case sp_endpoints profile of
          [] \<Rightarrow> ret None
        | endpoint # _ \<Rightarrow>
       (case rsplit_once (CHR '':'') endpoint of
          None \<Rightarrow> ret None
        | Some (host, port) \<Rightarrow>
       (case parse_u16 port of
          None \<Rightarrow> ret None
        | Some discovery_port \<Rightarrow>
     and_then (attempt (discover_and_connect (env_discovery E) (env_net E) host discovery_port
         (Some (sp_identity_public profile)))) (\<lambda>result.
       (case result of
          Inl e \<Rightarrow> ret None
        | Inr (channel, verified, decision) \<Rightarrow>
            and_then (set_inner (\<lambda>inner. inner\<lparr>in_endpoints := sp_endpoints profile,
                in_session := Some (session_new channel token),
                in_verified := Some verified, in_channel := Some channel\<rparr>)) (\<lambda>_.
            ret (Some (sp_user_id profile))))))))))))"

end
