(* ===== verification/Client_Pin.thy ===== *)
theory Client_Pin
  imports Client
begin

text \<open>
  Trust on first use over the whole life of a client: the facade's operations as steps, the states
  they reach, and the invariant that the connected server is the pinned one. The pin changes only
  when the server is forgotten.
\<close>

section \<open>Parts of the client state\<close>

lemma on_store_Inr_iff [simp]:
  "on_store m s = (Inr x, s') \<longleftrightarrow> (\<exists>t. m (cl_store s) = (Inr x, t) \<and> s' = s\<lparr>cl_store := t\<rparr>)"
  by (auto simp: on_store_def on_part_iff)

lemma on_store_Inl_iff [simp]:
  "on_store m s = (Inl e, s') \<longleftrightarrow>
     (\<exists>e' t. m (cl_store s) = (Inl e', t) \<and> e = StorageFailed \<and> s' = s\<lparr>cl_store := t\<rparr>)"
  by (auto simp: on_store_def map_error_Inl_iff on_part_iff)

lemma get_inner_steps: "and_then get_inner f s = f (cl_inner s) s"
  by (simp add: get_inner_def exec_steps)

lemma set_inner_steps: "and_then (set_inner f) g s = g () (s\<lparr>cl_inner := f (cl_inner s)\<rparr>)"
  by (cases s) (simp add: set_inner_def and_then_def modify_state_def)

lemma current_session_iff [simp]:
  "current_session s = (Inr a, s') \<longleftrightarrow> in_session (cl_inner s) = Some a \<and> s' = s"
  "current_session s = (Inl e, s') \<longleftrightarrow> in_session (cl_inner s) = None \<and> e = NotSignedIn \<and> s' = s"
  by (auto simp: current_session_def get_inner_steps lift_result_eq ok_or_def split: option.splits)

lemma server_call_Inr_iff [simp]: "server_call m s = (Inr x, s') \<longleftrightarrow> m s = (Inr x, s')"
  by (simp add: server_call_def)

text \<open>What only touches the host leaves the store and the in-memory state alone.\<close>

lemma client_parts_more:
  "host.more s' = host.more s \<Longrightarrow> cl_store s' = cl_store s \<and> cl_inner s' = cl_inner s"
  by (cases s; cases s') simp

section \<open>Steps\<close>

datatype client_op =
    Op_Connect string u16
  | Op_Create_Owner string string string string
  | Op_Sign_In string string "string option"
  | Op_Enroll_This_Device string
  | Op_List_Devices
  | Op_Revoke_Device string
  | Op_Get_Profile
  | Op_Update_Display_Name string
  | Op_Update_Email string string
  | Op_Change_Password string string
  | Op_Get_Avatar
  | Op_Set_Avatar bytes
  | Op_Sign_Out
  | Op_Forget_Server
  | Op_Restore

text \<open>The state after an operation, whatever it returns.\<close>

fun run_op :: "('n, 's, 'c) env \<Rightarrow> client_op \<Rightarrow> ('n, 's, 'c) client \<Rightarrow> ('n, 's, 'c) client" where
  "run_op E (Op_Connect host port) s = snd (client_connect E host port s)"
| "run_op E (Op_Create_Owner email name pw label) s = snd (create_owner E email name pw label s)"
| "run_op E (Op_Sign_In email pw sk) s = snd (sign_in E email pw sk s)"
| "run_op E (Op_Enroll_This_Device label) s = snd (enroll_this_device E label s)"
| "run_op E Op_List_Devices s = snd (list_devices E s)"
| "run_op E (Op_Revoke_Device d) s = snd (revoke_device E d s)"
| "run_op E Op_Get_Profile s = snd (get_profile E s)"
| "run_op E (Op_Update_Display_Name name) s = snd (update_display_name E name s)"
| "run_op E (Op_Update_Email email pw) s = snd (update_email E email pw s)"
| "run_op E (Op_Change_Password old new) s = snd (change_password E old new s)"
| "run_op E Op_Get_Avatar s = snd (get_avatar E s)"
| "run_op E (Op_Set_Avatar png) s = snd (set_avatar E png s)"
| "run_op E Op_Sign_Out s = snd (sign_out E s)"
| "run_op E Op_Forget_Server s = snd (forget_server E s)"
| "run_op E Op_Restore s = snd (restore E s)"

text \<open>The states a client reaches from a start, with the operations that were run.\<close>

inductive reaches ::
  "('n, 's, 'c) env \<Rightarrow> ('n, 's, 'c) client \<Rightarrow> client_op list \<Rightarrow> ('n, 's, 'c) client \<Rightarrow> bool"
  for E and s0 where
  start: "reaches E s0 [] s0"
| step: "reaches E s0 ops s \<Longrightarrow> reaches E s0 (ops @ [op]) (run_op E op s)"

section \<open>The pin\<close>

definition stored_pin :: "('n, 's, 'c) env \<Rightarrow> ('s \<Rightarrow> string \<Rightarrow> bytes option) \<Rightarrow> ('n, 's, 'c) client \<Rightarrow> bytes option" where
  "stored_pin E view s =
     (case view (cl_store s) SERVER_PROFILE of
        None \<Rightarrow> None
      | Some b \<Rightarrow> map_option sp_identity_public (profile_json_read (env_vault E) b))"

definition pin_ok :: "('n, 's, 'c) env \<Rightarrow> ('s \<Rightarrow> string \<Rightarrow> bytes option) \<Rightarrow> ('n, 's, 'c) client \<Rightarrow> bool" where
  "pin_ok E view s \<longleftrightarrow>
     (case stored_pin E view s of
        None \<Rightarrow> True
      | Some pin \<Rightarrow>
          (case in_verified (cl_inner s) of None \<Rightarrow> True | Some v \<Rightarrow> identity_public v = pin))"

text \<open>What a quiet operation leaves alone: the profile entry and the verified server.\<close>

definition quiet_at ::
  "('s \<Rightarrow> string \<Rightarrow> bytes option) \<Rightarrow> bytes option \<Rightarrow> verified_server option \<Rightarrow> ('n, 's, 'c) client \<Rightarrow> bool" where
  "quiet_at view a v s \<longleftrightarrow> view (cl_store s) SERVER_PROFILE = a \<and> in_verified (cl_inner s) = v"

lemma quiet_host:
  assumes "\<And>z. keeps (\<lambda>h. host.more h = z) m"
  shows "keeps (quiet_at view a v) m"
proof (rule keepsI)
  fix s r s'
  assume q: "quiet_at view a v s" and run: "m s = (r, s')"
  have "host.more s' = host.more s"
    using keepsD [OF assms [of "host.more s"] refl run] .
  then show "quiet_at view a v s'"
    using q client_parts_more [of s' s] by (simp add: quiet_at_def)
qed

lemma quiet_store:
  assumes "\<And>t r t'. m t = (r, t') \<Longrightarrow> view t' SERVER_PROFILE = view t SERVER_PROFILE"
  shows "keeps (quiet_at view a v) (on_store m)"
proof (rule keepsI)
  fix s r s'
  assume q: "quiet_at view a v s" and run: "on_store m s = (r, s')"
  obtain q1 t where m: "m (cl_store s) = (q1, t)" by (cases "m (cl_store s)")
  have "s' = s\<lparr>cl_store := t\<rparr>" using run m by (cases r) auto
  with q assms [OF m] show "quiet_at view a v s'" by (simp add: quiet_at_def)
qed

lemma quiet_session: "keeps P current_session"
  unfolding current_session_def get_inner_def by (intro keeps_intros)

lemma quiet_call: "keeps P m \<Longrightarrow> keeps P (server_call m)"
  unfolding server_call_def by (rule keeps_map_error)

lemma quiet_set_inner:
  "(\<And>i. in_verified (f i) = in_verified i) \<Longrightarrow> keeps (quiet_at view a v) (set_inner f)"
  unfolding set_inner_def by (rule keeps_modify) (simp add: quiet_at_def)

lemmas quiet_rules = keeps_and_then keeps_ret keeps_throw keeps_lift_result quiet_session quiet_call
  keeps_map_error keeps_attempt quiet_host keeps_intros

section \<open>Quiet operations\<close>

text \<open>
  Each of these leaves the profile entry and the verified server alone. The store is one that keeps
  the contract \<open>secret_store\<close>.
\<close>

context secret_store
begin

lemma quiet_get: "keeps (quiet_at view a v) (on_store (and_then (store_get S k) (decode_stored dec)))"
  by (rule quiet_store) (auto dest: read_entry_keeps)

lemma quiet_set: "k \<noteq> SERVER_PROFILE \<Longrightarrow> keeps (quiet_at view a v) (on_store (store_set S k b))"
  by (rule quiet_store) (auto dest: set_other)

lemma quiet_getters:
  "keeps (quiet_at view a v) (on_store (vault_server_profile J S))"
  "keeps (quiet_at view a v) (on_store (vault_master_key S))"
  "keeps (quiet_at view a v) (on_store (vault_secret_key S))"
  "keeps (quiet_at view a v) (on_store (vault_session_token S))"
  by (simp_all add: vault_server_profile_def vault_master_key_def vault_secret_key_def
      vault_session_token_def quiet_get)

lemma quiet_setters:
  "keeps (quiet_at view a v) (on_store (vault_set_master_key S mk))"
  "keeps (quiet_at view a v) (on_store (vault_set_secret_key S sk))"
  "keeps (quiet_at view a v) (on_store (vault_set_session_token S tok))"
  "keeps (quiet_at view a v) (on_store (vault_set_device_secret S dev))"
  by (simp_all add: vault_set_master_key_def vault_set_secret_key_def vault_set_session_token_def
      vault_set_device_secret_def quiet_set entry_names)

lemma quiet_clear_session: "keeps (quiet_at view a v) (on_store (vault_clear_session S))"
proof (rule quiet_store)
  fix t r t'
  assume "vault_clear_session S t = (r, t')"
  then have "delete_all S [SESSION_TOKEN, MASTER_KEY] t = (r, t')"
    by (simp only: vault_clear_session_keys)
  moreover have "SERVER_PROFILE \<notin> set [SESSION_TOKEN, MASTER_KEY]" by (simp add: entry_names)
  ultimately show "view t' SERVER_PROFILE = view t SERVER_PROFILE" by (rule delete_all_other)
qed

end

lemma quiet_calls:
  "keeps (\<lambda>h. host.more h = z) (session_register_device W a d)"
  "keeps (\<lambda>h. host.more h = z) (session_list_devices W a)"
  "keeps (\<lambda>h. host.more h = z) (session_revoke_device W a i)"
  "keeps (\<lambda>h. host.more h = z) (session_get_profile W a)"
  "keeps (\<lambda>h. host.more h = z) (session_update_display_name W a n)"
  "keeps (\<lambda>h. host.more h = z) (session_update_email W a e p)"
  "keeps (\<lambda>h. host.more h = z) (session_change_password W a r)"
  "keeps (\<lambda>h. host.more h = z) (session_get_avatar W a)"
  "keeps (\<lambda>h. host.more h = z) (session_set_avatar W a b)"
  unfolding session_register_device_def session_list_devices_def session_revoke_device_def
    session_get_profile_def session_update_display_name_def session_update_email_def
    session_change_password_def session_get_avatar_def session_set_avatar_def
  by (intro keeps_intros)+

lemmas quiet_intros = keeps_and_then keeps_ret keeps_throw keeps_lift_result quiet_session quiet_call
  keeps_map_error keeps_attempt quiet_host [OF keeps_rest_rng] quiet_host [OF keeps_rest_discover]
  quiet_host [OF keeps_rest_login] quiet_host [OF keeps_rest_enroll]
  quiet_host [OF keeps_rest_session_key_material] quiet_calls [THEN quiet_host]

lemma quiet_ops:
  assumes "secret_store (env_store E) view"
  shows "keeps (quiet_at view a v) (enroll_this_device E label)"
    and "keeps (quiet_at view a v) (list_devices E)"
    and "keeps (quiet_at view a v) (revoke_device E device)"
    and "keeps (quiet_at view a v) (get_profile E)"
    and "keeps (quiet_at view a v) (update_display_name E name)"
    and "keeps (quiet_at view a v) (update_email E email pw)"
    and "keeps (quiet_at view a v) (change_password E old new)"
    and "keeps (quiet_at view a v) (set_avatar E png)"
  unfolding enroll_this_device_def list_devices_def revoke_device_def get_profile_def
    update_display_name_def update_email_def change_password_def set_avatar_def Let_def
  by (intro quiet_intros secret_store.quiet_getters [OF assms] secret_store.quiet_setters [OF assms])+

lemma quiet_get_avatar:
  assumes "secret_store (env_store E) view"
  shows "keeps (quiet_at view a v) (get_avatar E)"
proof -
  have "keeps (quiet_at view a v)
      (case blob of Some b \<Rightarrow> and_then (lift_result r) (\<lambda>png. ret (Some png)) | None \<Rightarrow> ret None)"
    for blob r by (cases blob) (simp_all add: quiet_intros)
  then show ?thesis
    unfolding get_avatar_def
    by (intro keeps_and_then quiet_session quiet_call keeps_lift_result secret_store.quiet_getters [OF assms]
        quiet_calls [THEN quiet_host])
       (auto intro: quiet_intros split: option.split)
qed

section \<open>The abstract trust machine\<close>

text \<open>
  What the facade promises about trust: a pin and the server it is connected to. Connecting and
  resuming may only meet the pinned server; enrolling and signing in pin the server that was met;
  signing out leaves it; only forgetting drops the pin.
\<close>

record trust =
  ts_pin :: "bytes option"
  ts_server :: "bytes option"

inductive trust_step :: "client_op \<Rightarrow> trust \<Rightarrow> trust \<Rightarrow> bool" where
  stay: "trust_step op t t"
| meet: "ts_pin t = None \<or> ts_pin t = Some k \<Longrightarrow> trust_step (Op_Connect host port) t (t\<lparr>ts_server := Some k\<rparr>)"
| resume: "ts_pin t = Some k \<Longrightarrow> trust_step Op_Restore t (t\<lparr>ts_server := Some k\<rparr>)"
| enroll: "ts_server t = Some k \<Longrightarrow> trust_step (Op_Create_Owner email name pw label) t (t\<lparr>ts_pin := Some k\<rparr>)"
| login: "ts_server t = Some k \<Longrightarrow> trust_step (Op_Sign_In email pw sk) t (t\<lparr>ts_pin := Some k\<rparr>)"
| leave: "trust_step Op_Sign_Out t (t\<lparr>ts_server := None\<rparr>)"
| forget: "trust_step Op_Forget_Server t \<lparr>ts_pin = None, ts_server = None\<rparr>"

inductive_cases trust_stepE: "trust_step op t t'"

definition trust_ok :: "trust \<Rightarrow> bool" where
  "trust_ok t \<longleftrightarrow> ts_pin t = None \<or> ts_server t = None \<or> ts_pin t = ts_server t"

lemma trust_step_ok: "trust_step op t t' \<Longrightarrow> trust_ok t \<Longrightarrow> trust_ok t'"
  by (induction rule: trust_step.induct) (auto simp: trust_ok_def)

lemma trust_step_pin:
  "trust_step op t t' \<Longrightarrow> trust_ok t \<Longrightarrow> op \<noteq> Op_Forget_Server \<Longrightarrow> ts_pin t = Some k \<Longrightarrow> ts_pin t' = Some k"
  by (induction rule: trust_step.induct) (auto simp: trust_ok_def)

lemma trust_step_new_pin:
  "trust_step op t t' \<Longrightarrow> ts_pin t = None \<Longrightarrow> ts_pin t' = Some k \<Longrightarrow> ts_server t = Some k"
  by (induction rule: trust_step.induct) auto

text \<open>The trust state of a client.\<close>

definition trust_of :: "('n, 's, 'c) env \<Rightarrow> ('s \<Rightarrow> string \<Rightarrow> bytes option) \<Rightarrow> ('n, 's, 'c) client \<Rightarrow> trust" where
  "trust_of E view s =
     \<lparr>ts_pin = stored_pin E view s, ts_server = map_option identity_public (in_verified (cl_inner s))\<rparr>"

lemma pin_ok_trust: "pin_ok E view s \<longleftrightarrow> trust_ok (trust_of E view s)"
  by (auto simp: pin_ok_def trust_ok_def trust_of_def split: option.splits)

lemma trust_of_quiet:
  assumes "keeps (quiet_at view (view (cl_store s) SERVER_PROFILE) (in_verified (cl_inner s))) m"
  shows "trust_of E view (snd (m s)) = trust_of E view s"
proof -
  obtain r s' where run: "m s = (r, s')" by (cases "m s")
  have "quiet_at view (view (cl_store s) SERVER_PROFILE) (in_verified (cl_inner s)) s'"
    by (rule keepsD [OF assms _ run]) (simp add: quiet_at_def)
  then show ?thesis using run by (simp add: trust_of_def stored_pin_def quiet_at_def)
qed

section \<open>Operations that change trust\<close>

text \<open>While a server is known, these keep its identity and pin nothing but it.\<close>

definition pins_at ::
  "('n, 's, 'c) env \<Rightarrow> ('s \<Rightarrow> string \<Rightarrow> bytes option) \<Rightarrow> bytes option \<Rightarrow> verified_server \<Rightarrow>
     ('n, 's, 'c) client \<Rightarrow> bool" where
  "pins_at E view p v s \<longleftrightarrow> in_verified (cl_inner s) = Some v \<and>
     (stored_pin E view s = p \<or> stored_pin E view s = Some (identity_public v))"

lemma pins_quiet:
  assumes "\<And>a. keeps (quiet_at view a (Some v)) m"
  shows "keeps (pins_at E view p v) m"
proof (rule keepsI)
  fix s r s'
  assume s: "pins_at E view p v s" and run: "m s = (r, s')"
  have "quiet_at view (view (cl_store s) SERVER_PROFILE) (Some v) s'"
    using assms _ run by (rule keepsD) (use s in \<open>simp add: quiet_at_def pins_at_def\<close>)
  with s show "pins_at E view p v s'"
    by (simp add: pins_at_def stored_pin_def quiet_at_def)
qed

lemma pins_profile:
  assumes "atomic_store (env_store E) view" and "profile_json_sound (env_vault E)"
    and "sp_identity_public prof = identity_public v"
  shows "keeps (pins_at E view p v) (on_store (vault_set_server_profile (env_vault E) (env_store E) prof))"
proof (rule keepsI)
  fix s r s'
  assume s: "pins_at E view p v s"
    and run: "on_store (vault_set_server_profile (env_vault E) (env_store E) prof) s = (r, s')"
  note contract = atomic_store.axioms(1) [OF assms(1)]
  obtain q t where vault: "vault_set_server_profile (env_vault E) (env_store E) prof (cl_store s) = (q, t)"
    by (cases "vault_set_server_profile (env_vault E) (env_store E) prof (cl_store s)")
  then have s': "s' = s\<lparr>cl_store := t\<rparr>" using run by (cases r) auto
  have "stored_pin E view s' = stored_pin E view s \<or> stored_pin E view s' = Some (identity_public v)"
  proof (cases "profile_json_write (env_vault E) prof")
    case None
    then have "t = cl_store s" using vault by (simp add: vault_set_server_profile_def exec_steps throw_eq)
    then show ?thesis by (simp add: s')
  next
    case (Some json)
    then have set: "store_set (env_store E) SERVER_PROFILE json (cl_store s) = (q, t)"
      using vault by (simp add: vault_set_server_profile_def exec_steps)
    show ?thesis
    proof (cases q)
      case (Inl e)
      then have "view t SERVER_PROFILE = view (cl_store s) SERVER_PROFILE"
        using set atomic_store.set_failed [OF assms(1)] by blast
      then show ?thesis by (simp add: s' stored_pin_def)
    next
      case (Inr u)
      then have "view t SERVER_PROFILE = Some json"
        using set secret_store.set_ok [OF contract] by simp
      moreover have "profile_json_read (env_vault E) json = Some prof"
        using assms(2) Some by (simp add: profile_json_sound_def)
      ultimately show ?thesis by (simp add: s' stored_pin_def assms(3))
    qed
  qed
  with s show "pins_at E view p v s'" by (auto simp: pins_at_def s')
qed

lemma pins_persist:
  assumes "atomic_store (env_store E) view" and "profile_json_sound (env_vault E)"
    and "tc_identity_public data = identity_public v"
  shows "keeps (pins_at E view p v) (persist E data)"
proof -
  note contract = atomic_store.axioms(1) [OF assms(1)]
  have dev: "keeps (pins_at E view p v)
      (case tc_device_secret data of Some secret \<Rightarrow> on_store (vault_set_device_secret (env_store E) secret) | None \<Rightarrow> ret ())"
    by (cases "tc_device_secret data")
       (simp_all add: keeps_ret pins_quiet secret_store.quiet_setters [OF contract])
  show ?thesis
    unfolding persist_def Let_def
    by (intro keeps_and_then keeps_ret dev secret_store.quiet_setters [OF contract, THEN pins_quiet]
        pins_profile [OF assms(1,2)]) (simp_all add: assms(3))
qed

lemma trust_of_pins:
  assumes "in_verified (cl_inner s) = Some v"
    and "keeps (pins_at E view (stored_pin E view s) v) m"
  shows "trust_of E view (snd (m s)) = trust_of E view s \<or>
    trust_of E view (snd (m s)) = (trust_of E view s)\<lparr>ts_pin := Some (identity_public v)\<rparr>"
proof -
  obtain r s' where run: "m s = (r, s')" by (cases "m s")
  have "pins_at E view (stored_pin E view s) v s'"
    using assms(2) _ run by (rule keepsD) (simp add: pins_at_def assms(1))
  then show ?thesis using run assms(1) by (auto simp: trust_of_def pins_at_def)
qed

lemma pins_set_inner:
  "(\<And>i. in_verified (f i) = in_verified i) \<Longrightarrow> keeps (pins_at E view p v) (set_inner f)"
  by (rule pins_quiet) (rule quiet_set_inner)

lemma create_owner_trust:
  assumes "atomic_store (env_store E) view" and "profile_json_sound (env_vault E)"
  shows "trust_step (Op_Create_Owner email name pw label) (trust_of E view s)
    (trust_of E view (run_op E (Op_Create_Owner email name pw label) s))"
proof (cases "in_channel (cl_inner s) = None \<or> in_verified (cl_inner s) = None")
  case True
  then have "snd (create_owner E email name pw label s) = s"
    by (cases "in_channel (cl_inner s)") (auto simp: create_owner_def get_inner_steps exec_steps throw_eq)
  then show ?thesis by (simp add: trust_step.stay)
next
  case False
  then obtain c v where cv: "in_channel (cl_inner s) = Some c" "in_verified (cl_inner s) = Some v" by auto
  let ?m = "and_then (map_error map_enroll_err (enroll_new_owner (env_crypto E) (env_net E) c
         \<lparr>no_email = email, no_display_name = name, no_password = pw,
          no_device_label = label, no_platform = env_os E, no_machine_label = label\<rparr>))
         (\<lambda>enrolled.
     and_then (persist E
         \<lparr>tc_identity_public = identity_public v,
          tc_user_id = eo_user_id enrolled,
          tc_token = as_token (eo_account enrolled),
          tc_master_key = ui_master_key (eo_identity enrolled),
          tc_secret_key = eo_secret_key enrolled,
          tc_device_secret = Some (eo_device_secret enrolled),
          tc_endpoints = in_endpoints (cl_inner s)\<rparr>) (\<lambda>_.
     and_then (set_inner (\<lambda>inner. inner\<lparr>in_session := Some (eo_account enrolled),
                 in_identity := Some (eo_identity enrolled),
                 in_secret_key := Some (eo_secret_key enrolled)\<rparr>)) (\<lambda>_.
     ret \<lparr>en_user_id = eo_user_id enrolled, en_secret_key = sk_display (eo_secret_key enrolled)\<rparr>)))"
  have "create_owner E email name pw label s = ?m s"
    by (simp add: create_owner_def get_inner_steps exec_steps cv)
  moreover have "keeps (pins_at E view p v) ?m" for p
    unfolding enroll_new_owner_def
    by (intro keeps_and_then keeps_map_error keeps_ret pins_quiet [OF quiet_host [OF keeps_rest_enroll]]
        pins_persist [OF assms] pins_set_inner) simp_all
  ultimately show ?thesis
    using trust_of_pins [OF cv(2), of E view ?m] trust_step.enroll [of "trust_of E view s" "identity_public v"]
    by (auto simp: trust_step.stay trust_of_def cv(2))
qed

lemma resolve_secret_key_quiet:
  "secret_store (env_store E) view \<Longrightarrow> keeps (quiet_at view a v) (resolve_secret_key E entered)"
  unfolding resolve_secret_key_def
  by (cases entered) (auto intro!: quiet_intros secret_store.quiet_getters)

lemma resolve_secret_key_inner:
  "resolve_secret_key E entered s = (r, s') \<Longrightarrow> cl_inner s' = cl_inner s"
  by (cases entered; cases r)
     (auto simp: resolve_secret_key_def and_then_Inr_iff and_then_Inl_iff lift_result_eq)

text \<open>What sign-in does once the Secret Key and the connection are known.\<close>

definition signed_in ::
  "('n, 's, 'c) env \<Rightarrow> verified_server \<Rightarrow> string list \<Rightarrow> secret_key \<Rightarrow> enroll_error + 'c logged_in \<Rightarrow>
     ('n, 's, 'c, sign_in_outcome) client_exec" where
  "signed_in E verified endpoints resolved result =
       (case result of
          Inr logged_in \<Rightarrow>
            and_then (persist E
               \<lparr>tc_identity_public = identity_public verified,
                tc_user_id = li_user_id logged_in,
                tc_token = as_token (li_account logged_in),
                tc_master_key = ui_master_key (li_identity logged_in),
                tc_secret_key = resolved,
                tc_device_secret = None,
                tc_endpoints = endpoints\<rparr>) (\<lambda>_.
            and_then (set_inner (\<lambda>inner. inner\<lparr>in_session := Some (li_account logged_in),
                        in_identity := Some (li_identity logged_in),
                        in_secret_key := Some resolved\<rparr>)) (\<lambda>_.
            ret (Success (li_user_id logged_in))))
        | Inl Mfa_Needed \<Rightarrow> ret MfaRequired
        | Inl (Crypto_Failed e) \<Rightarrow> throw CryptoFailed
        | Inl other \<Rightarrow> throw (map_enroll_err other))"

lemma sign_in_signed_in:
  "sign_in E email pw entered =
     and_then (resolve_secret_key E entered) (\<lambda>resolved.
     and_then get_inner (\<lambda>inner.
     and_then (lift_result (ok_or (in_channel inner) NotConnected)) (\<lambda>channel.
     and_then (lift_result (ok_or (in_verified inner) NotConnected)) (\<lambda>verified.
     and_then (attempt (login (env_crypto E) (env_net E) channel email pw resolved))
       (signed_in E verified (in_endpoints inner) resolved)))))"
  unfolding sign_in_def signed_in_def ..

lemma sign_in_run:
  assumes "resolve_secret_key E entered s = (Inr sk, s1)"
    and "in_channel (cl_inner s) = Some c" and "in_verified (cl_inner s) = Some v"
  shows "sign_in E email pw entered s =
    and_then (attempt (login (env_crypto E) (env_net E) c email pw sk))
      (signed_in E v (in_endpoints (cl_inner s)) sk) s1"
  using assms resolve_secret_key_inner [OF assms(1)]
  by (simp add: sign_in_signed_in and_then_Inr get_inner_steps exec_steps)

lemma pins_signed_in:
  assumes "atomic_store (env_store E) view" and "profile_json_sound (env_vault E)"
  shows "keeps (pins_at E view p v) (signed_in E v es sk result)"
proof (cases result)
  case (Inl e)
  then show ?thesis by (cases e) (simp_all add: signed_in_def keeps_ret keeps_throw)
next
  case (Inr li)
  then show ?thesis
    unfolding signed_in_def
    by (auto intro!: keeps_and_then keeps_ret pins_persist [OF assms] pins_set_inner)
qed

lemma sign_in_trust:
  assumes "atomic_store (env_store E) view" and "profile_json_sound (env_vault E)"
  shows "trust_step (Op_Sign_In email pw entered) (trust_of E view s)
    (trust_of E view (run_op E (Op_Sign_In email pw entered) s))"
proof -
  note contract = atomic_store.axioms(1) [OF assms(1)]
  obtain r s1 where res: "resolve_secret_key E entered s = (r, s1)" by (cases "resolve_secret_key E entered s")
  have same: "trust_of E view s1 = trust_of E view s"
    using trust_of_quiet [OF resolve_secret_key_quiet [OF contract]] res by (metis snd_conv)
  have inner: "cl_inner s1 = cl_inner s" using resolve_secret_key_inner [OF res] .
  show ?thesis
  proof (cases r)
    case (Inl e)
    then have "snd (sign_in E email pw entered s) = s1"
      using res by (simp add: sign_in_signed_in and_then_Inl)
    then show ?thesis by (simp add: same trust_step.stay)
  next
    case (Inr sk)
    show ?thesis
    proof (cases "in_channel (cl_inner s) = None \<or> in_verified (cl_inner s) = None")
      case True
      then have "snd (sign_in E email pw entered s) = s1"
        using res Inr inner
        by (cases "in_channel (cl_inner s)")
           (auto simp: sign_in_signed_in and_then_Inr get_inner_steps exec_steps throw_eq)
      then show ?thesis by (simp add: same trust_step.stay)
    next
      case False
      then obtain c v where cv: "in_channel (cl_inner s) = Some c" "in_verified (cl_inner s) = Some v" by auto
      let ?m = "and_then (attempt (login (env_crypto E) (env_net E) c email pw sk))
          (signed_in E v (in_endpoints (cl_inner s)) sk)"
      have "sign_in E email pw entered s = ?m s1" using res Inr cv by (simp add: sign_in_run)
      moreover have "keeps (pins_at E view p v) ?m" for p
        by (intro keeps_and_then keeps_attempt pins_quiet [OF quiet_host [OF keeps_rest_login]]
            pins_signed_in [OF assms])
      moreover have "in_verified (cl_inner s1) = Some v" using cv inner by simp
      ultimately have "trust_of E view (snd (sign_in E email pw entered s)) = trust_of E view s \<or>
          trust_of E view (snd (sign_in E email pw entered s)) = (trust_of E view s)\<lparr>ts_pin := Some (identity_public v)\<rparr>"
        using trust_of_pins [of s1 v E view ?m] by (simp add: same)
      moreover have "ts_server (trust_of E view s) = Some (identity_public v)" by (simp add: trust_of_def cv(2))
      ultimately show ?thesis by (auto simp: trust_step.stay trust_step.login)
    qed
  qed
qed

lemma vault_profile_read:
  assumes "secret_store S view" and "vault_server_profile J S t = (q, t')"
  shows "view t' = view t \<and>
    (\<forall>p. q = Inr p \<longrightarrow>
      (case view t SERVER_PROFILE of None \<Rightarrow> p = None | Some b \<Rightarrow> p = profile_json_read J b \<and> p \<noteq> None))"
  using secret_store.read_entry_keeps [OF assms(1)] secret_store.read_entry_value [OF assms(1)] assms(2)
  unfolding vault_server_profile_def by blast

lemma connect_trust:
  assumes "secret_store (env_store E) view"
  shows "trust_step (Op_Connect host port) (trust_of E view s)
    (trust_of E view (run_op E (Op_Connect host port) s))"
proof -
  let ?read = "on_store (vault_server_profile (env_vault E) (env_store E))"
  obtain r s1 where read: "?read s = (r, s1)" by (cases "?read s")
  obtain q t where vault: "vault_server_profile (env_vault E) (env_store E) (cl_store s) = (q, t)"
    by (cases "vault_server_profile (env_vault E) (env_store E) (cl_store s)")
  have s1: "s1 = s\<lparr>cl_store := t\<rparr>" and r: "\<And>p. r = Inr p \<Longrightarrow> q = Inr p"
    using read vault by (cases r; auto)+
  note entry = vault_profile_read [OF assms vault]
  have same: "trust_of E view s1 = trust_of E view s"
    using entry by (simp add: trust_of_def stored_pin_def s1)
  show ?thesis
  proof (cases r)
    case (Inl e)
    then have "snd (client_connect E host port s) = s1" using read by (simp add: client_connect_def and_then_Inl)
    then show ?thesis by (simp add: same trust_step.stay)
  next
    case (Inr stored)
    have pin: "map_option sp_identity_public stored = stored_pin E view s"
      using entry r [OF Inr] by (auto simp: stored_pin_def split: option.splits)
    obtain d s2 where disc: "discover_and_connect (env_discovery E) (env_net E) host port (stored_pin E view s) s1 = (d, s2)"
      by (cases "discover_and_connect (env_discovery E) (env_net E) host port (stored_pin E view s) s1")
    have mapped: "map_error map_connect_err
        (discover_and_connect (env_discovery E) (env_net E) host port (stored_pin E view s)) s1 =
        (map_sum map_connect_err id d, s2)"
      by (rule map_error_run) (rule disc)
    have more: "host.more s2 = host.more s1" using keepsD [OF keeps_rest_discover refl disc] .
    have same2: "trust_of E view s2 = trust_of E view s"
      using client_parts_more [OF more] same by (simp add: trust_of_def stored_pin_def)
    show ?thesis
    proof (cases d)
      case (Inl e)
      then have "snd (client_connect E host port s) = s2"
        using read mapped \<open>r = Inr stored\<close>
        by (simp add: client_connect_def and_then_Inr and_then_Inl Let_def pin)
      then show ?thesis by (simp add: same2 trust_step.stay)
    next
      case (Inr cvd)
      obtain c v dec where cvd: "cvd = (c, v, dec)" by (cases cvd)
      have "snd (client_connect E host port s) = s2\<lparr>cl_inner := (cl_inner s2)\<lparr>in_endpoints := [host_port host port],
          in_verified := Some v, in_channel := Some c\<rparr>\<rparr>"
        using read mapped \<open>r = Inr stored\<close>
        by (simp add: client_connect_def and_then_Inr Let_def pin set_inner_def exec_simps Inr cvd)
      then have "trust_of E view (run_op E (Op_Connect host port) s) =
          (trust_of E view s)\<lparr>ts_server := Some (identity_public v)\<rparr>"
        using same2 by (simp add: trust_of_def stored_pin_def)
      moreover have "ts_pin (trust_of E view s) = None \<or> ts_pin (trust_of E view s) = Some (identity_public v)"
        using discover_trust [OF disc [unfolded Inr cvd]]
        by (cases "stored_pin E view s") (auto simp: trust_of_def)
      ultimately show ?thesis by (simp add: trust_step.meet)
    qed
  qed
qed

lemma sign_out_trust:
  assumes "secret_store (env_store E) view"
  shows "trust_step Op_Sign_Out (trust_of E view s) (trust_of E view (run_op E Op_Sign_Out s))"
proof -
  let ?clear = "on_store (vault_clear_session (env_store E))"
  obtain r s1 where clear: "?clear s = (r, s1)" by (cases "?clear s")
  have same: "trust_of E view s1 = trust_of E view s"
    using trust_of_quiet [OF secret_store.quiet_clear_session [OF assms]] clear by (metis snd_conv)
  show ?thesis
  proof (cases r)
    case (Inl e)
    with clear have "run_op E Op_Sign_Out s = s1" by (simp add: sign_out_def and_then_Inl)
    then show ?thesis by (simp add: same trust_step.stay)
  next
    case (Inr u)
    with clear have "run_op E Op_Sign_Out s = s1\<lparr>cl_inner := inner_default\<rparr>"
      by (simp add: sign_out_def and_then_Inr set_inner_def exec_simps)
    then have "trust_of E view (run_op E Op_Sign_Out s) = (trust_of E view s)\<lparr>ts_server := None\<rparr>"
      using same by (simp add: trust_of_def stored_pin_def inner_default_def)
    then show ?thesis by (simp add: trust_step.leave)
  qed
qed

context atomic_store
begin

text \<open>A failed wipe has not deleted the last entry.\<close>

lemma delete_all_failed_last:
  "delete_all S (ks @ [k]) s = (Inl e, s') \<Longrightarrow> k \<notin> set ks \<Longrightarrow> view s' k = view s k"
proof (induction ks arbitrary: s)
  case Nil
  then show ?case using delete_failed [of k s] by (auto simp: and_then_Inl_iff ret_eq)
next
  case (Cons key ks)
  obtain r1 s1 where d: "store_delete S key s = (r1, s1)" by (cases "store_delete S key s")
  then have "view s1 k = view s k" using delete_other Cons.prems(2) by auto
  with Cons d show ?case by (cases r1) (auto simp: and_then_def)
qed

end

lemma vault_clear_failed_profile:
  assumes "atomic_store S view" and "vault_clear S t = (Inl e, t')"
  shows "view t' SERVER_PROFILE = view t SERVER_PROFILE"
proof (rule atomic_store.delete_all_failed_last [OF assms(1)])
  show "delete_all S ([MASTER_KEY, SECRET_KEY, DEVICE_SECRET, SESSION_TOKEN] @ [SERVER_PROFILE]) t = (Inl e, t')"
    using assms(2) by (simp only: vault_clear_def append.simps)
qed (simp add: entry_names)

lemma forget_trust:
  assumes "atomic_store (env_store E) view"
  shows "trust_step Op_Forget_Server (trust_of E view s) (trust_of E view (run_op E Op_Forget_Server s))"
proof -
  obtain q t where vault: "vault_clear (env_store E) (cl_store s) = (q, t)"
    by (cases "vault_clear (env_store E) (cl_store s)")
  show ?thesis
  proof (cases q)
    case (Inl e)
    then have "forget_server E s = (Inl StorageFailed, s\<lparr>cl_store := t\<rparr>)"
      using vault by (simp add: forget_server_def and_then_Inl_iff)
    then have "run_op E Op_Forget_Server s = s\<lparr>cl_store := t\<rparr>" by simp
    moreover have "view t SERVER_PROFILE = view (cl_store s) SERVER_PROFILE"
      using vault_clear_failed_profile [OF assms] vault Inl by blast
    ultimately show ?thesis by (simp add: trust_of_def stored_pin_def trust_step.stay)
  next
    case (Inr u)
    then have "forget_server E s = (Inr (), s\<lparr>cl_store := t, cl_inner := inner_default\<rparr>)"
      using vault by (simp add: forget_server_def and_then_Inr_iff set_inner_def exec_simps)
    then have "run_op E Op_Forget_Server s = s\<lparr>cl_store := t, cl_inner := inner_default\<rparr>" by simp
    moreover have "view t SERVER_PROFILE = None"
    proof (rule secret_store.delete_all_gone [OF atomic_store.axioms(1) [OF assms]])
      show "delete_all (env_store E) VAULT_KEYS (cl_store s) = (Inr (), t)"
        using vault Inr unfolding vault_clear_keys by (cases u) simp
    qed (simp add: VAULT_KEYS_def)
    ultimately have "trust_of E view (run_op E Op_Forget_Server s) = \<lparr>ts_pin = None, ts_server = None\<rparr>"
      by (simp add: trust_of_def stored_pin_def inner_default_def)
    then show ?thesis by (simp add: trust_step.forget)
  qed
qed

text \<open>What restoring does once the profile and the token are read and the endpoint is parsed.\<close>

definition resumed ::
  "('n, 's, 'c) env \<Rightarrow> server_profile \<Rightarrow> string \<Rightarrow> string \<Rightarrow> u16 \<Rightarrow> ('n, 's, 'c, string option) client_exec" where
  "resumed E profile token host port =
     and_then (attempt (discover_and_connect (env_discovery E) (env_net E) host port
         (Some (sp_identity_public profile)))) (\<lambda>result.
       (case result of
          Inl e \<Rightarrow> ret None
        | Inr (channel, verified, decision) \<Rightarrow>
            and_then (set_inner (\<lambda>inner. inner\<lparr>in_endpoints := sp_endpoints profile,
                in_session := Some (session_new channel token),
                in_verified := Some verified, in_channel := Some channel\<rparr>)) (\<lambda>_.
            ret (Some (sp_user_id profile)))))"

lemma restore_resumed:
  "restore E =
     and_then (on_store (vault_server_profile (env_vault E) (env_store E))) (\<lambda>stored.
       (case stored of
          None \<Rightarrow> ret None
        | Some profile \<Rightarrow>
     and_then (on_store (vault_session_token (env_store E))) (\<lambda>cached.
       (case cached of
          None \<Rightarrow> ret None
        | Some token \<Rightarrow>
       (case sp_endpoints profile of
          [] \<Rightarrow> ret None
        | endpoint # _ \<Rightarrow>
       (case rsplit_once (CHR '':'') endpoint of
          None \<Rightarrow> ret None
        | Some (host, port) \<Rightarrow>
       (case parse_u16 port of
          None \<Rightarrow> ret None
        | Some discovery_port \<Rightarrow> resumed E profile token host discovery_port)))))))"
  unfolding restore_def resumed_def ..

lemma resumed_trust:
  assumes "stored_pin E view s = Some (sp_identity_public profile)"
  shows "trust_step Op_Restore (trust_of E view s) (trust_of E view (snd (resumed E profile token host port s)))"
proof -
  let ?disc = "discover_and_connect (env_discovery E) (env_net E) host port (Some (sp_identity_public profile))"
  obtain d s2 where disc: "?disc s = (d, s2)" by (cases "?disc s")
  have "host.more s2 = host.more s" using keepsD [OF keeps_rest_discover refl disc] .
  from client_parts_more [OF this] have same: "trust_of E view s2 = trust_of E view s"
    by (simp add: trust_of_def stored_pin_def)
  have attempted: "attempt ?disc s = (Inr d, s2)" by (rule attempt_run) (rule disc)
  show ?thesis
  proof (cases d)
    case (Inl e)
    then have "snd (resumed E profile token host port s) = s2"
      by (simp add: resumed_def and_then_Inr attempted ret_eq)
    then show ?thesis by (simp add: same trust_step.stay)
  next
    case (Inr cvd)
    obtain c v dec where cvd: "cvd = (c, v, dec)" by (cases cvd)
    have "snd (resumed E profile token host port s) = s2\<lparr>cl_inner := (cl_inner s2)\<lparr>in_endpoints := sp_endpoints profile,
        in_session := Some (session_new c token), in_verified := Some v, in_channel := Some c\<rparr>\<rparr>"
      by (simp add: resumed_def and_then_Inr attempted Inr cvd set_inner_def exec_simps)
    then have "trust_of E view (snd (resumed E profile token host port s)) =
        (trust_of E view s)\<lparr>ts_server := Some (identity_public v)\<rparr>"
      using same by (simp add: trust_of_def stored_pin_def)
    moreover have "ts_pin (trust_of E view s) = Some (identity_public v)"
      using discover_trust [OF disc [unfolded Inr cvd]] assms by (simp add: trust_of_def)
    ultimately show ?thesis by (simp add: trust_step.resume)
  qed
qed

lemma restore_trust:
  assumes contract: "secret_store (env_store E) view"
  shows "trust_step Op_Restore (trust_of E view s) (trust_of E view (run_op E Op_Restore s))"
proof -
  let ?read = "on_store (vault_server_profile (env_vault E) (env_store E))"
  let ?token = "on_store (vault_session_token (env_store E))"
  obtain r s1 where read: "?read s = (r, s1)" by (cases "?read s")
  have same: "trust_of E view s1 = trust_of E view s"
    using trust_of_quiet [OF secret_store.quiet_getters(1) [OF contract]] read by (metis snd_conv)
  obtain r2 s2 where token: "?token s1 = (r2, s2)" by (cases "?token s1")
  have same2: "trust_of E view s2 = trust_of E view s"
    using trust_of_quiet [OF secret_store.quiet_getters(4) [OF contract]] token same by (metis snd_conv)
  consider (failed) e where "r = Inl e" | (absent) "r = Inr None"
    | (no_token) p e where "r = Inr (Some p)" "r2 = Inl e" | (none) p where "r = Inr (Some p)" "r2 = Inr None"
    | (both) p tok where "r = Inr (Some p)" "r2 = Inr (Some tok)"
  proof -
    have opt: "q = None \<or> (\<exists>x. q = Some x)" for q :: "'x option" by (cases q) auto
    show thesis
    proof (cases r)
      case (Inr stored)
      then show thesis
        using opt [of stored] opt [of "projr r2"] that(2-5) by (cases r2) auto
    qed (rule that(1))
  qed
  then show ?thesis
  proof cases
    case (both p tok)
    obtain q t where vault: "vault_server_profile (env_vault E) (env_store E) (cl_store s) = (q, t)"
      by (cases "vault_server_profile (env_vault E) (env_store E) (cl_store s)")
    have "q = Inr (Some p)" using read vault both by auto
    with vault_profile_read [OF contract vault] have "stored_pin E view s = Some (sp_identity_public p)"
      by (cases "view (cl_store s) SERVER_PROFILE") (auto simp: stored_pin_def dest: sym)
    with same2 have pin: "stored_pin E view s2 = Some (sp_identity_public p)" by (simp add: trust_of_def)
    have run: "run_op E Op_Restore s = snd ((case sp_endpoints p of
          [] \<Rightarrow> ret None
        | endpoint # _ \<Rightarrow>
       (case rsplit_once (CHR '':'') endpoint of
          None \<Rightarrow> ret None
        | Some (host, port) \<Rightarrow>
       (case parse_u16 port of
          None \<Rightarrow> ret None
        | Some discovery_port \<Rightarrow> resumed E p tok host discovery_port))) s2)"
      using read token both by (simp add: restore_resumed and_then_Inr)
    show ?thesis
      using resumed_trust [OF pin] unfolding run
      by (auto simp: ret_eq same2 trust_step.stay split: list.split option.split prod.split)
  qed (use read token same same2 in \<open>simp_all add: restore_resumed and_then_Inl and_then_Inr ret_eq trust_step.stay\<close>)
qed

lemma run_op_trust:
  assumes "atomic_store (env_store E) view" and "profile_json_sound (env_vault E)"
  shows "trust_step op (trust_of E view s) (trust_of E view (run_op E op s))"
proof -
  note contract = atomic_store.axioms(1) [OF assms(1)]
  note quiet = quiet_ops [OF contract, THEN trust_of_quiet] quiet_get_avatar [OF contract, THEN trust_of_quiet]
  show ?thesis
    by (cases op)
       (simp_all add: quiet trust_step.stay del: run_op.simps(1,2,3,13,14,15),
        simp_all add: connect_trust [OF contract] create_owner_trust [OF assms] sign_in_trust [OF assms]
          sign_out_trust [OF contract] forget_trust [OF assms(1)] restore_trust [OF contract] del: run_op.simps)
qed

section \<open>Runs\<close>

inductive_cases reaches_startE: "reaches E s0 [] s"

lemma reaches_trust_ok:
  assumes "atomic_store (env_store E) view" and "profile_json_sound (env_vault E)"
    and "reaches E s0 ops s" and "trust_ok (trust_of E view s0)"
  shows "trust_ok (trust_of E view s)"
  using assms(3,4)
proof (induction rule: reaches.induct)
  case start
  then show ?case .
next
  case (step ops s op)
  then show ?case using trust_step_ok [OF run_op_trust [OF assms(1,2)]] by blast
qed

lemma reaches_pin:
  assumes "atomic_store (env_store E) view" and "profile_json_sound (env_vault E)"
    and "reaches E s0 ops s" and "trust_ok (trust_of E view s0)"
    and "Op_Forget_Server \<notin> set ops" and "ts_pin (trust_of E view s0) = Some k"
  shows "ts_pin (trust_of E view s) = Some k"
  using assms(3-6)
proof (induction rule: reaches.induct)
  case start
  then show ?case by simp
next
  case (step ops s op)
  have "trust_ok (trust_of E view s)" using assms(1,2) step.hyps step.prems(1) by (rule reaches_trust_ok)
  moreover have "op \<noteq> Op_Forget_Server" using step.prems by auto
  ultimately show ?case using trust_step_pin [OF run_op_trust [OF assms(1,2)]] step by simp
qed

lemma start_trust_ok: "trust_ok (trust_of E view (client_with_store h store))"
  by (simp add: trust_ok_def trust_of_def client_with_store_def host.extend_def client.fields_def inner_default_def)

section \<open>An environment for the witnesses\<close>

text \<open>
  Profiles with one endpoint, written as the lengths and the bytes of their fields; the mock server
  behind the discovery answer of \<open>sample_discovery\<close>; the in-memory store.
\<close>

definition sample_profiles :: vault_lib where
  "sample_profiles =
     \<lparr>profile_json_write = (\<lambda>p. case sp_endpoints p of
         [e] \<Rightarrow> if length e < 256 \<and> length (sp_identity_public p) = 32
                then Some (of_nat (length e) # str_bytes e @ sp_identity_public p @ str_bytes (sp_user_id p))
                else None
       | _ \<Rightarrow> None),
      profile_json_read = (\<lambda>b. case b of
         [] \<Rightarrow> None
       | n # rest \<Rightarrow> Some \<lparr>sp_endpoints = [bytes_str (take (unat n) rest)],
            sp_identity_public = take 32 (drop (unat n) rest),
            sp_user_id = bytes_str (drop (unat n + 32) rest)\<rparr>)\<rparr>"

lemma sample_profiles_sound: "profile_json_sound sample_profiles"
proof -
  have "profile_json_read sample_profiles b = Some p" if w: "profile_json_write sample_profiles p = Some b" for p b
  proof -
    obtain e where e: "sp_endpoints p = [e]" "length e < 256" "length (sp_identity_public p) = 32"
      "b = of_nat (length e) # str_bytes e @ sp_identity_public p @ str_bytes (sp_user_id p)"
      using w by (auto simp: sample_profiles_def split: list.splits if_splits)
    then have "unat (of_nat (length e) :: byte) = length e" by (simp add: unat_of_nat)
    with e show ?thesis by (cases p) (simp add: sample_profiles_def)
  qed
  then show ?thesis by (simp add: profile_json_sound_def)
qed

definition sample_env :: "(mock, memory, unit) env" where
  "sample_env =
     \<lparr>env_crypto = sample_lib, env_discovery = sample_discovery, env_vault = sample_profiles,
      env_net = mock_net (\<lambda>url m. (Some (200, Some []), m)), env_store = memory_store, env_os = ''linux''\<rparr>"

definition sample_start :: "(mock, memory, unit) client" where
  "sample_start = client_with_store
     \<lparr>host_rng = of_nat, host_net = \<lparr>mo_key_material = bundle_to_key_material (bo_bundle sample_boot), mo_avatar = None\<rparr>\<rparr>
     memory_new"

text \<open>The same client with a profile stored earlier that pins the sample server.\<close>

definition sample_enrolled :: "(mock, memory, unit) client" where
  "sample_enrolled = sample_start\<lparr>cl_store :=
     [''server_profile'' \<mapsto> 3 # str_bytes ''h:1'' @ sample_public @ str_bytes ''u'']\<rparr>"

lemma sample_env_ok: "atomic_store (env_store sample_env) (\<lambda>m. m)" "profile_json_sound (env_vault sample_env)"
  by (simp_all add: sample_env_def memory_atomic.atomic_store_axioms sample_profiles_sound)

lemma sample_enrolled_pin: "stored_pin sample_env (\<lambda>m. m) sample_enrolled = Some sample_public"
  by (simp add: stored_pin_def sample_enrolled_def entry_names sample_env_def sample_profiles_def sample_public_def)

lemma sample_enrolled_ok: "pin_ok sample_env (\<lambda>m. m) sample_enrolled"
  by (simp add: pin_ok_def sample_enrolled_pin)
     (simp add: sample_enrolled_def sample_start_def client_with_store_def host.extend_def client.fields_def inner_default_def)

lemma sample_fetch_any:
  assumes "host_rng h = of_nat"
  shows "fetch_and_verify sample_discovery (mock_net (\<lambda>url m. (Some (200, Some []), m))) url h =
    (Inr sample_server, h\<lparr>host_rng := (\<lambda>i. of_nat (i + 16))\<rparr>)"
proof -
  have "parse_and_verify sample_discovery [] sample_nonce = Inr sample_server"
    using sample_verified by (simp add: parse_and_verify_def) (simp add: sample_discovery_def)
  then show ?thesis
    using assms by (simp add: fetch_and_verify_Inr_iff)
       (simp add: mock_net_def sample_nonce_def is_success_def)
qed

lemma sample_discover_any:
  assumes "host_rng h = of_nat" and "pinned = None \<or> pinned = Some sample_public"
  shows "discover_and_connect sample_discovery (mock_net (\<lambda>url m. (Some (200, Some []), m))) host port pinned h =
    (Inr ((), sample_server, check_pin sample_server pinned), h\<lparr>host_rng := (\<lambda>i. of_nat (i + 16))\<rparr>)"
  using assms(2)
  by (simp add: discover_Inr_iff sample_fetch_any [OF assms(1)] connect_endpoints_def and_then_Inr_iff ret_eq)
     (auto simp: check_pin_def sample_server_def mock_net_def ret_eq)

lemma sample_connected:
  "in_verified (cl_inner (run_op sample_env (Op_Connect ''h'' 1) sample_enrolled)) = Some sample_server \<and>
   stored_pin sample_env (\<lambda>m. m) (run_op sample_env (Op_Connect ''h'' 1) sample_enrolled) = Some sample_public"
proof -
  have "\<exists>prof. vault_server_profile sample_profiles memory_store (cl_store sample_enrolled) =
      (Inr (Some prof), cl_store sample_enrolled) \<and> sp_identity_public prof = sample_public"
    by (simp add: vault_server_profile_def and_then_Inr_iff decode_stored_def exec_simps)
       (simp add: memory_store_def sample_enrolled_def entry_names sample_profiles_def sample_public_def
         and_then_Inr_iff exec_simps)
  then obtain prof where prof: "vault_server_profile sample_profiles memory_store (cl_store sample_enrolled) =
      (Inr (Some prof), cl_store sample_enrolled)" "sp_identity_public prof = sample_public" by blast
  have rng: "host_rng sample_enrolled = of_nat"
    by (simp add: sample_enrolled_def sample_start_def client_with_store_def host.extend_def)
  have "\<exists>info. client_connect sample_env ''h'' 1 sample_enrolled = (Inr info,
      sample_enrolled\<lparr>host_rng := (\<lambda>i. of_nat (i + 16)), cl_inner := (cl_inner sample_enrolled)
        \<lparr>in_endpoints := [host_port ''h'' 1], in_verified := Some sample_server, in_channel := Some ()\<rparr>\<rparr>)"
    using prof(1) by (simp add: client_connect_def and_then_Inr_iff sample_env_def Let_def prof(2)
        sample_discover_any [OF rng] set_inner_def exec_simps)
  then obtain info where run: "client_connect sample_env ''h'' 1 sample_enrolled = (Inr info,
      sample_enrolled\<lparr>host_rng := (\<lambda>i. of_nat (i + 16)), cl_inner := (cl_inner sample_enrolled)
        \<lparr>in_endpoints := [host_port ''h'' 1], in_verified := Some sample_server, in_channel := Some ()\<rparr>\<rparr>)"
    by blast
  then show ?thesis using sample_enrolled_pin by (simp add: stored_pin_def)
qed

section \<open>Properties\<close>

text \<open>
  Property C1: over a store whose failed writes and deletions leave the entry as it was, every operation
  of the facade refines a step of the abstract trust machine: connecting
  and resuming meet no server but the pinned one, enrolling and signing in pin only the server that
  was met, signing out only leaves it, only forgetting drops the pin, and everything else, every
  error path included, changes neither.
\<close>

theorem facade_refines_trust_machine:
  assumes "atomic_store (env_store E) view" and "profile_json_sound (env_vault E)"
  shows "trust_step op (trust_of E view s) (trust_of E view (run_op E op s))"
  using assms by (rule run_op_trust)

theorem facade_refines_trust_machine_witness:
  "trust_step (Op_Connect ''h'' 1) (trust_of sample_env (\<lambda>m. m) sample_start)
     (trust_of sample_env (\<lambda>m. m) (run_op sample_env (Op_Connect ''h'' 1) sample_start))"
  using sample_env_ok by (rule facade_refines_trust_machine)

text \<open>
  Property C2: the invariant of trust on first use. In every state that a new client reaches by any
  sequence of operations, whatever the server answers and whatever fails, the server it is
  connected to is the one whose key is pinned in its store, when there is a pin; provided that a failed
  write or deletion of the store leaves the entry as it was.
\<close>

theorem connected_server_is_pinned:
  assumes "atomic_store (env_store E) view" and "profile_json_sound (env_vault E)"
    and "reaches E (client_with_store h store) ops s"
    and "stored_pin E view s = Some pin" and "in_verified (cl_inner s) = Some v"
  shows "identity_public v = pin"
proof -
  have "trust_ok (trust_of E view s)"
    using assms(1-3) start_trust_ok by (rule reaches_trust_ok)
  then show ?thesis using assms(4,5) by (simp add: trust_ok_def trust_of_def)
qed

theorem connected_server_is_pinned_witness:
  "identity_public sample_server = sample_public"
proof (rule connected_server_is_pinned [OF sample_env_ok])
  let ?s = "run_op sample_env (Op_Connect ''h'' 1) sample_enrolled"
  have "sample_enrolled = client_with_store
      \<lparr>host_rng = of_nat, host_net = \<lparr>mo_key_material = bundle_to_key_material (bo_bundle sample_boot), mo_avatar = None\<rparr>\<rparr>
      (cl_store sample_enrolled)"
    by (simp add: sample_enrolled_def sample_start_def client_with_store_def host.extend_def client.fields_def)
  then show "reaches sample_env (client_with_store
      \<lparr>host_rng = of_nat, host_net = \<lparr>mo_key_material = bundle_to_key_material (bo_bundle sample_boot), mo_avatar = None\<rparr>\<rparr>
      (cl_store sample_enrolled)) ([] @ [Op_Connect ''h'' 1]) ?s"
    using reaches.step [OF reaches.start, of sample_env sample_enrolled "Op_Connect ''h'' 1"]
    by (simp del: run_op.simps)
  show "stored_pin sample_env (\<lambda>m. m) ?s = Some sample_public" using sample_connected ..
  show "in_verified (cl_inner ?s) = Some sample_server" using sample_connected ..
qed

text \<open>
  Property C3: a pin never changes behind the user's back. Once a server is pinned, every sequence of
  operations without \<open>forget_server\<close> leaves exactly that key pinned, provided that a failed write or
  deletion of the store leaves the entry as it was.
\<close>

theorem pin_changes_only_by_forgetting:
  assumes "atomic_store (env_store E) view" and "profile_json_sound (env_vault E)"
    and "pin_ok E view s" and "reaches E s ops s'" and "Op_Forget_Server \<notin> set ops"
    and "stored_pin E view s = Some pin"
  shows "stored_pin E view s' = Some pin"
  using reaches_pin [OF assms(1,2,4) _ assms(5), of pin] assms(3,6)
  by (simp add: pin_ok_trust trust_of_def)

theorem pin_changes_only_by_forgetting_witness:
  "stored_pin sample_env (\<lambda>m. m)
     (run_op sample_env Op_Restore (run_op sample_env Op_Sign_Out sample_enrolled)) = Some sample_public"
proof (rule pin_changes_only_by_forgetting [OF sample_env_ok sample_enrolled_ok _ _ sample_enrolled_pin])
  show "reaches sample_env sample_enrolled ([Op_Sign_Out] @ [Op_Restore])
      (run_op sample_env Op_Restore (run_op sample_env Op_Sign_Out sample_enrolled))"
    using reaches.step [OF reaches.start, of sample_env sample_enrolled Op_Sign_Out]
    by (intro reaches.step) (simp del: run_op.simps)
qed simp

end
