(* ===== verification/Client_Session.thy ===== *)
theory Client_Session
  imports Client_Pin
begin

text \<open>
  What the facade's operations do: the guards, what enrolling and signing in leave in the store and
  in memory, the password change, the avatar, signing out, and resuming from the stored endpoint.
\<close>

section \<open>Caching\<close>

text \<open>A store holds the post-authentication state.\<close>

definition cached ::
  "('n, 's, 'c) env \<Rightarrow> ('s \<Rightarrow> string \<Rightarrow> bytes option) \<Rightarrow> to_cache \<Rightarrow> 's \<Rightarrow> bool" where
  "cached E view data t \<longleftrightarrow>
     view t MASTER_KEY = Some (mk_as_bytes (tc_master_key data)) \<and>
     view t SECRET_KEY = Some (sk_as_bytes (tc_secret_key data)) \<and>
     view t SESSION_TOKEN = Some (str_bytes (tc_token data)) \<and>
     (case tc_device_secret data of None \<Rightarrow> True | Some dev \<Rightarrow> view t DEVICE_SECRET = Some dev) \<and>
     (\<exists>b. view t SERVER_PROFILE = Some b \<and>
        profile_json_read (env_vault E) b =
          Some \<lparr>sp_endpoints = tc_endpoints data, sp_identity_public = tc_identity_public data,
                sp_user_id = tc_user_id data\<rparr>)"

lemma persist_unfold:
  "persist E data s = (Inr (), s') \<longleftrightarrow>
     (\<exists>t1 t2 t3 t4 t5.
        vault_set_master_key (env_store E) (tc_master_key data) (cl_store s) = (Inr (), t1) \<and>
        vault_set_secret_key (env_store E) (tc_secret_key data) t1 = (Inr (), t2) \<and>
        vault_set_session_token (env_store E) (tc_token data) t2 = (Inr (), t3) \<and>
        (case tc_device_secret data of
           None \<Rightarrow> t4 = t3
         | Some dev \<Rightarrow> vault_set_device_secret (env_store E) dev t3 = (Inr (), t4)) \<and>
        vault_set_server_profile (env_vault E) (env_store E)
          \<lparr>sp_endpoints = tc_endpoints data, sp_identity_public = tc_identity_public data,
           sp_user_id = tc_user_id data\<rparr> t4 = (Inr (), t5) \<and>
        s' = s\<lparr>cl_store := t5\<rparr>)"
  by (cases "tc_device_secret data") (auto simp: persist_def Let_def and_then_Inr_iff exec_simps)

lemma persist_cached:
  assumes store: "secret_store (env_store E) view" and json: "profile_json_sound (env_vault E)"
    and run: "persist E data s = (Inr (), s')"
  shows "cached E view data (cl_store s') \<and> s' = s\<lparr>cl_store := cl_store s'\<rparr> \<and>
    (tc_device_secret data = None \<longrightarrow>
       view (cl_store s') DEVICE_SECRET = view (cl_store s) DEVICE_SECRET)"
proof -
  let ?prof = "\<lparr>sp_endpoints = tc_endpoints data, sp_identity_public = tc_identity_public data,
           sp_user_id = tc_user_id data\<rparr>"
  obtain t1 t2 t3 t4 t5 where
    m: "vault_set_master_key (env_store E) (tc_master_key data) (cl_store s) = (Inr (), t1)" and
    k: "vault_set_secret_key (env_store E) (tc_secret_key data) t1 = (Inr (), t2)" and
    t: "vault_set_session_token (env_store E) (tc_token data) t2 = (Inr (), t3)" and
    d: "case tc_device_secret data of None \<Rightarrow> t4 = t3
        | Some dev \<Rightarrow> vault_set_device_secret (env_store E) dev t3 = (Inr (), t4)" and
    p: "vault_set_server_profile (env_vault E) (env_store E) ?prof t4 = (Inr (), t5)" and
    s': "s' = s\<lparr>cl_store := t5\<rparr>"
    using run by (auto simp: persist_unfold)
  note em = master_entry [OF store] and ek = secret_entry [OF store] and ed = device_entry [OF store]
    and et = token_entry [OF store] and ep = profile_entry [OF store, of "env_vault E"]
  have dev: "view t4 key = view t3 key" if "key \<noteq> DEVICE_SECRET" for key
    using d that vault_entry.put_other [OF ed] by (auto split: option.splits)
  have "view t5 SESSION_TOKEN = Some (str_bytes (tc_token data))"
    using vault_entry.put_view [OF et t] vault_entry.put_other [OF ep p] dev by (simp add: entry_names)
  moreover have "view t5 SECRET_KEY = Some (sk_as_bytes (tc_secret_key data))"
    using vault_entry.put_view [OF ek k] vault_entry.put_other [OF et t] vault_entry.put_other [OF ep p] dev
    by (simp add: entry_names)
  moreover have "view t5 MASTER_KEY = Some (mk_as_bytes (tc_master_key data))"
    using vault_entry.put_view [OF em m] vault_entry.put_other [OF ek k] vault_entry.put_other [OF et t]
      vault_entry.put_other [OF ep p] dev
    by (simp add: entry_names)
  moreover have "case tc_device_secret data of None \<Rightarrow> view t5 DEVICE_SECRET = view (cl_store s) DEVICE_SECRET
      | Some x \<Rightarrow> view t5 DEVICE_SECRET = Some x"
  proof (cases "tc_device_secret data")
    case None
    then show ?thesis
      using d vault_entry.put_other [OF em m] vault_entry.put_other [OF ek k] vault_entry.put_other [OF et t]
        vault_entry.put_other [OF ep p] by (simp add: entry_names)
  next
    case (Some x)
    then show ?thesis
      using d vault_entry.put_view [OF ed] vault_entry.put_other [OF ep p] by (simp add: entry_names)
  qed
  moreover have "view t5 SERVER_PROFILE = Some (the (profile_json_write (env_vault E) ?prof))"
    by (rule vault_entry.put_view [OF ep p])
  moreover have "profile_json_write (env_vault E) ?prof \<noteq> None"
    using p by (auto simp: vault_set_server_profile_def exec_result lift_result_eq)
  ultimately show ?thesis
    using json by (auto simp: cached_def s' profile_json_sound_def split: option.splits)
qed

lemma persist_rest:
  assumes "persist E data s = (Inr (), s')"
  shows "cl_inner s' = cl_inner s" and "host_net s' = host_net s"
  using assms by (auto simp: persist_unfold)

lemma persist_total:
  assumes store: "reliable_store (env_store E) view"
    and "profile_json_write (env_vault E) \<lparr>sp_endpoints = tc_endpoints data,
      sp_identity_public = tc_identity_public data, sp_user_id = tc_user_id data\<rparr> \<noteq> None"
  shows "\<exists>s'. persist E data s = (Inr (), s')"
proof -
  have set: "\<exists>t'. store_set (env_store E) k v t = (Inr (), t')" for k v t
    using reliable_store.set_run [OF store] .
  have "\<exists>t'. (case tc_device_secret data of None \<Rightarrow> t' = t
      | Some dev \<Rightarrow> vault_set_device_secret (env_store E) dev t = (Inr (), t'))" for t
    using set by (cases "tc_device_secret data") (simp_all add: vault_set_device_secret_def)
  moreover have "\<exists>t'. vault_set_server_profile (env_vault E) (env_store E) \<lparr>sp_endpoints = tc_endpoints data,
      sp_identity_public = tc_identity_public data, sp_user_id = tc_user_id data\<rparr> t = (Inr (), t')" for t
    using set assms(2) by (auto simp: vault_set_server_profile_def and_then_Inr_iff lift_result_eq)
  ultimately show ?thesis
    unfolding persist_unfold vault_set_master_key_def vault_set_secret_key_def vault_set_session_token_def
    using set by metis
qed

section \<open>The runs of the operations\<close>

lemma create_owner_Inr_iff:
  "create_owner E email name pw label s = (Inr r, s') \<longleftrightarrow>
     (\<exists>c v en s1 s2. in_channel (cl_inner s) = Some c \<and> in_verified (cl_inner s) = Some v \<and>
        enroll_new_owner (env_crypto E) (env_net E) c
          \<lparr>no_email = email, no_display_name = name, no_password = pw, no_device_label = label,
           no_platform = env_os E, no_machine_label = label\<rparr> s = (Inr en, s1) \<and>
        persist E \<lparr>tc_identity_public = identity_public v, tc_user_id = eo_user_id en,
          tc_token = as_token (eo_account en), tc_master_key = ui_master_key (eo_identity en),
          tc_secret_key = eo_secret_key en, tc_device_secret = Some (eo_device_secret en),
          tc_endpoints = in_endpoints (cl_inner s)\<rparr> s1 = (Inr (), s2) \<and>
        r = \<lparr>en_user_id = eo_user_id en, en_secret_key = sk_display (eo_secret_key en)\<rparr> \<and>
        s' = s2\<lparr>cl_inner := (cl_inner s2)\<lparr>in_session := Some (eo_account en),
               in_identity := Some (eo_identity en), in_secret_key := Some (eo_secret_key en)\<rparr>\<rparr>)"
  by (cases "in_channel (cl_inner s)"; cases "in_verified (cl_inner s)")
     (auto simp: create_owner_def get_inner_steps exec_steps throw_eq and_then_Inr_iff set_inner_def exec_simps)

lemma attempt_then: "and_then (attempt m) f s = (case m s of (r, t) \<Rightarrow> f r t)"
  by (simp add: and_then_def attempt_def split: prod.split)

lemma signed_in_Success_iff:
  "signed_in E v es sk res s1 = (Inr (Success uid), s') \<longleftrightarrow>
     (\<exists>li s2. res = Inr li \<and>
        persist E \<lparr>tc_identity_public = identity_public v, tc_user_id = li_user_id li,
          tc_token = as_token (li_account li), tc_master_key = ui_master_key (li_identity li),
          tc_secret_key = sk, tc_device_secret = None, tc_endpoints = es\<rparr> s1 = (Inr (), s2) \<and>
        uid = li_user_id li \<and>
        s' = s2\<lparr>cl_inner := (cl_inner s2)\<lparr>in_session := Some (li_account li),
               in_identity := Some (li_identity li), in_secret_key := Some sk\<rparr>\<rparr>)"
proof (cases res)
  case (Inl e)
  then show ?thesis by (cases e) (simp_all add: signed_in_def exec_simps)
next
  case (Inr li)
  then show ?thesis by (auto simp: signed_in_def and_then_Inr_iff set_inner_def exec_simps)
qed

lemma sign_in_Inr_iff:
  "sign_in E email pw entered s = (Inr out, s') \<longleftrightarrow>
     (\<exists>sk s0 c v res s1. resolve_secret_key E entered s = (Inr sk, s0) \<and>
        in_channel (cl_inner s) = Some c \<and> in_verified (cl_inner s) = Some v \<and>
        login (env_crypto E) (env_net E) c email pw sk s0 = (res, s1) \<and>
        signed_in E v (in_endpoints (cl_inner s)) sk res s1 = (Inr out, s'))"
proof (cases "resolve_secret_key E entered s")
  case (Pair r s0)
  note inner = resolve_secret_key_inner [OF Pair]
  show ?thesis
  proof (cases r)
    case (Inl e)
    with Pair show ?thesis by (simp add: sign_in_signed_in and_then_Inl)
  next
    case (Inr sk)
    with Pair inner show ?thesis
      by (cases "in_channel (cl_inner s)"; cases "in_verified (cl_inner s)")
         (auto simp: sign_in_signed_in and_then_Inr get_inner_steps exec_steps throw_eq attempt_then
           split: prod.splits)
  qed
qed

lemma sign_in_Success_iff:
  "sign_in E email pw entered s = (Inr (Success uid), s') \<longleftrightarrow>
     (\<exists>sk s0 c v li s1 s2. resolve_secret_key E entered s = (Inr sk, s0) \<and>
        in_channel (cl_inner s) = Some c \<and> in_verified (cl_inner s) = Some v \<and>
        login (env_crypto E) (env_net E) c email pw sk s0 = (Inr li, s1) \<and>
        persist E \<lparr>tc_identity_public = identity_public v, tc_user_id = li_user_id li,
          tc_token = as_token (li_account li), tc_master_key = ui_master_key (li_identity li),
          tc_secret_key = sk, tc_device_secret = None, tc_endpoints = in_endpoints (cl_inner s)\<rparr> s1 = (Inr (), s2) \<and>
        uid = li_user_id li \<and>
        s' = s2\<lparr>cl_inner := (cl_inner s2)\<lparr>in_session := Some (li_account li),
               in_identity := Some (li_identity li), in_secret_key := Some sk\<rparr>\<rparr>)"
  unfolding sign_in_Inr_iff signed_in_Success_iff by blast

lemma enroll_wf:
  assumes "enroll_new_owner_with_params L W c owner prm h = (Inr en, h')"
  shows "wf_sk (eo_secret_key en) \<and> (\<exists>session :: session_msg. eo_account en = session_new c (sm_token session) \<and>
     eo_user_id en = sm_user_id session) \<and> host.more h' = host.more h"
proof -
  obtain boot r1 device r2 session n where
    boot: "bootstrap_identity_with_params L (no_password owner) prm (host_rng h) = (Inr boot, r1)"
    and h': "h' = h\<lparr>host_rng := r2, host_net := n\<rparr>"
    and en: "en = \<lparr>eo_account = session_new c (sm_token (session :: session_msg)), eo_user_id = sm_user_id session,
        eo_secret_key = bo_secret_key boot, eo_identity = bo_identity boot,
        eo_device_public = dk_public (device :: device_keypair), eo_device_secret = dk_secret device\<rparr>"
    using assms unfolding enroll_Inr_iff by blast
  have "wf_sk (bo_secret_key boot)" by (rule bootstrap_unfold [OF boot])
  then show ?thesis by (auto simp: en h')
qed

lemma sign_in_with_cached_key:
  assumes "reliable_store (env_store E) view" and "profile_json_sound (env_vault E)"
    and "key_service (env_net E) material issued"
    and "in_channel (cl_inner s) = Some c" and "in_verified (cl_inner s) = Some v"
    and "wf_sk sk" and "view (cl_store s) SECRET_KEY = Some (sk_as_bytes sk)"
    and "rpc_login (env_net E) c None
      \<lparr>lr_email = email, lr_password = pw, lr_mfa_challenge_token = [], lr_mfa_response = []\<rparr> (host_net s)
      = (Inr (Some (Session sess)), n)"
    and "unlock_identity (env_crypto E) (key_material_to_bundle (material (host_net s))) pw sk = Inr ident"
    and "profile_json_write (env_vault E) \<lparr>sp_endpoints = in_endpoints (cl_inner s),
      sp_identity_public = identity_public v, sp_user_id = sm_user_id sess\<rparr> \<noteq> None"
  shows "\<exists>s'. sign_in E email pw None s = (Inr (Success (sm_user_id sess)), s') \<and>
    in_identity (cl_inner s') = Some ident \<and> in_session (cl_inner s') = Some (session_new c (sm_token sess)) \<and>
    view (cl_store s') MASTER_KEY = Some (mk_as_bytes (ui_master_key ident)) \<and>
    view (cl_store s') SESSION_TOKEN = Some (str_bytes (sm_token sess))"
proof -
  have store: "secret_store (env_store E) view" using assms(1) by (rule reliable_store.axioms)
  obtain t where t: "store_get (env_store E) SECRET_KEY (cl_store s) = (Inr (Some (sk_as_bytes sk)), t)"
    using reliable_store.get_run [OF assms(1), of SECRET_KEY "cl_store s"] assms(7) by auto
  have "sk_from_bytes (sk_as_bytes sk) = Inr sk" using sk_raw.dec_enc [OF assms(6)] by simp
  with t have res: "resolve_secret_key E None s = (Inr sk, s\<lparr>cl_store := t\<rparr>)"
    by (simp add: resolve_secret_key_def and_then_Inr_iff vault_secret_key_def decode_stored_def exec_simps)
  obtain n' where login: "login (env_crypto E) (env_net E) c email pw sk (s\<lparr>cl_store := t\<rparr>) =
      (Inr \<lparr>li_account = session_new c (sm_token sess), li_user_id = sm_user_id sess, li_identity = ident\<rparr>,
       s\<lparr>cl_store := t, host_net := n'\<rparr>)"
    using key_service.login_run [OF assms(3), where h = "s\<lparr>cl_store := t\<rparr>" and email = email and pw = pw and c = c
        and s = sess and n = n and L = "env_crypto E" and sk = sk] assms(8,9) by auto
  let ?data = "\<lparr>tc_identity_public = identity_public v, tc_user_id = sm_user_id sess, tc_token = sm_token sess,
      tc_master_key = ui_master_key ident, tc_secret_key = sk, tc_device_secret = None,
      tc_endpoints = in_endpoints (cl_inner s)\<rparr>"
  obtain s2 where p: "persist E ?data (s\<lparr>cl_store := t, host_net := n'\<rparr>) = (Inr (), s2)"
    using persist_total [OF assms(1), where data = ?data] assms(10) by auto
  show ?thesis
    using res login p assms(4,5) persist_cached [OF store assms(2) p]
    by (simp add: sign_in_Success_iff session_new_def cached_def)
qed

text \<open>A read of the store and what follows it; the missing session.\<close>

lemma read_then:
  "and_then (on_store m) f s =
     (case m (cl_store s) of
        (Inl e, t) \<Rightarrow> (Inl StorageFailed, s\<lparr>cl_store := t\<rparr>)
      | (Inr x, t) \<Rightarrow> f x (s\<lparr>cl_store := t\<rparr>))"
  by (simp add: and_then_def on_store_def on_part_def map_error_def split: prod.split sum.split)

lemma no_session_then: "in_session (cl_inner s) = None \<Longrightarrow> and_then current_session f s = (Inl NotSignedIn, s)"
  by (simp add: and_then_Inl_iff)

lemma set_avatar_unsigned:
  assumes "in_session (cl_inner s) = None"
  shows "\<exists>err t r. set_avatar E png s = (Inl err, s\<lparr>cl_store := t, host_rng := r\<rparr>) \<and>
    err \<in> {StorageFailed, CryptoFailed, NotSignedIn}"
proof -
  obtain q t where read: "vault_master_key (env_store E) (cl_store s) = (q, t)"
    by (cases "vault_master_key (env_store E) (cl_store s)")
  have same: "s\<lparr>cl_store := t\<rparr> = s\<lparr>cl_store := t, host_rng := host_rng s\<rparr>" by simp
  consider e where "q = Inl e" | "q = Inr None" | mk where "q = Inr (Some mk)"
    by (cases q) (auto split: option.split)
  then show ?thesis
  proof cases
    case (3 mk)
    obtain x r where seal: "seal_with_master (env_crypto E) mk png (host_rng s) = (x, r)"
      by (cases "seal_with_master (env_crypto E) mk png (host_rng s)")
    then have "set_avatar E png s =
        (Inl (case x of Inl _ \<Rightarrow> CryptoFailed | Inr _ \<Rightarrow> NotSignedIn), s\<lparr>cl_store := t, host_rng := r\<rparr>)"
      using read 3 assms
      by (cases x) (simp_all add: set_avatar_def read_then exec_steps and_then_def [of "map_error _ _"]
          map_error_def with_rng_def on_part_def no_session_then)
    then show ?thesis by (cases x) auto
  next
    case 1
    then have "set_avatar E png s = (Inl StorageFailed, s\<lparr>cl_store := t\<rparr>)"
      using read by (simp add: set_avatar_def read_then)
    with same have "set_avatar E png s = (Inl StorageFailed, s\<lparr>cl_store := t, host_rng := host_rng s\<rparr>)" by argo
    then show ?thesis by blast
  next
    case 2
    then have "set_avatar E png s = (Inl NotSignedIn, s\<lparr>cl_store := t\<rparr>)"
      using read by (simp add: set_avatar_def read_then exec_steps throw_eq)
    with same have "set_avatar E png s = (Inl NotSignedIn, s\<lparr>cl_store := t, host_rng := host_rng s\<rparr>)" by argo
    then show ?thesis by blast
  qed
qed

section \<open>A connected client for the witnesses\<close>

abbreviation sample_w :: "(mock, unit) net" where
  "sample_w \<equiv> mock_net (\<lambda>url m. (Some (200, Some []), m))"

definition sample_online :: "(mock, memory, unit) client" where
  "sample_online = sample_start\<lparr>cl_inner := inner_default
     \<lparr>in_channel := Some (), in_verified := Some sample_server, in_endpoints := [''h:1'']\<rparr>\<rparr>"

definition sample_returning :: "(mock, memory, unit) client" where
  "sample_returning = sample_online\<lparr>cl_store := [''secret_key'' \<mapsto> sk_as_bytes (bo_secret_key sample_boot)]\<rparr>"

lemma sample_start_simps [simp]:
  "host_rng sample_start = of_nat" "cl_store sample_start = Map.empty"
  "host_net sample_start = \<lparr>mo_key_material = bundle_to_key_material (bo_bundle sample_boot), mo_avatar = None\<rparr>"
  by (simp_all add: sample_start_def client_with_store_def host.extend_def client.fields_def memory_new_def)

lemma sample_env_simps [simp]:
  "env_crypto sample_env = sample_lib" "env_vault sample_env = sample_profiles"
  "env_net sample_env = sample_w" "env_store sample_env = memory_store" "env_discovery sample_env = sample_discovery"
  by (simp_all add: sample_env_def)

lemma sample_boot_wf: "wf_sk (bo_secret_key sample_boot)"
  using sample_boot_run by (blast elim: bootstrap_unfold)

lemma enroll_sample_total:
  "\<exists>en h'. enroll_new_owner sample_lib sample_w () owner h = (Inr en, h')"
proof -
  obtain boot where "bootstrap_identity_with_params sample_lib (no_password owner) default_kdf_params (host_rng h) =
      (Inr boot, \<lambda>i. host_rng h (i + 204))"
    using bootstrap_total [OF sample_lib_total] by blast
  moreover have "\<exists>device r2. generate_device_keypair sample_lib r1 = (Inr device :: enroll_error + device_keypair, r2)" for r1
    by (auto simp: generate_device_keypair_def and_then_Inr_iff ret_eq)
  moreover have "rpc_bootstrap sample_w () None req n = (Inr mock_session, n)" for req n
    by (simp add: mock_net_def mock_bootstrap_def)
  ultimately show ?thesis by (simp add: enroll_new_owner_def enroll_Inr_iff)
qed

lemma sample_profile_written:
  "profile_json_write sample_profiles \<lparr>sp_endpoints = [''h:1''], sp_identity_public = sample_public, sp_user_id = u\<rparr> \<noteq> None"
  by (simp add: sample_profiles_def sample_public_def)

lemma create_owner_sample:
  "\<exists>r s'. create_owner sample_env email name pw label sample_online = (Inr r, s')"
proof -
  obtain en s1 where en: "enroll_new_owner sample_lib sample_w ()
      \<lparr>no_email = email, no_display_name = name, no_password = pw, no_device_label = label,
       no_platform = env_os sample_env, no_machine_label = label\<rparr> sample_online = (Inr en, s1)"
    using enroll_sample_total by blast
  have "\<exists>s2. persist sample_env \<lparr>tc_identity_public = identity_public sample_server, tc_user_id = eo_user_id en,
          tc_token = as_token (eo_account en), tc_master_key = ui_master_key (eo_identity en),
          tc_secret_key = eo_secret_key en, tc_device_secret = Some (eo_device_secret en),
          tc_endpoints = [''h:1'']\<rparr> s1 = (Inr (), s2)"
    using memory.reliable_store_axioms sample_profile_written
    by (intro persist_total) (simp_all add: sample_server_def)
  with en show ?thesis
    by (auto simp: create_owner_Inr_iff sample_online_def)
qed

section \<open>Properties\<close>



text \<open>
  Property C11: creating the owner caches everything, and the right things. When it succeeds, one
  \<open>Bootstrap\<close> call was made; the key material in it unlocks with the password and the Secret Key that is
  returned for the user to write down, and the store holds the master key of the identity this
  unlocks, that Secret Key, the secret of the device key in the request, the token of the response,
  and a profile with the connected server's key and endpoints; the same identity, key and session are
  in memory, and the rest of the memory is as before.
\<close>

theorem create_owner_caches_everything:
  assumes "secret_store (env_store E) view" and "profile_json_sound (env_vault E)" and "lib_sound (env_crypto E)"
    and "create_owner E email name pw label s = (Inr r, s')"
  shows "\<exists>c v req session km dev sk ident secret.
    in_channel (cl_inner s) = Some c \<and> in_verified (cl_inner s) = Some v \<and>
    rpc_bootstrap (env_net E) c None req (host_net s) = (Inr session, host_net s') \<and>
    br_key_material req = Some km \<and> br_device req = Some dev \<and>
    sk_parse (en_secret_key r) = Inr sk \<and> en_user_id r = sm_user_id session \<and>
    unlock_identity (env_crypto E) (key_material_to_bundle km) pw sk = Inr ident \<and>
    de_device_public_key dev = x25519_public (env_crypto E) secret \<and>
    cached E view \<lparr>tc_identity_public = identity_public v, tc_user_id = sm_user_id session,
      tc_token = sm_token session, tc_master_key = ui_master_key ident, tc_secret_key = sk,
      tc_device_secret = Some secret, tc_endpoints = in_endpoints (cl_inner s)\<rparr> (cl_store s') \<and>
    cl_inner s' = (cl_inner s)\<lparr>in_session := Some (session_new c (sm_token session)),
      in_identity := Some ident, in_secret_key := Some sk\<rparr>"
proof -
  let ?owner = "\<lparr>no_email = email, no_display_name = name, no_password = pw, no_device_label = label,
           no_platform = env_os E, no_machine_label = label\<rparr>"
  obtain c v en s1 s2 where cv: "in_channel (cl_inner s) = Some c" "in_verified (cl_inner s) = Some v"
    and en: "enroll_new_owner (env_crypto E) (env_net E) c ?owner s = (Inr en, s1)"
    and p: "persist E \<lparr>tc_identity_public = identity_public v, tc_user_id = eo_user_id en,
          tc_token = as_token (eo_account en), tc_master_key = ui_master_key (eo_identity en),
          tc_secret_key = eo_secret_key en, tc_device_secret = Some (eo_device_secret en),
          tc_endpoints = in_endpoints (cl_inner s)\<rparr> s1 = (Inr (), s2)"
    and r: "r = \<lparr>en_user_id = eo_user_id en, en_secret_key = sk_display (eo_secret_key en)\<rparr>"
    and s': "s' = s2\<lparr>cl_inner := (cl_inner s2)\<lparr>in_session := Some (eo_account en),
               in_identity := Some (eo_identity en), in_secret_key := Some (eo_secret_key en)\<rparr>\<rparr>"
    using assms(4) unfolding create_owner_Inr_iff by blast
  note run = en [unfolded enroll_new_owner_def]
  have "host.more s1 = host.more s" by (rule enroll_wf [OF run, THEN conjunct2, THEN conjunct2])
  then have inner: "cl_inner s1 = cl_inner s" using client_parts_more by blast
  obtain req session km dev where req: "rpc_bootstrap (env_net E) c None req (host_net s) = (Inr session, host_net s1)"
    "br_key_material req = Some km" "br_device req = Some dev"
    "unlock_identity (env_crypto E) (key_material_to_bundle km) pw (eo_secret_key en) = Inr (eo_identity en)"
    "de_device_public_key dev = x25519_public (env_crypto E) (eo_device_secret en)"
    and acc: "eo_account en = session_new c (sm_token session)" "eo_user_id en = sm_user_id session"
    using enrolled_request [OF assms(3) run] unfolding new_owner.simps by blast
  have "sk_parse (en_secret_key r) = Inr (eo_secret_key en)"
    using enroll_wf [OF run] sk_text.dec_enc [of "eo_secret_key en"] by (simp add: r)
  moreover note stored = persist_cached [OF assms(1,2) p]
  moreover have "as_token (session_new c tok) = tok" for tok by (simp add: session_new_def)
  moreover have "host_net s' = host_net s1" "cl_store s' = cl_store s2"
    "cl_inner s' = (cl_inner s)\<lparr>in_session := Some (eo_account en),
       in_identity := Some (eo_identity en), in_secret_key := Some (eo_secret_key en)\<rparr>"
    using persist_rest [OF p] inner by (simp_all add: s')
  ultimately show ?thesis
    using cv req acc
    by (intro exI [of _ c] exI [of _ v] exI [of _ req] exI [of _ session] exI [of _ km] exI [of _ dev]
        exI [of _ "eo_secret_key en"] exI [of _ "eo_identity en"] exI [of _ "eo_device_secret en"]) (simp add: r)
qed

theorem create_owner_caches_everything_witness:
  "\<exists>r s' sk ident. create_owner sample_env ''e'' ''n'' ''pw'' ''pc'' sample_online = (Inr r, s') \<and>
    sk_parse (en_secret_key r) = Inr sk \<and> in_identity (cl_inner s') = Some ident \<and>
    cl_store s' MASTER_KEY = Some (mk_as_bytes (ui_master_key ident))"
proof -
  obtain r s' where run: "create_owner sample_env ''e'' ''n'' ''pw'' ''pc'' sample_online = (Inr r, s')"
    using create_owner_sample by blast
  have "secret_store (env_store sample_env) (\<lambda>m. m)" "lib_sound (env_crypto sample_env)"
    by (simp_all add: memory.secret_store_axioms sample_lib_sound)
  from create_owner_caches_everything [OF this(1) sample_env_ok(2) this(2) run] run show ?thesis
    by (auto simp: cached_def)
qed

text \<open>
  Property C12: a returning device signs in with the password alone. When the Secret Key is cached, the
  server opens a session and its key material unlocks with the password, signing in without
  entering the Secret Key succeeds on any store that does not fail, and leaves the unlocked
  identity and the session in memory and the master key and the new token in the store.
\<close>

theorem returning_sign_in_succeeds:
  assumes "reliable_store (env_store E) view" and "profile_json_sound (env_vault E)"
    and "key_service (env_net E) material issued"
    and "in_channel (cl_inner s) = Some c" and "in_verified (cl_inner s) = Some v"
    and "wf_sk sk" and "view (cl_store s) SECRET_KEY = Some (sk_as_bytes sk)"
    and "rpc_login (env_net E) c None
      \<lparr>lr_email = email, lr_password = pw, lr_mfa_challenge_token = [], lr_mfa_response = []\<rparr> (host_net s)
      = (Inr (Some (Session sess)), n)"
    and "unlock_identity (env_crypto E) (key_material_to_bundle (material (host_net s))) pw sk = Inr ident"
    and "profile_json_write (env_vault E) \<lparr>sp_endpoints = in_endpoints (cl_inner s),
      sp_identity_public = identity_public v, sp_user_id = sm_user_id sess\<rparr> \<noteq> None"
  shows "\<exists>s'. sign_in E email pw None s = (Inr (Success (sm_user_id sess)), s') \<and>
    in_identity (cl_inner s') = Some ident \<and> in_session (cl_inner s') = Some (session_new c (sm_token sess)) \<and>
    view (cl_store s') MASTER_KEY = Some (mk_as_bytes (ui_master_key ident)) \<and>
    view (cl_store s') SESSION_TOKEN = Some (str_bytes (sm_token sess))"
  using assms by (rule sign_in_with_cached_key)

theorem returning_sign_in_succeeds_witness:
  "\<exists>s'. sign_in sample_env ''e'' ''a'' None sample_returning = (Inr (Success ''u-1''), s') \<and>
    in_identity (cl_inner s') = Some (bo_identity sample_boot) \<and>
    in_session (cl_inner s') = Some (session_new () MOCK_TOKEN) \<and>
    cl_store s' MASTER_KEY = Some (mk_as_bytes (ui_master_key (bo_identity sample_boot))) \<and>
    cl_store s' SESSION_TOKEN = Some (str_bytes MOCK_TOKEN)"
proof -
  have "\<exists>s'. sign_in sample_env ''e'' ''a'' None sample_returning = (Inr (Success (sm_user_id mock_session)), s') \<and>
    in_identity (cl_inner s') = Some (bo_identity sample_boot) \<and>
    in_session (cl_inner s') = Some (session_new () (sm_token mock_session)) \<and>
    cl_store s' MASTER_KEY = Some (mk_as_bytes (ui_master_key (bo_identity sample_boot))) \<and>
    cl_store s' SESSION_TOKEN = Some (str_bytes (sm_token mock_session))"
  proof (rule returning_sign_in_succeeds [where material = mo_key_material and issued = "\<lambda>m tok. tok = MOCK_TOKEN"])
    show "reliable_store (env_store sample_env) (\<lambda>m. m)" by (simp add: memory.reliable_store_axioms)
    show "profile_json_sound (env_vault sample_env)" by (rule sample_env_ok)
    show "key_service (env_net sample_env) mo_key_material (\<lambda>m tok. tok = MOCK_TOKEN)"
      by (simp add: mock_service.key_service_axioms)
    show "wf_sk (bo_secret_key sample_boot)" by (rule sample_boot_wf)
    show "unlock_identity (env_crypto sample_env) (key_material_to_bundle (mo_key_material (host_net sample_returning)))
        ''a'' (bo_secret_key sample_boot) = Inr (bo_identity sample_boot)"
      by (simp add: sample_returning_def sample_online_def sample_unlock)
    show "profile_json_write (env_vault sample_env) \<lparr>sp_endpoints = in_endpoints (cl_inner sample_returning),
      sp_identity_public = identity_public sample_server, sp_user_id = sm_user_id mock_session\<rparr> \<noteq> None"
      using sample_profile_written by (simp add: sample_returning_def sample_online_def sample_server_def)
  qed (simp_all add: sample_returning_def sample_online_def entry_names mock_net_def mock_login_def)
  then show ?thesis by (simp add: mock_session_def)
qed

end
