(* ===== verification/Client_Account.thy ===== *)
theory Client_Account
  imports Client_Session
begin

text \<open>
  The password change, the avatar, resuming a session from the stored endpoint, and what the facade
  reports when the server or the store refuses.
\<close>

section \<open>Runs\<close>

lemma secret_key_cached:
  assumes "reliable_store (env_store E) view" and "wf_sk sk"
    and "view (cl_store s) SECRET_KEY = Some (sk_as_bytes sk)"
  obtains t where "vault_secret_key (env_store E) (cl_store s) = (Inr (Some sk), t)" and "view t = view (cl_store s)"
proof -
  obtain t where t: "store_get (env_store E) SECRET_KEY (cl_store s) = (Inr (Some (sk_as_bytes sk)), t)"
    "view t = view (cl_store s)"
    using reliable_store.get_run [OF assms(1), of SECRET_KEY "cl_store s"] assms(3) by auto
  have "sk_from_bytes (sk_as_bytes sk) = Inr sk" using sk_raw.dec_enc [OF assms(2)] by simp
  with t have "vault_secret_key (env_store E) (cl_store s) = (Inr (Some sk), t)"
    by (simp add: vault_secret_key_def and_then_Inr_iff decode_stored_def exec_simps)
  with t(2) show thesis by (rule that [rotated])
qed

lemma secret_key_read:
  assumes "secret_store S view" and "vault_secret_key S t = (Inr (Some sk), t')"
  shows "view t SECRET_KEY = Some (sk_as_bytes sk)" and "wf_sk sk" and "view t' = view t"
proof -
  have "(case view t SECRET_KEY of None \<Rightarrow> Some sk = None | Some bs \<Rightarrow> Some sk = ok_of (sk_from_bytes bs) \<and> Some sk \<noteq> None)"
    using assms(2) unfolding vault_secret_key_def by (rule secret_store.read_entry_value [OF assms(1)])
  then obtain bs where bs: "view t SECRET_KEY = Some bs" "sk_from_bytes bs = Inr sk"
    by (auto split: option.splits dest: sym)
  then show "view t SECRET_KEY = Some (sk_as_bytes sk)" "wf_sk sk"
    by (auto simp: sk_from_bytes_def wf_sk_def split: if_splits)
  show "view t' = view t"
    using assms(2) unfolding vault_secret_key_def by (rule secret_store.read_entry_keeps [OF assms(1)])
qed

lemma master_key_cached:
  assumes "reliable_store (env_store E) view" and "wf_mk mk"
    and "view (cl_store s) MASTER_KEY = Some (mk_as_bytes mk)"
  obtains t where "vault_master_key (env_store E) (cl_store s) = (Inr (Some mk), t)" and "view t = view (cl_store s)"
proof -
  obtain t where t: "store_get (env_store E) MASTER_KEY (cl_store s) = (Inr (Some (mk_as_bytes mk)), t)"
    "view t = view (cl_store s)"
    using reliable_store.get_run [OF assms(1), of MASTER_KEY "cl_store s"] assms(3) by auto
  with assms(2) have "vault_master_key (env_store E) (cl_store s) = (Inr (Some mk), t)"
    by (simp add: vault_master_key_def and_then_Inr_iff decode_stored_def exec_simps array32_def wf_mk_def)
  with t(2) show thesis by (rule that [rotated])
qed

lemma material_to_bundle_eq: "material_to_bundle = key_material_to_bundle"
  by (simp add: fun_eq_iff material_to_bundle_def key_material_to_bundle_def)

lemma client_hex_eq: "client_hex bs = encode_hex bs"
  by (induction bs) simp_all

lemma session_key_material_Inr_iff:
  "session_key_material W a h = (Inr km, h') \<longleftrightarrow>
     (\<exists>n. rpc_get_key_material W (as_channel a) (authed W a) () (host_net h) = (Inr (Some km), n) \<and>
        h' = h\<lparr>host_net := n\<rparr>)"
  by (auto simp: session_key_material_def and_then_Inr_iff lift_result_eq)

lemma session_change_password_iff:
  "session_change_password W a req h = (Inr (), h') \<longleftrightarrow>
     (\<exists>n. rpc_change_password W (as_channel a) (authed W a) req (host_net h) = (Inr (), n) \<and> h' = h\<lparr>host_net := n\<rparr>)"
  by (auto simp: session_change_password_def and_then_Inr_iff ret_eq)

lemma change_password_Inr_iff:
  "change_password E old new s = (Inr (), s') \<longleftrightarrow>
     (\<exists>sk t a km n ident rw r n'.
        vault_secret_key (env_store E) (cl_store s) = (Inr (Some sk), t) \<and>
        in_session (cl_inner s) = Some a \<and>
        rpc_get_key_material (env_net E) (as_channel a) (authed (env_net E) a) () (host_net s) = (Inr (Some km), n) \<and>
        unlock_identity (env_crypto E) (key_material_to_bundle km) old sk = Inr ident \<and>
        rewrap_master_key (env_crypto E) (ui_master_key ident) sk new default_kdf_params (host_rng s) = (Inr rw, r) \<and>
        rpc_change_password (env_net E) (as_channel a) (authed (env_net E) a)
          \<lparr>cp_current_password = old, cp_new_password = new,
           cp_new_master_key_wrapped = rw_master_key_wrapped rw,
           cp_new_kdf_salt = rw_kdf_salt rw, cp_new_kdf_params = rw_kdf_params rw\<rparr> n = (Inr (), n') \<and>
        s' = s\<lparr>cl_store := t, host_rng := r, host_net := n'\<rparr>)"
  (is "?L \<longleftrightarrow> ?R")
proof
  assume ?L
  then show ?R
    by (auto simp: change_password_def and_then_Inr_iff lift_result_eq Let_def session_key_material_Inr_iff
        session_change_password_iff material_to_bundle_eq ret_eq)
next
  assume ?R
  then show ?L
    by (fastforce simp: change_password_def and_then_Inr_iff lift_result_eq Let_def session_key_material_Inr_iff
        session_change_password_iff material_to_bundle_eq ret_eq)
qed

section \<open>A signed-in client for the witnesses\<close>

definition sample_session :: "(mock, memory, unit) client" where
  "sample_session = sample_online
     \<lparr>cl_store := [''secret_key'' \<mapsto> sk_as_bytes (bo_secret_key sample_boot),
        ''master_key'' \<mapsto> mk_as_bytes (ui_master_key (bo_identity sample_boot)),
        ''session_token'' \<mapsto> str_bytes ''tok-facade'',
        ''server_profile'' \<mapsto> 3 # str_bytes ''h:1'' @ sample_public @ str_bytes ''u-1''],
      cl_inner := (cl_inner sample_online)\<lparr>in_session := Some (session_new () MOCK_TOKEN)\<rparr>\<rparr>"

lemma sample_session_simps [simp]:
  "host_rng sample_session = of_nat" "in_session (cl_inner sample_session) = Some (session_new () MOCK_TOKEN)"
  "host_net sample_session = \<lparr>mo_key_material = bundle_to_key_material (bo_bundle sample_boot), mo_avatar = None\<rparr>"
  "cl_store sample_session SECRET_KEY = Some (sk_as_bytes (bo_secret_key sample_boot))"
  "cl_store sample_session MASTER_KEY = Some (mk_as_bytes (ui_master_key (bo_identity sample_boot)))"
  "cl_store sample_session SESSION_TOKEN = Some (str_bytes ''tok-facade'')"
  "cl_store sample_session SERVER_PROFILE = Some (3 # str_bytes ''h:1'' @ sample_public @ str_bytes ''u-1'')"
  by (simp_all add: sample_session_def sample_online_def entry_names)

lemma sample_secret_cached:
  "\<exists>t. vault_secret_key memory_store (cl_store sample_session) = (Inr (Some (bo_secret_key sample_boot)), t)"
  using secret_key_cached [of sample_env "\<lambda>m. m" "bo_secret_key sample_boot" sample_session]
    sample_boot_wf memory.reliable_store_axioms by auto

lemma sample_master_wf: "wf_mk (ui_master_key (bo_identity sample_boot))"
  using unlock_master_size [OF sample_unlock] by (simp add: wf_mk_def KEY_LEN_def)

lemma sample_master_cached:
  "\<exists>t. vault_master_key memory_store (cl_store sample_session) =
     (Inr (Some (ui_master_key (bo_identity sample_boot))), t)"
  using master_key_cached [of sample_env "\<lambda>m. m" "ui_master_key (bo_identity sample_boot)" sample_session]
    sample_master_wf memory.reliable_store_axioms by auto

lemma mock_accepts: "authed sample_w (session_new () MOCK_TOKEN) = Some (''Bearer '' @ MOCK_TOKEN)"
  by (rule mock_service.authed_issued [OF refl])

lemma mock_material_run:
  "rpc_get_key_material sample_w c (Some (''Bearer '' @ MOCK_TOKEN)) () m = (Inr (Some (mo_key_material m)), m)"
  by (simp add: mock_net_def mock_get_key_material_def require_token_def)

lemma rewrap_nonempty:
  "rewrap_master_key L mk sk new prm r = (Inr rw, r') \<Longrightarrow> rw_kdf_salt rw \<noteq> [] \<and> rw_master_key_wrapped rw \<noteq> []"
  by (auto simp: rewrap_master_key_def and_then_Inr_iff ret_eq lift_result_eq seal_Inr_iff SALT_LEN_def NONCE_LEN_def)

lemma sample_change_password:
  "\<exists>s'. change_password sample_env ''a'' ''b'' sample_session = (Inr (), s')"
proof -
  obtain t where sk: "vault_secret_key memory_store (cl_store sample_session) = (Inr (Some (bo_secret_key sample_boot)), t)"
    using sample_secret_cached by blast
  obtain rw r where rw: "rewrap_master_key sample_lib (ui_master_key (bo_identity sample_boot))
      (bo_secret_key sample_boot) ''b'' default_kdf_params of_nat = (Inr rw, r)"
    using rewrap_total [OF sample_lib_total] unlock_master_size [OF sample_unlock] by metis
  have "rpc_change_password sample_w () (Some (''Bearer '' @ MOCK_TOKEN))
      \<lparr>cp_current_password = ''a'', cp_new_password = ''b'',
       cp_new_master_key_wrapped = rw_master_key_wrapped rw,
       cp_new_kdf_salt = rw_kdf_salt rw, cp_new_kdf_params = rw_kdf_params rw\<rparr> m = (Inr (), m)" for m
    using rewrap_nonempty [OF rw] by (simp add: mock_net_def mock_change_password_def require_token_def)
  then show ?thesis
    using sk rw mock_material_run sample_unlock
    by (simp add: change_password_Inr_iff mock_accepts)
qed

lemma sample_wrong_password:
  "unlock_identity sample_lib (bo_bundle sample_boot) ''b'' (bo_secret_key sample_boot) = Inl Decrypt"
  by code_simp

lemma sample_set_avatar: "\<exists>s'. set_avatar sample_env png sample_session = (Inr (), s')"
proof -
  obtain t where mk: "vault_master_key memory_store (cl_store sample_session) =
      (Inr (Some (ui_master_key (bo_identity sample_boot))), t)"
    using sample_master_cached by blast
  obtain sealed r where "seal_with_master sample_lib (ui_master_key (bo_identity sample_boot)) png of_nat = (Inr sealed, r)"
    by (simp add: seal_with_master_def seal_def and_then_def fill_bytes_def sample_lib_def exec_simps)
  moreover obtain n where "session_set_avatar sample_w (session_new () MOCK_TOKEN) sealed
      (sample_session\<lparr>cl_store := t, host_rng := r\<rparr>) = (Inr (), sample_session\<lparr>cl_store := t, host_rng := r, host_net := n\<rparr>)"
    using mock_service.session_set_avatar_run [OF refl, where h = "sample_session\<lparr>cl_store := t, host_rng := r\<rparr>"
        and c = "()" and blob = sealed] by auto
  ultimately show ?thesis
    using mk by (auto simp: set_avatar_def and_then_Inr_iff lift_result_eq ret_eq)
qed

text \<open>A login that is refused, a store that refuses the Secret Key.\<close>

definition sample_refusing :: "(mock, memory, unit) env" where
  "sample_refusing = sample_env\<lparr>env_net := sample_w\<lparr>rpc_login :=
     (\<lambda>c m req n. (Inl (Status Unauthenticated ''wrong password''), n))\<rparr>\<rparr>"

definition locked_store :: "memory store_ops" where
  "locked_store = memory_store\<lparr>store_set :=
     (\<lambda>k v m. if k = SECRET_KEY then (Inl Backend, m) else (Inr (), m(k \<mapsto> v)))\<rparr>"

interpretation locked: atomic_store locked_store "\<lambda>m. m"
  by unfold_locales (auto simp: locked_store_def memory_store_def split: if_splits)

definition sample_locked :: "(mock, memory, unit) env" where
  "sample_locked = sample_env\<lparr>env_store := locked_store\<rparr>"

section \<open>Properties\<close>

text \<open>
  Property C15: a password change keeps the identity. When it succeeds, the store held a Secret Key, the
  server was asked once to replace the wrap, salt and parameters, and with these in place of the old ones
  the key material it served unlocks with the new password and that cached Secret Key to the same
  identity as the old material did with the old password; the client's store and memory are untouched.
\<close>

theorem change_password_keeps_identity:
  assumes "secret_store (env_store E) view" and "lib_sound (env_crypto E)"
    and "change_password E old new s = (Inr (), s')"
  shows "\<exists>sk a km n ident req.
    wf_sk sk \<and> view (cl_store s) SECRET_KEY = Some (sk_as_bytes sk) \<and>
    in_session (cl_inner s) = Some a \<and>
    rpc_get_key_material (env_net E) (as_channel a) (authed (env_net E) a) () (host_net s) = (Inr (Some km), n) \<and>
    rpc_change_password (env_net E) (as_channel a) (authed (env_net E) a) req n = (Inr (), host_net s') \<and>
    cp_current_password req = old \<and> cp_new_password req = new \<and>
    unlock_identity (env_crypto E) (key_material_to_bundle km) old sk = Inr ident \<and>
    unlock_identity (env_crypto E)
      (key_material_to_bundle (km\<lparr>km_master_key_wrapped := cp_new_master_key_wrapped req,
        km_kdf_salt := cp_new_kdf_salt req, km_kdf_params := cp_new_kdf_params req\<rparr>)) new sk = Inr ident \<and>
    view (cl_store s') = view (cl_store s) \<and> cl_inner s' = cl_inner s"
proof -
  obtain sk t a km n ident rw r n' where
    sk: "vault_secret_key (env_store E) (cl_store s) = (Inr (Some sk), t)" and
    a: "in_session (cl_inner s) = Some a" and
    km: "rpc_get_key_material (env_net E) (as_channel a) (authed (env_net E) a) () (host_net s) = (Inr (Some km), n)" and
    old: "unlock_identity (env_crypto E) (key_material_to_bundle km) old sk = Inr ident" and
    rw: "rewrap_master_key (env_crypto E) (ui_master_key ident) sk new default_kdf_params (host_rng s) = (Inr rw, r)" and
    rpc: "rpc_change_password (env_net E) (as_channel a) (authed (env_net E) a)
          \<lparr>cp_current_password = old, cp_new_password = new,
           cp_new_master_key_wrapped = rw_master_key_wrapped rw,
           cp_new_kdf_salt = rw_kdf_salt rw, cp_new_kdf_params = rw_kdf_params rw\<rparr> n = (Inr (), n')" and
    s': "s' = s\<lparr>cl_store := t, host_rng := r, host_net := n'\<rparr>"
    using assms(3) unfolding change_password_Inr_iff by blast
  note read = secret_key_read [OF assms(1) sk]
  have "unlock_identity (env_crypto E)
      (key_material_to_bundle (km\<lparr>km_master_key_wrapped := rw_master_key_wrapped rw,
        km_kdf_salt := rw_kdf_salt rw, km_kdf_params := rw_kdf_params rw\<rparr>)) new sk = Inr ident"
    using unlock_rewrapped [OF assms(2) old rw] by (simp add: key_material_to_bundle_def)
  then show ?thesis using a km rpc old read by (fastforce simp: s')
qed

theorem change_password_keeps_identity_witness:
  "\<exists>s'. change_password sample_env ''a'' ''b'' sample_session = (Inr (), s') \<and>
    cl_inner s' = cl_inner sample_session \<and> cl_store s' = cl_store sample_session"
proof -
  obtain s' where run: "change_password sample_env ''a'' ''b'' sample_session = (Inr (), s')"
    using sample_change_password by blast
  have "secret_store (env_store sample_env) (\<lambda>m. m)" "lib_sound (env_crypto sample_env)"
    by (simp_all add: memory.secret_store_axioms sample_lib_sound)
  from change_password_keeps_identity [OF this run] run show ?thesis by blast
qed

text \<open>
  Property C24: a wrong current password never reaches the server's password change. When the served
  material does not unlock with it and the cached Secret Key, the result is \<open>CryptoFailed\<close>, no random
  byte was drawn, the network is as the request for the key material left it, and the store and the
  memory are as before.
\<close>

theorem change_password_checks_locally:
  assumes "reliable_store (env_store E) view" and "wf_sk sk"
    and "view (cl_store s) SECRET_KEY = Some (sk_as_bytes sk)" and "in_session (cl_inner s) = Some a"
    and "rpc_get_key_material (env_net E) (as_channel a) (authed (env_net E) a) () (host_net s) = (Inr (Some km), n)"
    and "unlock_identity (env_crypto E) (key_material_to_bundle km) old sk = Inl e"
  shows "\<exists>t. change_password E old new s = (Inl CryptoFailed, s\<lparr>cl_store := t, host_net := n\<rparr>) \<and>
    view t = view (cl_store s)"
proof -
  obtain t where t: "vault_secret_key (env_store E) (cl_store s) = (Inr (Some sk), t)" "view t = view (cl_store s)"
    using assms(1-3) by (rule secret_key_cached)
  have "change_password E old new s = (Inl CryptoFailed, s\<lparr>cl_store := t, host_net := n\<rparr>)"
    unfolding change_password_def
    by (rule and_then_Inl_iff [THEN iffD2], rule disjI2)
       (use t(1) assms(4-6) in \<open>auto simp: and_then_Inl_iff and_then_Inr_iff lift_result_eq Let_def
          session_key_material_Inr_iff material_to_bundle_eq\<close>)
  with t(2) show ?thesis by blast
qed

theorem change_password_checks_locally_witness:
  "\<exists>t. change_password sample_env ''b'' ''c'' sample_session =
     (Inl CryptoFailed, sample_session\<lparr>cl_store := t, host_net := host_net sample_session\<rparr>)"
proof -
  have "\<exists>t. change_password sample_env ''b'' ''c'' sample_session =
      (Inl CryptoFailed, sample_session\<lparr>cl_store := t, host_net := host_net sample_session\<rparr>) \<and>
      t = cl_store sample_session"
  proof (rule change_password_checks_locally [OF _ sample_boot_wf])
    show "reliable_store (env_store sample_env) (\<lambda>m. m)" by (simp add: memory.reliable_store_axioms)
    show "rpc_get_key_material (env_net sample_env) (as_channel (session_new () MOCK_TOKEN))
        (authed (env_net sample_env) (session_new () MOCK_TOKEN)) () (host_net sample_session)
        = (Inr (Some (mo_key_material (host_net sample_session))), host_net sample_session)"
      using mock_material_run [of "()" "host_net sample_session"]
      by (simp add: mock_accepts)
    show "unlock_identity (env_crypto sample_env)
        (key_material_to_bundle (mo_key_material (host_net sample_session))) ''b'' (bo_secret_key sample_boot) = Inl Decrypt"
      by (simp add: sample_wrong_password)
  qed simp_all
  then show ?thesis by blast
qed

text \<open>
  Property C6: the avatar comes back as it was set, and the server sees only its ciphertext. On a server
  that keeps the avatar, what it holds after \<open>set_avatar\<close> is a nonce and the encryption of the picture
  under the cached master key, and \<open>get_avatar\<close> then returns the picture, the empty one included, byte
  for byte.
\<close>

theorem avatar_roundtrip:
  assumes "reliable_store (env_store E) view" and "lib_sound (env_crypto E)"
    and "account_service (env_net E) material issued avatar"
    and "wf_mk mk" and "view (cl_store s) MASTER_KEY = Some (mk_as_bytes mk)"
    and "in_session (cl_inner s) = Some (session_new c tok)" and "issued (host_net s) tok"
    and "set_avatar E png s = (Inr (), s')"
  shows "fst (get_avatar E s') = Inr (Some png) \<and>
    (\<exists>nonce ct. avatar (host_net s') = nonce @ ct \<and> length nonce = NONCE_LEN \<and>
       aead_encrypt (env_crypto E) (mk_as_bytes mk) nonce png = Some ct)"
proof -
  obtain t where t: "vault_master_key (env_store E) (cl_store s) = (Inr (Some mk), t)" "view t = view (cl_store s)"
    using assms(1,4,5) by (rule master_key_cached)
  obtain sealed r s1 where seal: "seal_with_master (env_crypto E) mk png (host_rng s) = (Inr sealed, r)"
    and set: "session_set_avatar (env_net E) (session_new c tok) sealed (s\<lparr>cl_store := t, host_rng := r\<rparr>) = (Inr (), s')"
    using assms(8) t(1) assms(6)
    by (auto simp: set_avatar_def and_then_Inr_iff lift_result_eq ret_eq)
  obtain n where s': "s' = s\<lparr>cl_store := t, host_rng := r, host_net := n\<rparr>" and n: "avatar n = sealed" "issued n tok"
    using account_service.session_set_avatar_run [OF assms(3), of "s\<lparr>cl_store := t, host_rng := r\<rparr>" tok c sealed]
      assms(7) set by auto
  have nonempty: "sealed \<noteq> []"
    using seal by (auto simp: seal_with_master_def seal_Inr_iff NONCE_LEN_def)
  obtain t' where t': "vault_master_key (env_store E) (cl_store s') = (Inr (Some mk), t')"
    using master_key_cached [OF assms(1,4), of s'] assms(5) t(2) s' by auto
  obtain n' where get: "session_get_avatar (env_net E) (session_new c tok) (s'\<lparr>cl_store := t'\<rparr>) =
      (Inr (Some sealed), s'\<lparr>cl_store := t', host_net := n'\<rparr>)"
    using account_service.session_get_avatar_run [OF assms(3), of "s'\<lparr>cl_store := t'\<rparr>" tok c] n nonempty s' by auto
  have "open_with_master (env_crypto E) mk sealed = Inr png"
    using seal assms(2,4) by (auto intro: master_seal.open_seal simp: wf_mk_def KEY_LEN_def lib_sound_def)
  then have "get_avatar E s' = (Inr (Some png), s'\<lparr>cl_store := t', host_net := n'\<rparr>)"
    using t' get assms(6) s'
    by (auto simp: get_avatar_def and_then_Inr_iff lift_result_eq ret_eq)
  moreover have "\<exists>nonce ct. sealed = nonce @ ct \<and> length nonce = NONCE_LEN \<and>
      aead_encrypt (env_crypto E) (mk_as_bytes mk) nonce png = Some ct"
    using seal unfolding seal_with_master_def seal_Inr_iff
    by (elim exE conjE) (intro exI conjI, auto)
  ultimately show ?thesis using n s' by simp
qed

theorem avatar_roundtrip_witness:
  "\<exists>s'. set_avatar sample_env [1, 2, 3] sample_session = (Inr (), s') \<and> fst (get_avatar sample_env s') = Inr (Some [1, 2, 3])"
proof -
  let ?mk = "ui_master_key (bo_identity sample_boot)"
  obtain s' where run: "set_avatar sample_env [1, 2, 3] sample_session = (Inr (), s')"
    using sample_set_avatar by blast
  have "fst (get_avatar sample_env s') = Inr (Some [1, 2, 3]) \<and>
    (\<exists>nonce ct. mock_blob (host_net s') = nonce @ ct \<and> length nonce = NONCE_LEN \<and>
       aead_encrypt (env_crypto sample_env) (mk_as_bytes ?mk) nonce [1, 2, 3] = Some ct)"
  proof (rule avatar_roundtrip [OF _ _ _ sample_master_wf _ _ _ run])
    show "reliable_store (env_store sample_env) (\<lambda>m. m)" by (simp add: memory.reliable_store_axioms)
    show "account_service (env_net sample_env) mo_key_material (\<lambda>m tok. tok = MOCK_TOKEN) mock_blob"
      by (simp add: mock_service.account_service_axioms)
  qed (simp_all add: sample_lib_sound)
  with run show ?thesis by blast
qed

text \<open>
  Property C23: resuming goes back to the server that was connected. For every host text and every port,
  a profile whose first endpoint is what \<open>connect\<close> stored for them makes \<open>restore\<close> discover and
  connect that host and port again with the stored pin; it then answers with the stored user, or
  with nothing to resume when the server cannot be reached or has another identity.
\<close>

theorem restore_resumes_connected_endpoint:
  assumes "reliable_store (env_store E) view"
    and "view (cl_store s) SERVER_PROFILE = Some b" and "profile_json_read (env_vault E) b = Some prof"
    and "sp_endpoints prof = host_port host port # rest"
    and "view (cl_store s) SESSION_TOKEN = Some (str_bytes tok)" and "utf8_valid (str_bytes tok)"
  shows "\<exists>t. view t = view (cl_store s) \<and>
    restore E s =
      (case discover_and_connect (env_discovery E) (env_net E) host port (Some (sp_identity_public prof)) (s\<lparr>cl_store := t\<rparr>) of
         (Inl e, s2) \<Rightarrow> (Inr None, s2)
       | (Inr (c, v, d), s2) \<Rightarrow>
           (Inr (Some (sp_user_id prof)),
            s2\<lparr>cl_inner := (cl_inner s2)\<lparr>in_endpoints := sp_endpoints prof, in_session := Some (session_new c tok),
                in_verified := Some v, in_channel := Some c\<rparr>\<rparr>))"
proof -
  obtain t1 where t1: "store_get (env_store E) SERVER_PROFILE (cl_store s) = (Inr (Some b), t1)" "view t1 = view (cl_store s)"
    using reliable_store.get_run [OF assms(1), of SERVER_PROFILE "cl_store s"] assms(2) by auto
  obtain t where t: "store_get (env_store E) SESSION_TOKEN t1 = (Inr (Some (str_bytes tok)), t)" "view t = view t1"
    using reliable_store.get_run [OF assms(1), of SESSION_TOKEN t1] assms(5) t1(2) by auto
  have prof: "vault_server_profile (env_vault E) (env_store E) (cl_store s) = (Inr (Some prof), t1)"
    using t1(1) assms(3) by (simp add: vault_server_profile_def and_then_Inr_iff decode_stored_def exec_simps)
  have tok: "vault_session_token (env_store E) t1 = (Inr (Some tok), t)"
    using t(1) assms(6)
    by (simp add: vault_session_token_def and_then_Inr_iff decode_stored_def exec_simps string_from_utf8_def)
  have endpoint: "rsplit_once (CHR '':'') (host_port host port) = Some (host, show_u16 port)"
    unfolding host_port_def using rsplit_once_append [of "CHR '':''" "show_u16 port" host]
    by (simp add: show_u16_def show_nat_no_sign)
  have "on_store (vault_server_profile (env_vault E) (env_store E)) s = (Inr (Some prof), s\<lparr>cl_store := t1\<rparr>)"
    using prof by simp
  moreover have "on_store (vault_session_token (env_store E)) (s\<lparr>cl_store := t1\<rparr>) = (Inr (Some tok), s\<lparr>cl_store := t\<rparr>)"
    using tok by simp
  ultimately have "restore E s = resumed E prof tok host port (s\<lparr>cl_store := t\<rparr>)"
    using u16_text.dec_enc [of port]
    by (simp add: restore_resumed and_then_Inr assms(4) endpoint del: on_store_Inr_iff)
  then have "restore E s =
      (case discover_and_connect (env_discovery E) (env_net E) host port (Some (sp_identity_public prof)) (s\<lparr>cl_store := t\<rparr>) of
         (Inl e, s2) \<Rightarrow> (Inr None, s2)
       | (Inr (c, v, d), s2) \<Rightarrow>
           (Inr (Some (sp_user_id prof)),
            s2\<lparr>cl_inner := (cl_inner s2)\<lparr>in_endpoints := sp_endpoints prof, in_session := Some (session_new c tok),
                in_verified := Some v, in_channel := Some c\<rparr>\<rparr>))"
    by (simp add: resumed_def attempt_then set_inner_steps ret_eq split: prod.split sum.split)
  with t(2) t1(2) show ?thesis by (intro exI [of _ t]) simp
qed

theorem restore_resumes_connected_endpoint_witness:
  "\<exists>s'. restore sample_env sample_session = (Inr (Some ''u-1''), s')"
proof -
  let ?prof = "\<lparr>sp_endpoints = [''h:1''], sp_identity_public = sample_public, sp_user_id = ''u-1''\<rparr>"
  have "\<exists>t. t = cl_store sample_session \<and>
    restore sample_env sample_session =
      (case discover_and_connect (env_discovery sample_env) (env_net sample_env) ''h'' 1
          (Some (sp_identity_public ?prof)) (sample_session\<lparr>cl_store := t\<rparr>) of
         (Inl e, s2) \<Rightarrow> (Inr None, s2)
       | (Inr (c, v, d), s2) \<Rightarrow>
           (Inr (Some (sp_user_id ?prof)),
            s2\<lparr>cl_inner := (cl_inner s2)\<lparr>in_endpoints := sp_endpoints ?prof, in_session := Some (session_new c ''tok-facade''),
                in_verified := Some v, in_channel := Some c\<rparr>\<rparr>))"
  proof (rule restore_resumes_connected_endpoint)
    show "reliable_store (env_store sample_env) (\<lambda>m. m)" by (simp add: memory.reliable_store_axioms)
    show "profile_json_read (env_vault sample_env) (3 # str_bytes ''h:1'' @ sample_public @ str_bytes ''u-1'') = Some ?prof"
      by (simp add: sample_profiles_def sample_public_def)
    show "sp_endpoints ?prof = host_port ''h'' 1 # []"
      by (simp add: host_port_def show_u16_def show_nat.simps char_of_def bit_Suc bit_0)
    show "utf8_valid (str_bytes ''tok-facade'')" by (simp add: str_bytes_def byte_of_char_def)
  qed simp_all
  moreover have "host_rng (sample_session\<lparr>cl_store := t\<rparr>) = of_nat" for t by simp
  ultimately show ?thesis by (auto simp: sample_discover_any)
qed

text \<open>
  Property C5: a forgotten server leaves nothing to come back to. After \<open>forget_server\<close> succeeds none
  of the five entries is left and the memory is empty; resuming finds nothing and signing in without
  entering the Secret Key is refused, both without contacting anyone or drawing a random byte; and a
  session operation is refused.
\<close>

theorem forget_leaves_nothing:
  assumes "reliable_store (env_store E) view" and "forget_server E s = (Inr (), s')"
  shows "(\<forall>k \<in> set VAULT_KEYS. view (cl_store s') k = None) \<and> cl_inner s' = inner_default \<and>
    (\<exists>t. restore E s' = (Inr None, s'\<lparr>cl_store := t\<rparr>)) \<and>
    (\<exists>t. sign_in E email pw None s' = (Inl SecretKeyRequired, s'\<lparr>cl_store := t\<rparr>)) \<and>
    list_devices E s' = (Inl NotSignedIn, s')"
proof -
  note store = reliable_store.axioms(1) [OF assms(1)]
  obtain t where clear: "vault_clear (env_store E) (cl_store s) = (Inr (), t)"
    and s': "s' = s\<lparr>cl_store := t, cl_inner := inner_default\<rparr>"
    using assms(2) by (auto simp: forget_server_def and_then_Inr_iff set_inner_def exec_simps)
  have gone: "view t k = None" if "k \<in> set VAULT_KEYS" for k
    using secret_store.delete_all_gone [OF store clear [unfolded vault_clear_keys] that] .
  obtain t1 where t1: "store_get (env_store E) SERVER_PROFILE t = (Inr None, t1)"
    using reliable_store.get_run [OF assms(1), of SERVER_PROFILE t] gone by (auto simp: VAULT_KEYS_def)
  obtain t2 where t2: "store_get (env_store E) SECRET_KEY t = (Inr None, t2)"
    using reliable_store.get_run [OF assms(1), of SECRET_KEY t] gone by (auto simp: VAULT_KEYS_def)
  have "restore E s' = (Inr None, s'\<lparr>cl_store := t1\<rparr>)"
  proof -
    have "on_store (vault_server_profile (env_vault E) (env_store E)) s' = (Inr None, s'\<lparr>cl_store := t1\<rparr>)"
      using t1 by (simp add: s' vault_server_profile_def and_then_Inr_iff decode_stored_def exec_simps)
    then show ?thesis by (simp add: restore_def and_then_Inr ret_eq del: on_store_Inr_iff)
  qed
  moreover have "sign_in E email pw None s' = (Inl SecretKeyRequired, s'\<lparr>cl_store := t2\<rparr>)"
  proof -
    have "resolve_secret_key E None s' = (Inl SecretKeyRequired, s'\<lparr>cl_store := t2\<rparr>)"
      using t2 by (simp add: s' resolve_secret_key_def vault_secret_key_def and_then_Inl_iff and_then_Inr_iff
          decode_stored_def exec_simps)
    then show ?thesis by (simp add: sign_in_def and_then_Inl)
  qed
  moreover have "list_devices E s' = (Inl NotSignedIn, s')"
    by (simp add: list_devices_def and_then_Inl_iff s' inner_default_def)
  ultimately show ?thesis using gone by (auto simp: s')
qed

theorem forget_leaves_nothing_witness:
  "\<exists>s'. forget_server sample_env sample_session = (Inr (), s') \<and> (\<exists>t. restore sample_env s' = (Inr None, s'\<lparr>cl_store := t\<rparr>))"
proof -
  have store: "reliable_store (env_store sample_env) (\<lambda>m. m)" by (simp add: memory.reliable_store_axioms)
  obtain t where "vault_clear memory_store (cl_store sample_session) = (Inr (), t)"
    using memory.delete_all_run unfolding vault_clear_keys by blast
  then have "\<exists>s'. forget_server sample_env sample_session = (Inr (), s')"
    by (simp add: forget_server_def and_then_Inr_iff set_inner_def exec_simps)
  with forget_leaves_nothing [OF store, of sample_session] show ?thesis by blast
qed

text \<open>
  Property C35: a password the server rejects is reported as a server error. When the login call fails,
  with whatever status, signing in returns \<open>ServerError\<close>, never the error for a wrong password, and
  stores nothing and keeps the memory: with an entered Secret Key that parses, and on a returning device
  with the key that its store holds.
\<close>

theorem rejected_sign_in_is_server_error:
  assumes "reliable_store (env_store E) view"
    and "in_channel (cl_inner s) = Some c" and "in_verified (cl_inner s) = Some v"
    and "rpc_login (env_net E) c None
      \<lparr>lr_email = email, lr_password = pw, lr_mfa_challenge_token = [], lr_mfa_response = []\<rparr> (host_net s) = (Inl st, n)"
  shows "(sk_parse entered = Inr sk \<longrightarrow> sign_in E email pw (Some entered) s = (Inl ServerError, s\<lparr>host_net := n\<rparr>)) \<and>
    (view (cl_store s) SECRET_KEY = Some raw \<and> length raw = SECRET_KEY_BYTES \<longrightarrow>
       (\<exists>t. view t = view (cl_store s) \<and> sign_in E email pw None s = (Inl ServerError, s\<lparr>cl_store := t, host_net := n\<rparr>)))"
proof (intro conjI impI)
  have login: "login (env_crypto E) (env_net E) c email pw sk (s\<lparr>cl_store := t\<rparr>) =
      (Inl (Transport_Failed (Rpc st)), s\<lparr>cl_store := t, host_net := n\<rparr>)" for sk t
    using assms(4) by (auto simp: login_def login_call_def and_then_Inl_iff map_error_Inl_iff)
  show "sign_in E email pw (Some entered) s = (Inl ServerError, s\<lparr>host_net := n\<rparr>)" if "sk_parse entered = Inr sk"
    using that assms(2,3) login [of sk "cl_store s"]
    by (simp add: sign_in_signed_in resolve_secret_key_def get_inner_steps exec_steps attempt_then
        signed_in_def throw_eq)
  assume raw: "view (cl_store s) SECRET_KEY = Some raw \<and> length raw = SECRET_KEY_BYTES"
  then have "wf_sk (SecretKey raw)" "view (cl_store s) SECRET_KEY = Some (sk_as_bytes (SecretKey raw))"
    by (simp_all add: wf_sk_def)
  then obtain t where t: "vault_secret_key (env_store E) (cl_store s) = (Inr (Some (SecretKey raw)), t)"
    and same: "view t = view (cl_store s)"
    by (rule secret_key_cached [OF assms(1)])
  have "resolve_secret_key E None s = (Inr (SecretKey raw), s\<lparr>cl_store := t\<rparr>)"
    using t by (simp add: resolve_secret_key_def read_then exec_steps ret_eq)
  then have "sign_in E email pw None s = (Inl ServerError, s\<lparr>cl_store := t, host_net := n\<rparr>)"
    using assms(2,3) login [of "SecretKey raw" t]
    by (simp add: sign_in_signed_in and_then_Inr get_inner_steps exec_steps attempt_then signed_in_def throw_eq)
  with same show "\<exists>t. view t = view (cl_store s) \<and>
      sign_in E email pw None s = (Inl ServerError, s\<lparr>cl_store := t, host_net := n\<rparr>)" by blast
qed

theorem rejected_sign_in_is_server_error_witness:
  "sign_in sample_refusing ''e'' ''wrong'' (Some (sk_display (bo_secret_key sample_boot))) sample_returning =
     (Inl ServerError, sample_returning) \<and>
   (\<exists>t. sign_in sample_refusing ''e'' ''wrong'' None sample_returning =
     (Inl ServerError, sample_returning\<lparr>cl_store := t, host_net := host_net sample_returning\<rparr>))"
proof -
  have parse: "sk_parse (sk_display (bo_secret_key sample_boot)) = Inr (bo_secret_key sample_boot)"
    using sk_text.dec_enc [OF sample_boot_wf] by simp
  have store: "reliable_store (env_store sample_refusing) (\<lambda>m. m)"
    by (simp add: sample_refusing_def memory.reliable_store_axioms)
  have on: "in_channel (cl_inner sample_returning) = Some ()" "in_verified (cl_inner sample_returning) = Some sample_server"
    "rpc_login (env_net sample_refusing) () None
      \<lparr>lr_email = ''e'', lr_password = ''wrong'', lr_mfa_challenge_token = [], lr_mfa_response = []\<rparr> (host_net sample_returning)
      = (Inl (Status Unauthenticated ''wrong password''), host_net sample_returning)"
    by (simp_all add: sample_refusing_def sample_returning_def sample_online_def)
  have cached: "cl_store sample_returning SECRET_KEY = Some (sk_as_bytes (bo_secret_key sample_boot))"
    "length (sk_as_bytes (bo_secret_key sample_boot)) = SECRET_KEY_BYTES"
    using sample_boot_wf by (simp_all add: sample_returning_def entry_names wf_sk_def)
  have same: "sample_returning\<lparr>host_net := host_net sample_returning\<rparr> = sample_returning" by simp
  from rejected_sign_in_is_server_error [OF store on, where raw = "sk_as_bytes (bo_secret_key sample_boot)"] parse cached same
  show ?thesis by fastforce
qed

text \<open>
  Property C34: an owner whose Secret Key cannot be stored is lost. When the server has accepted the
  enrollment but the store refuses the Secret Key, leaving the entry as it was, the result is an error
  without the key, and neither the store nor the memory holds it, although the account on the server
  needs it.
\<close>

theorem owner_lost_when_store_refuses_key:
  assumes "atomic_store (env_store E) view"
    and "\<And>k t. \<exists>e t'. store_set (env_store E) SECRET_KEY k t = (Inl e, t')"
    and "in_channel (cl_inner s) = Some c" and "in_verified (cl_inner s) = Some v"
    and "enroll_new_owner (env_crypto E) (env_net E) c
          \<lparr>no_email = email, no_display_name = name, no_password = pw, no_device_label = label,
           no_platform = env_os E, no_machine_label = label\<rparr> s = (Inr en, s1)"
  shows "\<exists>t. create_owner E email name pw label s = (Inl StorageFailed, s1\<lparr>cl_store := t\<rparr>) \<and>
    view t SECRET_KEY = view (cl_store s) SECRET_KEY \<and> cl_inner s1 = cl_inner s"
proof -
  have "host.more s1 = host.more s"
    using keepsD [OF keeps_rest_enroll refl assms(5) [unfolded enroll_new_owner_def]] .
  from client_parts_more [OF this] have parts: "cl_store s1 = cl_store s" "cl_inner s1 = cl_inner s" by simp_all
  note store = atomic_store.axioms(1) [OF assms(1)]
  obtain q t1 where m: "vault_set_master_key (env_store E) (ui_master_key (eo_identity en)) (cl_store s) = (q, t1)"
    by (cases "vault_set_master_key (env_store E) (ui_master_key (eo_identity en)) (cl_store s)")
  then have v1: "view t1 SECRET_KEY = view (cl_store s) SECRET_KEY"
    using secret_store.set_other [OF store] by (auto simp: vault_set_master_key_def entry_names)
  obtain e t2 where k: "vault_set_secret_key (env_store E) (eo_secret_key en) t1 = (Inl e, t2)"
    using assms(2) [of "sk_as_bytes (eo_secret_key en)" t1] by (auto simp: vault_set_secret_key_def)
  then have v2: "view t2 SECRET_KEY = view t1 SECRET_KEY"
    using atomic_store.set_failed [OF assms(1)] by (auto simp: vault_set_secret_key_def)
  define t where "t = (if q = Inr () then t2 else t1)"
  have "create_owner E email name pw label s = (Inl StorageFailed, s1\<lparr>cl_store := t\<rparr>)"
    using assms(3-5) m k parts
    by (cases q) (simp_all add: create_owner_def get_inner_steps exec_steps and_then_Inl_iff persist_def Let_def t_def)
  moreover have "view t SECRET_KEY = view (cl_store s) SECRET_KEY" by (simp add: t_def v1 v2)
  ultimately show ?thesis using parts by blast
qed

theorem owner_lost_when_store_refuses_key_witness:
  "\<exists>s'. create_owner sample_locked ''e'' ''n'' ''pw'' ''pc'' sample_online = (Inl StorageFailed, s')"
proof -
  obtain en s1 where "enroll_new_owner (env_crypto sample_locked) (env_net sample_locked) ()
      \<lparr>no_email = ''e'', no_display_name = ''n'', no_password = ''pw'', no_device_label = ''pc'',
       no_platform = env_os sample_locked, no_machine_label = ''pc''\<rparr> sample_online = (Inr en, s1)"
    using enroll_sample_total by (simp add: sample_locked_def) blast
  moreover have "atomic_store (env_store sample_locked) (\<lambda>m. m)"
    by (simp add: sample_locked_def locked.atomic_store_axioms)
  moreover have "\<exists>e t'. store_set (env_store sample_locked) SECRET_KEY k t = (Inl e, t')" for k t
    by (simp add: sample_locked_def locked_store_def)
  ultimately show ?thesis
    using owner_lost_when_store_refuses_key [of sample_locked "\<lambda>m. m" sample_online "()" sample_server]
    by (fastforce simp: sample_online_def)
qed

text \<open>
  The code's copies of one function agree. The facade's hex is the discovery module's hex,
  so the fingerprint of a connected server determines its 32-byte key, and its bridge from key
  material to a bundle is the bridge of the flows.
\<close>

lemma duplicated_helpers_agree:
  "client_hex bs = encode_hex bs \<and> decode_hex_array (length bs) (client_hex bs) = Some bs \<and>
   material_to_bundle m = key_material_to_bundle m"
  using hex_text.dec_enc [of bs "length bs"] by (simp add: client_hex_eq material_to_bundle_eq)

end
