(* ===== verification/Client_Tasks.thy ===== *)
theory Client_Tasks
  imports Client_Account
begin

text \<open>
  Operations of one client that run at the same time. The lock of \<open>src/client.rs\<close> guards only the
  in-memory part, and many methods do their store or discovery work before they take it: a method has
  a part before the lock and a part under it. Here a task runs one of the two parts at a time, and a
  schedule interleaves the parts of any number of tasks. Each part is one step here; \<open>Client_Steps\<close>
  takes the parts apart.
\<close>

section \<open>The two parts of the operations\<close>

text \<open>What a task holds between its two parts.\<close>

datatype 'c pending =
    Locked client_op
  | Connecting string u16 'c verified_server
  | Signing_In string string secret_key
  | Changing_Password string string secret_key
  | Fetching_Avatar master_key
  | Storing_Avatar bytes
  | Leaving
  | Resuming server_profile string 'c verified_server

text \<open>\<open>connect\<close>: discovery against the stored pin, then the in-memory update.\<close>

definition connect_lookup ::
  "('n, 's, 'c) env \<Rightarrow> string \<Rightarrow> u16 \<Rightarrow> ('n, 's, 'c, 'c \<times> verified_server \<times> trust_decision) client_exec" where
  "connect_lookup E host port =
     and_then (on_store (vault_server_profile (env_vault E) (env_store E))) (\<lambda>stored.
     map_error map_connect_err
       (discover_and_connect (env_discovery E) (env_net E) host port (map_option sp_identity_public stored)))"

definition connect_finish :: "string \<Rightarrow> u16 \<Rightarrow> 'c \<Rightarrow> verified_server \<Rightarrow> ('n, 's, 'c, unit) client_exec" where
  "connect_finish host port channel verified =
     set_inner (\<lambda>inner. inner\<lparr>in_endpoints := [host_port host port], in_verified := Some verified,
       in_channel := Some channel\<rparr>)"

text \<open>\<open>sign_in\<close> once the Secret Key is known.\<close>

definition sign_in_locked ::
  "('n, 's, 'c) env \<Rightarrow> string \<Rightarrow> string \<Rightarrow> secret_key \<Rightarrow> ('n, 's, 'c, sign_in_outcome) client_exec" where
  "sign_in_locked E email password resolved =
     and_then get_inner (\<lambda>inner.
     and_then (lift_result (ok_or (in_channel inner) NotConnected)) (\<lambda>channel.
     and_then (lift_result (ok_or (in_verified inner) NotConnected)) (\<lambda>verified.
     and_then (attempt (login (env_crypto E) (env_net E) channel email password resolved))
       (signed_in E verified (in_endpoints inner) resolved))))"

text \<open>\<open>change_password\<close> once the Secret Key is known.\<close>

definition change_password_locked ::
  "('n, 's, 'c) env \<Rightarrow> string \<Rightarrow> string \<Rightarrow> secret_key \<Rightarrow> ('n, 's, 'c, unit) client_exec" where
  "change_password_locked E current_password new_password sk =
     and_then current_session (\<lambda>session.
     and_then (server_call (session_key_material (env_net E) session)) (\<lambda>material.
     and_then (lift_result (map_sum (\<lambda>_. CryptoFailed) id
         (unlock_identity (env_crypto E) (material_to_bundle material) current_password sk))) (\<lambda>unlocked.
     and_then (map_error (\<lambda>_. CryptoFailed) (with_rng (rewrap_master_key (env_crypto E)
         (ui_master_key unlocked) sk new_password default_kdf_params))) (\<lambda>rewrapped.
     and_then (map_error map_change_password_err (session_change_password (env_net E) session
         \<lparr>cp_current_password = current_password,
          cp_new_password = new_password,
          cp_new_master_key_wrapped = rw_master_key_wrapped rewrapped,
          cp_new_kdf_salt = rw_kdf_salt rewrapped,
          cp_new_kdf_params = rw_kdf_params rewrapped\<rparr>)) (\<lambda>_.
     ret ())))))"

text \<open>\<open>get_avatar\<close> and \<open>set_avatar\<close> once the master key is known and, for the latter, has sealed.\<close>

definition get_avatar_locked :: "('n, 's, 'c) env \<Rightarrow> master_key \<Rightarrow> ('n, 's, 'c, bytes option) client_exec" where
  "get_avatar_locked E master =
     and_then current_session (\<lambda>session.
     and_then (server_call (session_get_avatar (env_net E) session)) (\<lambda>blob.
       (case blob of
          Some b \<Rightarrow>
            and_then (lift_result (map_sum (\<lambda>_. CryptoFailed) id (open_with_master (env_crypto E) master b)))
              (\<lambda>png. ret (Some png))
        | None \<Rightarrow> ret None)))"

definition set_avatar_locked :: "('n, 's, 'c) env \<Rightarrow> bytes \<Rightarrow> ('n, 's, 'c, unit) client_exec" where
  "set_avatar_locked E sealed =
     and_then current_session (\<lambda>session.
     and_then (server_call (session_set_avatar (env_net E) session sealed)) (\<lambda>_. ret ()))"

text \<open>\<open>restore\<close>: what there is to resume, then the in-memory update.\<close>

definition restore_lookup ::
  "('n, 's, 'c) env \<Rightarrow> ('n, 's, 'c, (server_profile \<times> string \<times> 'c \<times> verified_server) option) client_exec" where
  "restore_lookup E =
     and_then (on_store (vault_server_profile (env_vault E) (env_store E))) (\<lambda>stored.
       (case stored of
          None \<Rightarrow> ret None
        | Some profile \<Rightarrow>
     and_then (on_store (vault_session_token (env_store E))) (\<lambda>cached.
       (case cached of
          None \<Rightarrow> ret None
        | Some token \<Rightarrow>
       (case sp_endpoints profile of
          [] \<Rightarrow> ret None
        | endpoint # _ \<Rightarrow>
       (case rsplit_once (CHR '':'') endpoint of
          None \<Rightarrow> ret None
        | Some (host, port) \<Rightarrow>
       (case parse_u16 port of
          None \<Rightarrow> ret None
        | Some discovery_port \<Rightarrow>
     and_then (attempt (discover_and_connect (env_discovery E) (env_net E) host discovery_port
         (Some (sp_identity_public profile)))) (\<lambda>result.
       (case result of
          Inl e \<Rightarrow> ret None
        | Inr (channel, verified, decision) \<Rightarrow> ret (Some (profile, token, channel, verified)))))))))))"

definition restore_finish ::
  "server_profile \<Rightarrow> string \<Rightarrow> 'c \<Rightarrow> verified_server \<Rightarrow> ('n, 's, 'c, unit) client_exec" where
  "restore_finish profile token channel verified =
     set_inner (\<lambda>inner. inner\<lparr>in_endpoints := sp_endpoints profile,
       in_session := Some (session_new channel token),
       in_verified := Some verified, in_channel := Some channel\<rparr>)"


section \<open>Tasks\<close>

definition silent :: "('s, 'e, 'a) exec \<Rightarrow> ('s, 'e, unit) exec" where
  "silent m = and_then m (\<lambda>_. ret ())"

text \<open>A whole operation without its result.\<close>

fun exec_op :: "('n, 's, 'c) env \<Rightarrow> client_op \<Rightarrow> ('n, 's, 'c, unit) client_exec" where
  "exec_op E (Op_Connect host port) = silent (client_connect E host port)"
| "exec_op E (Op_Create_Owner email name pw label) = silent (create_owner E email name pw label)"
| "exec_op E (Op_Sign_In email pw sk) = silent (sign_in E email pw sk)"
| "exec_op E (Op_Enroll_This_Device label) = silent (enroll_this_device E label)"
| "exec_op E Op_List_Devices = silent (list_devices E)"
| "exec_op E (Op_Revoke_Device d) = silent (revoke_device E d)"
| "exec_op E Op_Get_Profile = silent (get_profile E)"
| "exec_op E (Op_Update_Display_Name name) = silent (update_display_name E name)"
| "exec_op E (Op_Update_Email email pw) = silent (update_email E email pw)"
| "exec_op E (Op_Change_Password old new) = silent (change_password E old new)"
| "exec_op E Op_Get_Avatar = silent (get_avatar E)"
| "exec_op E (Op_Set_Avatar png) = silent (set_avatar E png)"
| "exec_op E Op_Sign_Out = silent (sign_out E)"
| "exec_op E Op_Forget_Server = silent (forget_server E)"
| "exec_op E Op_Restore = silent (restore E)"

text \<open>The part before the lock; \<open>None\<close> when there is nothing left to do.\<close>

fun first_part :: "('n, 's, 'c) env \<Rightarrow> client_op \<Rightarrow> ('n, 's, 'c, 'c pending option) client_exec" where
  "first_part E (Op_Connect host port) =
     and_then (connect_lookup E host port) (\<lambda>(channel, verified, _). ret (Some (Connecting host port channel verified)))"
| "first_part E (Op_Sign_In email pw entered) =
     and_then (resolve_secret_key E entered) (\<lambda>sk. ret (Some (Signing_In email pw sk)))"
| "first_part E (Op_Change_Password old new) =
     and_then (on_store (vault_secret_key (env_store E))) (\<lambda>cached.
     and_then (lift_result (ok_or cached SecretKeyRequired)) (\<lambda>sk. ret (Some (Changing_Password old new sk))))"
| "first_part E Op_Get_Avatar =
     and_then (on_store (vault_master_key (env_store E))) (\<lambda>cached.
     and_then (lift_result (ok_or cached NotSignedIn)) (\<lambda>master. ret (Some (Fetching_Avatar master))))"
| "first_part E (Op_Set_Avatar png) =
     and_then (on_store (vault_master_key (env_store E))) (\<lambda>cached.
     and_then (lift_result (ok_or cached NotSignedIn)) (\<lambda>master.
     and_then (map_error (\<lambda>_. CryptoFailed) (with_rng (seal_with_master (env_crypto E) master png))) (\<lambda>sealed.
     ret (Some (Storing_Avatar sealed)))))"
| "first_part E Op_Sign_Out =
     and_then (on_store (vault_clear_session (env_store E))) (\<lambda>_. ret (Some Leaving))"
| "first_part E Op_Forget_Server =
     and_then (on_store (vault_clear (env_store E))) (\<lambda>_. ret (Some Leaving))"
| "first_part E Op_Restore =
     and_then (restore_lookup E) (\<lambda>found.
     ret (map_option (\<lambda>(profile, token, channel, verified). Resuming profile token channel verified) found))"
| "first_part E op = ret (Some (Locked op))"

text \<open>The part under the lock.\<close>

fun second_part :: "('n, 's, 'c) env \<Rightarrow> 'c pending \<Rightarrow> ('n, 's, 'c, unit) client_exec" where
  "second_part E (Locked op) = exec_op E op"
| "second_part E (Connecting host port channel verified) = connect_finish host port channel verified"
| "second_part E (Signing_In email pw sk) = silent (sign_in_locked E email pw sk)"
| "second_part E (Changing_Password old new sk) = change_password_locked E old new sk"
| "second_part E (Fetching_Avatar master) = silent (get_avatar_locked E master)"
| "second_part E (Storing_Avatar sealed) = set_avatar_locked E sealed"
| "second_part E Leaving = set_inner (\<lambda>_. inner_default)"
| "second_part E (Resuming profile token channel verified) = restore_finish profile token channel verified"

datatype 'c task =
    Ready client_op
  | Waiting "'c pending"
  | Done "client_error option"

fun outcome :: "'e + 'a \<Rightarrow> 'e option" where
  "outcome (Inl e) = Some e"
| "outcome (Inr x) = None"

fun advance ::
  "('n, 's, 'c) env \<Rightarrow> 'c task \<Rightarrow> ('n, 's, 'c) client \<Rightarrow> 'c task \<times> ('n, 's, 'c) client" where
  "advance E (Ready op) s =
     (case first_part E op s of
        (Inl e, s') \<Rightarrow> (Done (Some e), s')
      | (Inr None, s') \<Rightarrow> (Done None, s')
      | (Inr (Some p), s') \<Rightarrow> (Waiting p, s'))"
| "advance E (Waiting p) s = (case second_part E p s of (r, s') \<Rightarrow> (Done (outcome r), s'))"
| "advance E (Done r) s = (Done r, s)"

text \<open>
  Schedules: tasks are added and advanced one part at a time, in any order that \<open>admitted\<close> allows.
\<close>

inductive runs ::
  "('n, 's, 'c) env \<Rightarrow> ('c task list \<Rightarrow> nat \<Rightarrow> bool) \<Rightarrow> 'c task list \<Rightarrow> ('n, 's, 'c) client \<Rightarrow>
     'c task list \<Rightarrow> ('n, 's, 'c) client \<Rightarrow> bool"
  for E admitted ts0 s0 where
  stop: "runs E admitted ts0 s0 ts0 s0"
| spawn: "runs E admitted ts0 s0 ts s \<Longrightarrow> runs E admitted ts0 s0 (ts @ [Ready op]) s"
| part: "runs E admitted ts0 s0 ts s \<Longrightarrow> i < length ts \<Longrightarrow> admitted ts i \<Longrightarrow> advance E (ts ! i) s = (t, s') \<Longrightarrow>
    runs E admitted ts0 s0 (ts[i := t]) s'"

section \<open>One task alone is the operation\<close>

definition in_two_parts ::
  "('n, 's, 'c) env \<Rightarrow> client_op \<Rightarrow> ('n, 's, 'c, unit) client_exec" where
  "in_two_parts E op = and_then (first_part E op) (\<lambda>p. case p of None \<Rightarrow> ret () | Some q \<Rightarrow> second_part E q)"

lemma advance_two_parts:
  "(case advance E (Ready op) s of (t, s1) \<Rightarrow> advance E t s1) =
     (Done (outcome (fst (in_two_parts E op s))), snd (in_two_parts E op s))"
  by (auto simp: in_two_parts_def and_then_def ret_def split: prod.split sum.split option.split)


lemma and_then_ret_right: "and_then m ret = m" "and_then m (\<lambda>_. ret ()) = m"
  by (auto simp: fun_eq_iff and_then_def ret_def split: prod.split sum.split)

lemmas monad_laws = and_then_assoc and_then_ret and_then_throw and_then_ret_right

lemma and_then_cases:
  "and_then (case a of None \<Rightarrow> m | Some x \<Rightarrow> k x) f = (case a of None \<Rightarrow> and_then m f | Some x \<Rightarrow> and_then (k x) f)"
  "and_then (case ys of [] \<Rightarrow> m' | y # zs \<Rightarrow> j y zs) f' = (case ys of [] \<Rightarrow> and_then m' f' | y # zs \<Rightarrow> and_then (j y zs) f')"
  "and_then (case r of Inl e \<Rightarrow> g e | Inr y \<Rightarrow> h y) f'' = (case r of Inl e \<Rightarrow> and_then (g e) f'' | Inr y \<Rightarrow> and_then (h y) f'')"
  "and_then (case p of (b, c) \<Rightarrow> q b c) f''' = (case p of (b, c) \<Rightarrow> and_then (q b c) f''')"
  by (simp_all split: option.split list.split sum.split prod.split)

lemma parts_connect: "in_two_parts E (Op_Connect host port) = exec_op E (Op_Connect host port)"
  by (simp add: in_two_parts_def silent_def client_connect_def connect_lookup_def connect_finish_def Let_def
      monad_laws and_then_cases case_prod_unfold)

lemma parts_sign_in: "in_two_parts E (Op_Sign_In email pw entered) = exec_op E (Op_Sign_In email pw entered)"
  by (simp add: in_two_parts_def silent_def sign_in_signed_in sign_in_locked_def monad_laws)

lemma parts_change_password: "in_two_parts E (Op_Change_Password old new) = exec_op E (Op_Change_Password old new)"
  by (simp add: in_two_parts_def silent_def change_password_def change_password_locked_def Let_def monad_laws)

lemma parts_avatar:
  "in_two_parts E Op_Get_Avatar = exec_op E Op_Get_Avatar"
  "in_two_parts E (Op_Set_Avatar png) = exec_op E (Op_Set_Avatar png)"
  by (simp_all add: in_two_parts_def silent_def get_avatar_def set_avatar_def get_avatar_locked_def
      set_avatar_locked_def monad_laws)

lemma parts_leave:
  "in_two_parts E Op_Sign_Out = exec_op E Op_Sign_Out"
  "in_two_parts E Op_Forget_Server = exec_op E Op_Forget_Server"
  by (simp_all add: in_two_parts_def silent_def sign_out_def forget_server_def monad_laws)

lemma parts_restore: "in_two_parts E Op_Restore = exec_op E Op_Restore"
  by (simp add: in_two_parts_def silent_def restore_def restore_lookup_def restore_finish_def monad_laws
      and_then_cases case_prod_unfold cong: option.case_cong list.case_cong sum.case_cong)

lemma parts_locked:
  "first_part E op = ret (Some (Locked op)) \<Longrightarrow> in_two_parts E op = exec_op E op"
  by (simp add: in_two_parts_def monad_laws)

lemma in_two_parts_exec: "in_two_parts E op = exec_op E op"
  by (cases op) (simp_all only: parts_connect parts_sign_in parts_change_password parts_avatar parts_leave
      parts_restore parts_locked first_part.simps)

lemma snd_silent: "snd (silent m s) = snd (m s)"
  by (simp add: silent_def and_then_def ret_def split: prod.split sum.split)

lemma exec_run_op: "snd (exec_op E op s) = run_op E op s"
  by (cases op) (simp_all add: snd_silent)


section \<open>What a part does to trust\<close>

text \<open>The server a waiting task has met, and the tasks that may pin one.\<close>

fun met :: "'c task \<Rightarrow> bytes option" where
  "met (Waiting (Connecting host port c v)) = Some (identity_public v)"
| "met (Waiting (Resuming prof tok c v)) = Some (identity_public v)"
| "met _ = None"

fun may_pin :: "'c task \<Rightarrow> bool" where
  "may_pin (Waiting (Signing_In email pw sk)) = True"
| "may_pin (Waiting (Locked op)) = True"
| "may_pin _ = False"

lemma first_part_quiet:
  assumes "secret_store (env_store E) view" and "op \<noteq> Op_Forget_Server"
  shows "keeps (quiet_at view a v) (first_part E op)"
proof -
  note rules = quiet_intros secret_store.quiet_getters [OF assms(1)] secret_store.quiet_clear_session [OF assms(1)]
    resolve_secret_key_quiet [OF assms(1)]
  show ?thesis
    using assms(2)
    by (cases op) (auto simp: connect_lookup_def restore_lookup_def intro!: rules
        split: option.splits list.splits sum.splits prod.splits)
qed

lemma first_part_kind:
  assumes "first_part E op s = (Inr (Some p), s')" and "\<And>host port. op \<noteq> Op_Connect host port" and "op \<noteq> Op_Restore"
  shows "met (Waiting p) = None"
  using assms by (cases op) (auto simp: and_then_Inr_iff ret_eq)

lemma connect_lookup_met:
  assumes "secret_store (env_store E) view" and "connect_lookup E host port s = (Inr (c, v, d), s')"
  shows "stored_pin E view s = None \<or> stored_pin E view s = Some (identity_public v)"
proof -
  obtain stored t where vault: "vault_server_profile (env_vault E) (env_store E) (cl_store s) = (Inr stored, t)"
    and disc: "discover_and_connect (env_discovery E) (env_net E) host port (map_option sp_identity_public stored)
      (s\<lparr>cl_store := t\<rparr>) = (Inr (c, v, d), s')"
    using assms(2) by (auto simp: connect_lookup_def and_then_Inr_iff)
  have "map_option sp_identity_public stored = stored_pin E view s"
    using vault_profile_read [OF assms(1) vault] by (auto simp: stored_pin_def split: option.splits)
  then show ?thesis
    using discover_trust [OF disc] by (cases "stored_pin E view s") auto
qed

lemma restore_lookup_Inr:
  assumes "restore_lookup E s = (Inr (Some (prof, tok, c, v)), s')"
  obtains t s1 host port d where
    "vault_server_profile (env_vault E) (env_store E) (cl_store s) = (Inr (Some prof), t)"
    and "discover_and_connect (env_discovery E) (env_net E) host port (Some (sp_identity_public prof)) s1 =
      (Inr (c, v, d), s')"
proof -
  let ?disc = "\<lambda>p host port. discover_and_connect (env_discovery E) (env_net E) host port (Some (sp_identity_public p))"
  obtain p t where vault: "vault_server_profile (env_vault E) (env_store E) (cl_store s) = (Inr (Some p), t)"
    and rest: "\<exists>tok' u. (case sp_endpoints p of
          [] \<Rightarrow> ret None
        | endpoint # _ \<Rightarrow>
       (case rsplit_once (CHR '':'') endpoint of
          None \<Rightarrow> ret None
        | Some (host, port) \<Rightarrow>
       (case parse_u16 port of
          None \<Rightarrow> ret None
        | Some discovery_port \<Rightarrow>
     and_then (attempt (?disc p host discovery_port)) (\<lambda>result.
       (case result of
          Inl e \<Rightarrow> ret None
        | Inr (channel, verified, decision) \<Rightarrow> ret (Some (p, tok', channel, verified))))))) u =
      (Inr (Some (prof, tok, c, v)) :: client_error + _, s')"
    using assms unfolding restore_lookup_def and_then_Inr_iff on_store_Inr_iff
    by (auto simp: ret_eq and_then_Inr_iff split: option.split_asm) blast
  from rest obtain tok' u where run: "(case sp_endpoints p of
          [] \<Rightarrow> ret None
        | endpoint # _ \<Rightarrow>
       (case rsplit_once (CHR '':'') endpoint of
          None \<Rightarrow> ret None
        | Some (host, port) \<Rightarrow>
       (case parse_u16 port of
          None \<Rightarrow> ret None
        | Some discovery_port \<Rightarrow>
     and_then (attempt (?disc p host discovery_port)) (\<lambda>result.
       (case result of
          Inl e \<Rightarrow> ret None
        | Inr (channel, verified, decision) \<Rightarrow> ret (Some (p, tok', channel, verified))))))) u =
      (Inr (Some (prof, tok, c, v)) :: client_error + _, s')" by blast
  then obtain e es where e: "sp_endpoints p = e # es" by (cases "sp_endpoints p") (simp_all add: ret_eq)
  with run obtain host num where num: "rsplit_once (CHR '':'') e = Some (host, num)"
    by (cases "rsplit_once (CHR '':'') e") (auto simp: ret_eq)
  with run e obtain port where port: "parse_u16 num = Some port"
    by (cases "parse_u16 num") (simp_all add: ret_eq)
  obtain r s2 where disc: "?disc p host port u = (r, s2)" by (cases "?disc p host port u")
  with run e num port have "\<exists>d. ?disc p host port u = (Inr (c, v, d), s')" and "p = prof"
    by (cases r; auto simp: attempt_then ret_eq)+
  with vault that show thesis by blast
qed

lemma restore_lookup_met:
  assumes "secret_store (env_store E) view" and "restore_lookup E s = (Inr (Some (prof, tok, c, v)), s')"
  shows "stored_pin E view s = Some (identity_public v)"
proof -
  obtain t s1 host port d where vault: "vault_server_profile (env_vault E) (env_store E) (cl_store s) = (Inr (Some prof), t)"
    and disc: "discover_and_connect (env_discovery E) (env_net E) host port (Some (sp_identity_public prof)) s1 =
      (Inr (c, v, d), s')"
    using assms(2) by (rule restore_lookup_Inr)
  have "stored_pin E view s = Some (sp_identity_public prof)"
    using vault_profile_read [OF assms(1) vault] by (auto simp: stored_pin_def split: option.splits dest: sym)
  then show ?thesis using discover_trust [OF disc] by simp
qed


text \<open>
  The effect of a part on trust: nothing, remembering a server that the pin allows, entering a
  server that was met, what a whole operation may do, pinning the current server, leaving, forgetting.
\<close>

inductive part_effect :: "'c task \<Rightarrow> 'c task \<Rightarrow> trust \<Rightarrow> trust \<Rightarrow> bool" where
  quiet: "met t' = None \<Longrightarrow> part_effect t t' T T"
| meets: "ts_pin T = None \<or> ts_pin T = Some k \<Longrightarrow> met t' = Some k \<Longrightarrow> part_effect t t' T T"
| enters: "met t = Some k \<Longrightarrow> part_effect t (Done r) T (T\<lparr>ts_server := Some k\<rparr>)"
| whole: "trust_step op T T' \<Longrightarrow> part_effect (Waiting (Locked op)) (Done r) T T'"
| pins: "ts_server T = Some k \<Longrightarrow> part_effect (Waiting (Signing_In email pw sk)) (Done r) T (T\<lparr>ts_pin := Some k\<rparr>)"
| leaves: "part_effect (Waiting Leaving) (Done r) T (T\<lparr>ts_server := None\<rparr>)"
| forgets: "met t' = None \<Longrightarrow> part_effect (Ready Op_Forget_Server) t' T (T\<lparr>ts_pin := None\<rparr>)"

lemma part_effect_done: "part_effect t (Done r) T T"
  by (rule part_effect.quiet) simp

lemma forget_first_effect:
  assumes "atomic_store (env_store E) view" and "advance E (Ready Op_Forget_Server) s = (t', s')"
  shows "part_effect (Ready Op_Forget_Server) t' (trust_of E view s) (trust_of E view s')"
proof -
  obtain q u where vault: "vault_clear (env_store E) (cl_store s) = (q, u)"
    by (cases "vault_clear (env_store E) (cl_store s)")
  show ?thesis
  proof (cases q)
    case (Inl e)
    then have "on_store (vault_clear (env_store E)) s = (Inl StorageFailed, s\<lparr>cl_store := u\<rparr>)" using vault by simp
    then have "t' = Done (Some StorageFailed)" "s' = s\<lparr>cl_store := u\<rparr>"
      using assms(2) by (simp_all add: and_then_Inl del: on_store_Inl_iff)
    moreover have "view u SERVER_PROFILE = view (cl_store s) SERVER_PROFILE"
      using vault_clear_failed_profile [OF assms(1)] vault Inl by blast
    ultimately show ?thesis by (simp add: trust_of_def stored_pin_def part_effect.quiet)
  next
    case (Inr x)
    then have "on_store (vault_clear (env_store E)) s = (Inr (), s\<lparr>cl_store := u\<rparr>)" using vault by simp
    then have "t' = Waiting Leaving" "s' = s\<lparr>cl_store := u\<rparr>"
      using assms(2) by (simp_all add: and_then_Inr ret_eq)
    moreover have "view u SERVER_PROFILE = None"
    proof (rule secret_store.delete_all_gone [OF atomic_store.axioms(1) [OF assms(1)]])
      show "delete_all (env_store E) VAULT_KEYS (cl_store s) = (Inr (), u)"
        using vault Inr unfolding vault_clear_keys by (cases x) simp
    qed (simp add: VAULT_KEYS_def)
    ultimately have "trust_of E view s' = (trust_of E view s)\<lparr>ts_pin := None\<rparr>" "met t' = None"
      by (simp_all add: trust_of_def stored_pin_def)
    then show ?thesis by (simp add: part_effect.forgets)
  qed
qed

lemma first_effect:
  assumes "atomic_store (env_store E) view" and "advance E (Ready op) s = (t', s')"
  shows "part_effect (Ready op) t' (trust_of E view s) (trust_of E view s')"
proof (cases "op = Op_Forget_Server")
  case True
  with assms show ?thesis using forget_first_effect by blast
next
  case False
  note store = atomic_store.axioms(1) [OF assms(1)]
  obtain r s1 where run: "first_part E op s = (r, s1)" by (cases "first_part E op s")
  have s1: "s' = s1" using assms(2) run by (auto split: sum.split_asm option.split_asm)
  have same: "trust_of E view s' = trust_of E view s"
    using trust_of_quiet [OF first_part_quiet [OF store False]] run s1 by (metis snd_conv)
  have "met t' = None \<or> (\<exists>k. met t' = Some k \<and> (stored_pin E view s = None \<or> stored_pin E view s = Some k))"
  proof (cases "\<exists>p. r = Inr (Some p)")
    case True
    then obtain p where p: "r = Inr (Some p)" by blast
    with assms(2) run have t': "t' = Waiting p" by simp
    show ?thesis
    proof (cases op)
      case (Op_Connect host port)
      with run p obtain c v d where look: "connect_lookup E host port s = (Inr (c, v, d), s1)"
        and "p = Connecting host port c v" by (auto simp: and_then_Inr_iff ret_eq)
      with t' connect_lookup_met [OF store look] show ?thesis by simp
    next
      case Op_Restore
      with run p obtain prof tok c v where look: "restore_lookup E s = (Inr (Some (prof, tok, c, v)), s1)"
        and "p = Resuming prof tok c v" by (auto simp: and_then_Inr_iff ret_eq)
      with t' restore_lookup_met [OF store look] show ?thesis by simp
    qed (use run p t' first_part_kind [of E op s p s1] in simp_all)
  next
    case False
    then show ?thesis using assms(2) run by (auto split: sum.split_asm option.split_asm)
  qed
  then show ?thesis using same by (auto simp: trust_of_def intro: part_effect.intros)
qed

lemma sign_in_locked_effect:
  assumes "atomic_store (env_store E) view" and "profile_json_sound (env_vault E)"
  shows "trust_of E view (snd (sign_in_locked E email pw sk s)) = trust_of E view s \<or>
    (\<exists>k. ts_server (trust_of E view s) = Some k \<and>
      trust_of E view (snd (sign_in_locked E email pw sk s)) = (trust_of E view s)\<lparr>ts_pin := Some k\<rparr>)"
proof (cases "in_channel (cl_inner s) = None \<or> in_verified (cl_inner s) = None")
  case True
  then have "snd (sign_in_locked E email pw sk s) = s"
    by (cases "in_channel (cl_inner s)") (auto simp: sign_in_locked_def get_inner_steps exec_steps throw_eq)
  then show ?thesis by simp
next
  case False
  then obtain c v where cv: "in_channel (cl_inner s) = Some c" "in_verified (cl_inner s) = Some v" by auto
  let ?m = "and_then (attempt (login (env_crypto E) (env_net E) c email pw sk))
      (signed_in E v (in_endpoints (cl_inner s)) sk)"
  have "sign_in_locked E email pw sk s = ?m s"
    using cv by (simp add: sign_in_locked_def get_inner_steps exec_steps)
  moreover have "keeps (pins_at E view p v) ?m" for p
    by (intro keeps_and_then keeps_attempt pins_quiet [OF quiet_host [OF keeps_rest_login]] pins_signed_in [OF assms])
  ultimately show ?thesis
    using trust_of_pins [OF cv(2), of E view ?m] by (auto simp: trust_of_def cv(2))
qed


lemma second_part_quiet:
  assumes "secret_store (env_store E) view"
  shows "keeps (quiet_at view a v) (change_password_locked E old new sk)"
    and "keeps (quiet_at view a v) (silent (get_avatar_locked E master))"
    and "keeps (quiet_at view a v) (set_avatar_locked E sealed)"
  unfolding change_password_locked_def get_avatar_locked_def set_avatar_locked_def silent_def
  by (auto intro!: quiet_intros split: option.split)

lemma trust_of_set_inner:
  "trust_of E view (snd (set_inner f s)) =
     (trust_of E view s)\<lparr>ts_server := map_option identity_public (in_verified (f (cl_inner s)))\<rparr>"
  by (simp add: set_inner_def modify_state_def trust_of_def stored_pin_def)

lemma second_effect:
  assumes "atomic_store (env_store E) view" and "profile_json_sound (env_vault E)"
    and "advance E (Waiting p) s = (t', s')"
  shows "part_effect (Waiting p) t' (trust_of E view s) (trust_of E view s')"
proof -
  obtain r where t': "t' = Done r" and s': "s' = snd (second_part E p s)"
    using assms(3) by (auto split: prod.split_asm)
  note quiet = second_part_quiet [OF atomic_store.axioms(1) [OF assms(1)], THEN trust_of_quiet]
  show ?thesis
  proof (cases p)
    case (Locked op)
    then show ?thesis
      using run_op_trust [OF assms(1,2)] by (simp add: t' s' exec_run_op part_effect.whole del: run_op.simps)
  next
    case (Signing_In email pw sk)
    then show ?thesis
      using sign_in_locked_effect [OF assms(1,2), of email pw sk s]
      by (auto simp: t' s' snd_silent intro: part_effect_done part_effect.pins)
  next
    case (Connecting host port c v)
    then show ?thesis
      using part_effect.enters [of "Waiting p" "identity_public v" r "trust_of E view s"]
      by (simp add: t' s' connect_finish_def trust_of_set_inner)
  next
    case (Resuming prof tok c v)
    then show ?thesis
      using part_effect.enters [of "Waiting p" "identity_public v" r "trust_of E view s"]
      by (simp add: t' s' restore_finish_def trust_of_set_inner)
  next
    case Leaving
    then show ?thesis by (simp add: t' s' trust_of_set_inner inner_default_def part_effect.leaves)
  qed (simp_all add: t' s' quiet part_effect.quiet)
qed

lemma advance_effect:
  assumes "atomic_store (env_store E) view" and "profile_json_sound (env_vault E)"
    and "advance E t s = (t', s')"
  shows "part_effect t t' (trust_of E view s) (trust_of E view s')"
proof (cases t)
  case (Ready op)
  with assms show ?thesis using first_effect by blast
next
  case (Waiting p)
  with assms show ?thesis using second_effect by blast
next
  case (Done r)
  with assms(3) show ?thesis by (auto intro: part_effect.quiet)
qed

section \<open>Careful schedules\<close>

text \<open>No task that may pin a server runs its part under the lock while another has met a server.\<close>

definition careful :: "'c task list \<Rightarrow> nat \<Rightarrow> bool" where
  "careful ts i \<longleftrightarrow> (may_pin (ts ! i) \<longrightarrow> (\<forall>t \<in> set ts. met t = None))"

definition tasks_ok :: "'c task list \<Rightarrow> trust \<Rightarrow> bool" where
  "tasks_ok ts T \<longleftrightarrow> trust_ok T \<and>
     (\<forall>t \<in> set ts. \<forall>k. met t = Some k \<longrightarrow> ts_pin T = None \<or> ts_pin T = Some k)"

lemma tasks_ok_update:
  assumes "tasks_ok ts T" and "trust_ok T'"
    and "\<And>k. met t' = Some k \<Longrightarrow> ts_pin T' = None \<or> ts_pin T' = Some k"
    and "ts_pin T' = ts_pin T \<or> ts_pin T' = None \<or> (\<forall>t \<in> set ts. met t = None)"
  shows "tasks_ok (ts[i := t']) T'"
proof -
  have "ts_pin T' = None \<or> ts_pin T' = Some k" if "u \<in> set (ts[i := t'])" "met u = Some k" for u k
  proof -
    have "u = t' \<or> u \<in> set ts" using that(1) set_update_subset_insert [of ts i t'] by blast
    then show ?thesis using assms(1,3,4) that(2) unfolding tasks_ok_def by (metis option.distinct(1))
  qed
  with assms(2) show ?thesis by (simp add: tasks_ok_def)
qed

lemma part_effect_ok:
  assumes "part_effect (ts ! i) t' T T'" and "tasks_ok ts T" and "i < length ts" and "careful ts i"
  shows "tasks_ok (ts[i := t']) T'"
proof -
  have T: "trust_ok T" using assms(2) by (simp add: tasks_ok_def)
  from assms(1) show ?thesis
  proof cases
    case (whole op r)
    then have "\<forall>t \<in> set ts. met t = None" using assms(4) by (metis careful_def may_pin.simps(2))
    moreover have "trust_ok T'" using trust_step_ok [OF whole(3) T] .
    ultimately show ?thesis using whole(2) by (intro tasks_ok_update [OF assms(2)]) simp_all
  next
    case (pins k email pw sk r)
    then have "\<forall>t \<in> set ts. met t = None" using assms(4) by (metis careful_def may_pin.simps(1))
    with pins show ?thesis by (intro tasks_ok_update [OF assms(2)]) (simp_all add: trust_ok_def)
  next
    case (enters k r)
    then have "ts_pin T = None \<or> ts_pin T = Some k"
      using assms(2) nth_mem [OF assms(3)] unfolding tasks_ok_def by blast
    with enters show ?thesis by (intro tasks_ok_update [OF assms(2)]) (auto simp: trust_ok_def)
  qed (use T in \<open>(intro tasks_ok_update [OF assms(2)]; force simp: trust_ok_def)+\<close>)
qed

lemma runs_tasks_ok:
  assumes "atomic_store (env_store E) view" and "profile_json_sound (env_vault E)"
    and "runs E careful ts0 s0 ts s" and "tasks_ok ts0 (trust_of E view s0)"
  shows "tasks_ok ts (trust_of E view s)"
  using assms(3,4)
proof (induction rule: runs.induct)
  case (spawn ts s op)
  then show ?case by (auto simp: tasks_ok_def)
next
  case (part ts s i t s')
  then show ?case using part_effect_ok [OF advance_effect [OF assms(1,2)]] by blast
qed


section \<open>Two tasks at once\<close>

lemma runs_alone:
  assumes "runs E (\<lambda>_ _. True) ts0 s0 ts s" and "i < length ts" and "ts ! i = Ready op"
    and "exec_op E op s = (Inr (), s')"
  shows "runs E (\<lambda>_ _. True) ts0 s0 (ts[i := Done None]) s'"
proof -
  obtain t s1 where first: "advance E (Ready op) s = (t, s1)" by (cases "advance E (Ready op) s")
  have second: "advance E t s1 = (Done None, s')"
    using advance_two_parts [of E op s] first assms(4) by (simp add: in_two_parts_exec)
  have "runs E (\<lambda>_ _. True) ts0 s0 (ts[i := t]) s1"
    using runs.part [OF assms(1,2)] assms(3) first by simp
  then have "runs E (\<lambda>_ _. True) ts0 s0 ((ts[i := t])[i := Done None]) s'"
    by (rule runs.part) (use assms(2) second in simp_all)
  then show ?thesis by simp
qed

text \<open>A whole operation between the two parts of another one.\<close>

lemma runs_nested:
  assumes "advance E (Ready op) s = (Waiting p, s1)" and "exec_op E op' s1 = (Inr (), s2)"
    and "advance E (Waiting p) s2 = (Done r, s3)"
  shows "runs E (\<lambda>_ _. True) [] s [Done r, Done None] s3"
proof -
  have "runs E (\<lambda>_ _. True) [] s [Ready op] s"
    using runs.spawn [OF runs.stop, of E "\<lambda>_ _. True" "[]" s op] by simp
  then have "runs E (\<lambda>_ _. True) [] s [Ready op, Ready op'] s"
    using runs.spawn [of E "\<lambda>_ _. True" "[]" s "[Ready op]" s op'] by simp
  then have "runs E (\<lambda>_ _. True) [] s [Waiting p, Ready op'] s1"
    using runs.part [of E "\<lambda>_ _. True" "[]" s "[Ready op, Ready op']" s 0] assms(1) by simp
  then have "runs E (\<lambda>_ _. True) [] s [Waiting p, Done None] s2"
    using runs_alone [of E "[]" s "[Waiting p, Ready op']" s1 1] assms(2) by simp
  then show ?thesis
    using runs.part [of E "\<lambda>_ _. True" "[]" s "[Waiting p, Done None]" s2 0] assms(3) by simp
qed

lemma sign_in_leaves:
  assumes "secret_store (env_store E) view" and "profile_json_sound (env_vault E)"
    and "sign_in E email pw entered s = (Inr (Success uid), s')"
  shows "\<exists>v. in_verified (cl_inner s) = Some v \<and> in_verified (cl_inner s') = Some v \<and>
    stored_pin E view s' = Some (identity_public v) \<and>
    view (cl_store s') SESSION_TOKEN \<noteq> None \<and> view (cl_store s') MASTER_KEY \<noteq> None"
proof -
  obtain sk s0 c v li s1 s2 where res: "resolve_secret_key E entered s = (Inr sk, s0)"
    and v: "in_verified (cl_inner s) = Some v"
    and login: "login (env_crypto E) (env_net E) c email pw sk s0 = (Inr li, s1)"
    and persist: "persist E \<lparr>tc_identity_public = identity_public v, tc_user_id = li_user_id li,
          tc_token = as_token (li_account li), tc_master_key = ui_master_key (li_identity li),
          tc_secret_key = sk, tc_device_secret = None, tc_endpoints = in_endpoints (cl_inner s)\<rparr> s1 = (Inr (), s2)"
    and s': "s' = s2\<lparr>cl_inner := (cl_inner s2)\<lparr>in_session := Some (li_account li),
               in_identity := Some (li_identity li), in_secret_key := Some sk\<rparr>\<rparr>"
    using assms(3) unfolding sign_in_Success_iff by blast
  have "host.more s1 = host.more s0" using keepsD [OF keeps_rest_login refl login] .
  from client_parts_more [OF this] have "cl_inner s1 = cl_inner s"
    using resolve_secret_key_inner [OF res] by simp
  moreover have "cl_inner s2 = cl_inner s1"
    using persist_cached [OF assms(1,2) persist] by (metis client.select_convs(2) client.surjective client.update_convs(1))
  ultimately show ?thesis
    using v persist_cached [OF assms(1,2) persist]
    by (auto simp: s' cached_def stored_pin_def)
qed

text \<open>A sign-in that completes between the wipe of the store and the reset of the memory.\<close>

lemma leave_races_sign_in:
  assumes "advance E (Ready op) s = (Waiting Leaving, s1)" and "sign_in E email pw entered s1 = (Inr (Success uid), s2)"
  shows "\<exists>s3. runs E (\<lambda>_ _. True) [] s [Done None, Done None] s3 \<and> in_session (cl_inner s3) = None \<and>
    cl_store s3 = cl_store s2"
proof -
  have "exec_op E (Op_Sign_In email pw entered) s1 = (Inr (), s2)"
    using assms(2) by (simp add: silent_def and_then_Inr ret_eq)
  moreover obtain s3 where "advance E (Waiting Leaving) s2 = (Done None, s3)"
    and s3: "cl_store s3 = cl_store s2" "in_session (cl_inner s3) = None"
    by (simp add: set_inner_def exec_simps inner_default_def)
  ultimately have "runs E (\<lambda>_ _. True) [] s [Done None, Done None] s3" using runs_nested [OF assms(1)] by blast
  with s3 show ?thesis by blast
qed

text \<open>Forgetting a server is undone in the same way: the sign-in it overlaps stores the profile and the keys again.\<close>

lemma forget_races_sign_in:
  assumes "secret_store (env_store E) view" and "profile_json_sound (env_vault E)"
    and "vault_clear (env_store E) (cl_store s) = (Inr (), t)"
    and "sign_in E email pw entered (s\<lparr>cl_store := t\<rparr>) = (Inr (Success uid), s2)"
  shows "\<exists>s3. runs E (\<lambda>_ _. True) [] s [Done None, Done None] s3 \<and> in_session (cl_inner s3) = None \<and>
    stored_pin E view s3 \<noteq> None \<and> view (cl_store s3) SESSION_TOKEN \<noteq> None \<and> view (cl_store s3) MASTER_KEY \<noteq> None"
proof -
  have "on_store (vault_clear (env_store E)) s = (Inr (), s\<lparr>cl_store := t\<rparr>)" using assms(3) by simp
  then have "advance E (Ready Op_Forget_Server) s = (Waiting Leaving, s\<lparr>cl_store := t\<rparr>)"
    by (simp add: and_then_Inr ret_eq del: on_store_Inr_iff)
  from leave_races_sign_in [OF this assms(4)] show ?thesis
    using sign_in_leaves [OF assms(1,2,4)] by (auto simp: stored_pin_def)
qed

section \<open>Clients for the witnesses\<close>

text \<open>A returning client that is connected to a server with another key, and nothing pinned.\<close>

definition sample_raced :: "(mock, memory, unit) client" where
  "sample_raced = sample_returning\<lparr>cl_inner := (cl_inner sample_returning)
     \<lparr>in_verified := Some (sample_server\<lparr>identity_public := replicate 32 0\<rparr>)\<rparr>\<rparr>"

lemma sample_sign_in:
  assumes "host_net s = \<lparr>mo_key_material = bundle_to_key_material (bo_bundle sample_boot), mo_avatar = None\<rparr>"
    and "in_channel (cl_inner s) = Some ()" and "in_verified (cl_inner s) = Some v"
    and "in_endpoints (cl_inner s) = [''h:1'']" and "length (identity_public v) = 32"
    and "cl_store s SECRET_KEY = Some (sk_as_bytes (bo_secret_key sample_boot))"
  shows "\<exists>s'. sign_in sample_env ''e'' ''a'' None s = (Inr (Success ''u-1''), s')"
proof -
  have "\<exists>s'. sign_in sample_env ''e'' ''a'' None s = (Inr (Success (sm_user_id mock_session)), s') \<and>
    in_identity (cl_inner s') = Some (bo_identity sample_boot) \<and>
    in_session (cl_inner s') = Some (session_new () (sm_token mock_session)) \<and>
    cl_store s' MASTER_KEY = Some (mk_as_bytes (ui_master_key (bo_identity sample_boot))) \<and>
    cl_store s' SESSION_TOKEN = Some (str_bytes (sm_token mock_session))"
  proof (rule sign_in_with_cached_key [where material = mo_key_material and issued = "\<lambda>m tok. tok = MOCK_TOKEN"])
    show "reliable_store (env_store sample_env) (\<lambda>m. m)" by (simp add: memory.reliable_store_axioms)
    show "profile_json_sound (env_vault sample_env)" by (rule sample_env_ok)
    show "key_service (env_net sample_env) mo_key_material (\<lambda>m tok. tok = MOCK_TOKEN)"
      by (simp add: mock_service.key_service_axioms)
    show "wf_sk (bo_secret_key sample_boot)" by (rule sample_boot_wf)
    show "unlock_identity (env_crypto sample_env) (key_material_to_bundle (mo_key_material (host_net s)))
        ''a'' (bo_secret_key sample_boot) = Inr (bo_identity sample_boot)"
      by (simp add: assms(1) sample_unlock)
    show "profile_json_write (env_vault sample_env) \<lparr>sp_endpoints = in_endpoints (cl_inner s),
      sp_identity_public = identity_public v, sp_user_id = sm_user_id mock_session\<rparr> \<noteq> None"
      using assms(4,5) by (simp add: sample_profiles_def)
    show "rpc_login (env_net sample_env) () None
      \<lparr>lr_email = ''e'', lr_password = ''a'', lr_mfa_challenge_token = [], lr_mfa_response = []\<rparr> (host_net s)
      = (Inr (Some (Session mock_session)), host_net s)"
      by (simp add: mock_net_def mock_login_def)
  qed (use assms in simp_all)
  then show ?thesis by (auto simp: mock_session_def)
qed

section \<open>Properties\<close>

text \<open>
  The parts are those of the whole operation: a task that nobody interrupts reaches its state and
  reports its error.
\<close>

lemma uninterrupted_task_is_operation:
  "(case advance E (Ready op) s of (t, s1) \<Rightarrow> advance E t s1) =
     (Done (outcome (fst (exec_op E op s))), run_op E op s)"
  using advance_two_parts [of E op s] by (simp only: in_two_parts_exec exec_run_op)

text \<open>
  Trust on first use under concurrency. However any number of operations interleave, as
  long as no enrollment or sign-in runs under the lock while a connection attempt is between its
  discovery and its update, the server the client is connected to is the pinned one.
\<close>

lemma careful_schedules_keep_trust:
  assumes "atomic_store (env_store E) view" and "profile_json_sound (env_vault E)"
    and "runs E careful [] (client_with_store h store) ts s"
    and "stored_pin E view s = Some pin" and "in_verified (cl_inner s) = Some v"
  shows "identity_public v = pin"
proof -
  have "tasks_ok ts (trust_of E view s)"
    using assms(1-3) by (rule runs_tasks_ok) (simp add: tasks_ok_def start_trust_ok)
  then show ?thesis using assms(4,5) by (simp add: tasks_ok_def trust_ok_def trust_of_def)
qed

text \<open>
  Property C7: without that care the pin check is raced. A connection attempt that met its server while
  no pin was stored completes after a sign-in has pinned the server connected before: both report
  success, and the client is connected to a server whose key was never compared with the pin.
\<close>

theorem connect_races_sign_in:
  assumes "secret_store (env_store E) view" and "profile_json_sound (env_vault E)"
    and "connect_lookup E host port s = (Inr (c, b, d), s1)" and "in_verified (cl_inner s) = Some a"
    and "sign_in E email pw entered s1 = (Inr (Success uid), s2)"
  shows "\<exists>s3. runs E (\<lambda>_ _. True) [] s [Done None, Done None] s3 \<and>
    stored_pin E view s3 = Some (identity_public a) \<and> in_verified (cl_inner s3) = Some b"
proof -
  have first: "advance E (Ready (Op_Connect host port)) s = (Waiting (Connecting host port c b), s1)"
    using assms(3) by (simp add: and_then_Inr ret_eq)
  have "exec_op E (Op_Sign_In email pw entered) s1 = (Inr (), s2)"
    using assms(5) by (simp add: silent_def and_then_Inr ret_eq)
  moreover obtain s3 where last: "advance E (Waiting (Connecting host port c b)) s2 = (Done None, s3)"
    and s3: "cl_store s3 = cl_store s2" "in_verified (cl_inner s3) = Some b"
    by (simp add: connect_finish_def set_inner_def exec_simps)
  ultimately have "runs E (\<lambda>_ _. True) [] s [Done None, Done None] s3" using runs_nested [OF first] by blast
  moreover have "in_verified (cl_inner s1) = Some a"
  proof -
    have "keeps (quiet_at view (view (cl_store s) SERVER_PROFILE) (Some a)) (first_part E (Op_Connect host port))"
      using assms(1) by (rule first_part_quiet) simp
    moreover have "first_part E (Op_Connect host port) s = (Inr (Some (Connecting host port c b)), s1)"
      using assms(3) by (simp add: and_then_Inr ret_eq)
    ultimately show ?thesis using assms(4) by (auto simp: quiet_at_def dest: keepsD)
  qed
  ultimately show ?thesis
    using sign_in_leaves [OF assms(1,2,5)] s3 by (auto simp: stored_pin_def)
qed

theorem connect_races_sign_in_witness:
  "\<exists>s3. runs sample_env (\<lambda>_ _. True) [] sample_raced [Done None, Done None] s3 \<and>
    stored_pin sample_env (\<lambda>m. m) s3 = Some (replicate 32 0) \<and> in_verified (cl_inner s3) = Some sample_server \<and>
    identity_public sample_server \<noteq> replicate 32 0"
proof -
  let ?s1 = "sample_raced\<lparr>host_rng := (\<lambda>i. of_nat (i + 16))\<rparr>"
  have "cl_store sample_raced SERVER_PROFILE = None" "host_rng sample_raced = of_nat"
    by (simp_all add: sample_raced_def sample_returning_def sample_online_def entry_names)
  then have "connect_lookup sample_env ''h'' 1 sample_raced = (Inr ((), sample_server, FirstContact), ?s1)"
    using sample_discover_any [of sample_raced None "''h''" 1]
    by (simp add: connect_lookup_def and_then_Inr_iff check_pin_def vault_server_profile_def decode_stored_def ret_eq
        memory_store_def)
  moreover obtain s2 where "sign_in sample_env ''e'' ''a'' None ?s1 = (Inr (Success ''u-1''), s2)"
    using sample_sign_in [of ?s1 "sample_server\<lparr>identity_public := replicate 32 0\<rparr>"]
    by (auto simp: sample_raced_def sample_returning_def sample_online_def entry_names)
  moreover have "in_verified (cl_inner sample_raced) = Some (sample_server\<lparr>identity_public := replicate 32 0\<rparr>)"
    by (simp add: sample_raced_def)
  ultimately obtain s3 where "runs sample_env (\<lambda>_ _. True) [] sample_raced [Done None, Done None] s3"
    "stored_pin sample_env (\<lambda>m. m) s3 = Some (replicate 32 0)" "in_verified (cl_inner s3) = Some sample_server"
    using connect_races_sign_in [of sample_env "\<lambda>m. m"] memory.secret_store_axioms sample_env_ok(2) by fastforce
  moreover have "identity_public sample_server \<noteq> replicate 32 0" by (simp add: sample_server_def sample_public_def)
  ultimately show ?thesis by blast
qed

text \<open>
  Property C8: a sign-out can be undone by a sign-in it overlaps. When a sign-in completes between the
  sign-out's wipe of the store and its reset of the memory, both report success and no session is in
  memory, yet the session token and the master key are back in the store.
\<close>

theorem sign_out_races_sign_in:
  assumes "secret_store (env_store E) view" and "profile_json_sound (env_vault E)"
    and "vault_clear_session (env_store E) (cl_store s) = (Inr (), t)"
    and "sign_in E email pw entered (s\<lparr>cl_store := t\<rparr>) = (Inr (Success uid), s2)"
  shows "\<exists>s3. runs E (\<lambda>_ _. True) [] s [Done None, Done None] s3 \<and> in_session (cl_inner s3) = None \<and>
    view (cl_store s3) SESSION_TOKEN \<noteq> None \<and> view (cl_store s3) MASTER_KEY \<noteq> None"
proof -
  have "on_store (vault_clear_session (env_store E)) s = (Inr (), s\<lparr>cl_store := t\<rparr>)" using assms(3) by simp
  then have "advance E (Ready Op_Sign_Out) s = (Waiting Leaving, s\<lparr>cl_store := t\<rparr>)"
    by (simp add: and_then_Inr ret_eq del: on_store_Inr_iff)
  from leave_races_sign_in [OF this assms(4)] show ?thesis
    using sign_in_leaves [OF assms(1,2,4)] by (auto simp: stored_pin_def)
qed

theorem sign_out_races_sign_in_witness:
  "\<exists>s3. runs sample_env (\<lambda>_ _. True) [] sample_returning [Done None, Done None] s3 \<and>
    in_session (cl_inner s3) = None \<and> cl_store s3 SESSION_TOKEN \<noteq> None"
proof -
  obtain t where t: "vault_clear_session memory_store (cl_store sample_returning) = (Inr (), t)"
    using memory.delete_all_run unfolding vault_clear_session_keys by blast
  have "SECRET_KEY \<notin> set [SESSION_TOKEN, MASTER_KEY]" by (simp add: entry_names)
  then have "t SECRET_KEY = cl_store sample_returning SECRET_KEY"
    using memory.delete_all_other t unfolding vault_clear_session_keys by blast
  then obtain s2 where "sign_in sample_env ''e'' ''a'' None (sample_returning\<lparr>cl_store := t\<rparr>) = (Inr (Success ''u-1''), s2)"
    using sample_sign_in [of "sample_returning\<lparr>cl_store := t\<rparr>" sample_server]
    by (auto simp: sample_returning_def sample_online_def sample_server_def sample_public_def entry_names)
  with t show ?thesis
    using sign_out_races_sign_in [of sample_env "\<lambda>m. m" sample_returning t] memory.secret_store_axioms sample_env_ok(2)
    by fastforce
qed

end
