(* ===== verification/Ffi.thy ===== *)
theory Ffi
  imports Client_Account
begin

text \<open>
  \<open>src/ffi.rs\<close>: the handle of the native shells. \<open>SylvaClient\<close> owns a runtime and a client and
  drives one call of the facade at a time to its end, so a shell call is the run of the facade's
  method on the client's state. Building the runtime is tokio's: whether it succeeds is the argument
  \<open>runtime_built\<close> of the constructor. The keyring is the production store of the client.
\<close>

section \<open>The handle\<close>

text \<open>The libraries a handle runs with, and its client.\<close>

record ('n, 's, 'c) sylva_client =
  sc_env :: "('n, 's, 'c) env"
  sc_client :: "('n, 's, 'c) client"

definition sylva_new ::
  "bool \<Rightarrow> ('s, 'e) keyring \<Rightarrow> ('n, 's, 'c) env \<Rightarrow> 'n host \<Rightarrow> 's \<Rightarrow> string \<Rightarrow>
     client_error + ('n, 's, 'c) sylva_client" where
  "sylva_new runtime_built K E h keys svc =
     (if \<not> runtime_built then Inl ServerError
      else Inr \<lparr>sc_env = E\<lparr>env_store := client_new_store K svc\<rparr>, sc_client = client_with_store h keys\<rparr>)"

text \<open>Driving a call of the facade to its end.\<close>

definition block_on ::
  "(('n, 's, 'c) env \<Rightarrow> ('n, 's, 'c, 'a) client_exec) \<Rightarrow> (('n, 's, 'c) sylva_client, client_error, 'a) exec" where
  "block_on m h = (let (r, s) = m (sc_env h) (sc_client h) in (r, h\<lparr>sc_client := s\<rparr>))"

type_synonym ('n, 's, 'c, 'a) shell_call = "(('n, 's, 'c) sylva_client, client_error, 'a) exec"

definition sylva_connect :: "string \<Rightarrow> u16 \<Rightarrow> ('n, 's, 'c, connect_info) shell_call" where
  "sylva_connect host port = block_on (\<lambda>E. client_connect E host port)"

definition sylva_create_owner ::
  "string \<Rightarrow> string \<Rightarrow> string \<Rightarrow> string \<Rightarrow> ('n, 's, 'c, enrollment) shell_call" where
  "sylva_create_owner email name pw label = block_on (\<lambda>E. create_owner E email name pw label)"

definition sylva_sign_in ::
  "string \<Rightarrow> string \<Rightarrow> string option \<Rightarrow> ('n, 's, 'c, sign_in_outcome) shell_call" where
  "sylva_sign_in email pw entered = block_on (\<lambda>E. sign_in E email pw entered)"

definition sylva_enroll_this_device :: "string \<Rightarrow> ('n, 's, 'c, device_info) shell_call" where
  "sylva_enroll_this_device label = block_on (\<lambda>E. enroll_this_device E label)"

definition sylva_list_devices :: "('n, 's, 'c, device_info list) shell_call" where
  "sylva_list_devices = block_on (\<lambda>E. list_devices E)"

definition sylva_revoke_device :: "string \<Rightarrow> ('n, 's, 'c, unit) shell_call" where
  "sylva_revoke_device device_id = block_on (\<lambda>E. revoke_device E device_id)"

definition sylva_get_profile :: "('n, 's, 'c, profile) shell_call" where
  "sylva_get_profile = block_on (\<lambda>E. get_profile E)"

definition sylva_update_display_name :: "string \<Rightarrow> ('n, 's, 'c, profile) shell_call" where
  "sylva_update_display_name name = block_on (\<lambda>E. update_display_name E name)"

definition sylva_update_email :: "string \<Rightarrow> string \<Rightarrow> ('n, 's, 'c, profile) shell_call" where
  "sylva_update_email email pw = block_on (\<lambda>E. update_email E email pw)"

definition sylva_change_password :: "string \<Rightarrow> string \<Rightarrow> ('n, 's, 'c, unit) shell_call" where
  "sylva_change_password old new = block_on (\<lambda>E. change_password E old new)"

definition sylva_get_avatar :: "('n, 's, 'c, bytes option) shell_call" where
  "sylva_get_avatar = block_on (\<lambda>E. get_avatar E)"

definition sylva_set_avatar :: "bytes \<Rightarrow> ('n, 's, 'c, unit) shell_call" where
  "sylva_set_avatar avatar = block_on (\<lambda>E. set_avatar E avatar)"

definition sylva_sign_out :: "('n, 's, 'c, unit) shell_call" where
  "sylva_sign_out = block_on (\<lambda>E. sign_out E)"

definition sylva_forget_server :: "('n, 's, 'c, unit) shell_call" where
  "sylva_forget_server = block_on (\<lambda>E. forget_server E)"

definition sylva_restore :: "('n, 's, 'c, string option) shell_call" where
  "sylva_restore = block_on (\<lambda>E. restore E)"

text \<open>The unit test of the file, as whether it passes: neither \<open>unwrap\<close> panics and the error is the guard's.\<close>

definition client_constructs_and_guards_before_connect ::
  "bool \<Rightarrow> ('s, 'e) keyring \<Rightarrow> ('n, 's, 'c) env \<Rightarrow> 'n host \<Rightarrow> 's \<Rightarrow> bool" where
  "client_constructs_and_guards_before_connect runtime_built K E h keys =
     (case sylva_new runtime_built K E h keys ''sylva-sdk-ffi-test'' of
        Inl e \<Rightarrow> False
      | Inr client \<Rightarrow>
          (case fst (sylva_create_owner ''o@x'' ''O'' ''pw'' ''PC'' client) of
             Inl err \<Rightarrow> err = NotConnected
           | Inr enrolled \<Rightarrow> False))"

section \<open>Lemmas\<close>

lemma block_on_run: "m (sc_env h) (sc_client h) = (r, s) \<Longrightarrow> block_on m h = (r, h\<lparr>sc_client := s\<rparr>)"
  by (simp add: block_on_def)

lemma block_on_stays: "m (sc_env h) (sc_client h) = (r, sc_client h) \<Longrightarrow> block_on m h = (r, h)"
  by (simp add: block_on_def)

lemma new_handle:
  "sylva_new b K E h keys svc = Inr w \<longleftrightarrow>
     b \<and> w = \<lparr>sc_env = E\<lparr>env_store := boxed (keychain_store K \<lparr>service = svc\<rparr>)\<rparr>, sc_client = client_with_store h keys\<rparr>"
  by (auto simp: sylva_new_def client_new_store_def os_keychain_new_def)

lemma client_with_store_parts [simp]:
  "cl_store (client_with_store h keys) = keys" "cl_inner (client_with_store h keys) = inner_default"
  by (simp_all add: client_with_store_def host.extend_def client.fields_def)

lemma inner_default_parts [simp]:
  "in_channel inner_default = None" "in_verified inner_default = None" "in_session inner_default = None"
  "in_endpoints inner_default = []" "in_identity inner_default = None" "in_secret_key inner_default = None"
  by (simp_all add: inner_default_def)

lemma block_on_sign_in_parsed:
  "sk_parse entered = Inl e \<Longrightarrow> sylva_sign_in email pw (Some entered) h = (Inl CryptoFailed, h)"
  by (simp add: sylva_sign_in_def block_on_stays sign_in_def resolve_secret_key_def exec_steps throw_eq)

lemma constructs_and_guards:
  "client_constructs_and_guards_before_connect runtime_built K E h keys \<longleftrightarrow> runtime_built"
  by (simp add: client_constructs_and_guards_before_connect_def sylva_new_def sylva_create_owner_def block_on_def
      create_owner_def get_inner_steps exec_steps throw_eq)

section \<open>Shell calls and their frame\<close>

fun run_shell :: "client_op \<Rightarrow> ('n, 's, 'c) sylva_client \<Rightarrow> ('n, 's, 'c) sylva_client" where
  "run_shell (Op_Connect host port) h = snd (sylva_connect host port h)"
| "run_shell (Op_Create_Owner email name pw label) h = snd (sylva_create_owner email name pw label h)"
| "run_shell (Op_Sign_In email pw sk) h = snd (sylva_sign_in email pw sk h)"
| "run_shell (Op_Enroll_This_Device label) h = snd (sylva_enroll_this_device label h)"
| "run_shell Op_List_Devices h = snd (sylva_list_devices h)"
| "run_shell (Op_Revoke_Device d) h = snd (sylva_revoke_device d h)"
| "run_shell Op_Get_Profile h = snd (sylva_get_profile h)"
| "run_shell (Op_Update_Display_Name name) h = snd (sylva_update_display_name name h)"
| "run_shell (Op_Update_Email email pw) h = snd (sylva_update_email email pw h)"
| "run_shell (Op_Change_Password old new) h = snd (sylva_change_password old new h)"
| "run_shell Op_Get_Avatar h = snd (sylva_get_avatar h)"
| "run_shell (Op_Set_Avatar png) h = snd (sylva_set_avatar png h)"
| "run_shell Op_Sign_Out h = snd (sylva_sign_out h)"
| "run_shell Op_Forget_Server h = snd (sylva_forget_server h)"
| "run_shell Op_Restore h = snd (sylva_restore h)"

lemmas shell_defs = sylva_connect_def sylva_create_owner_def sylva_sign_in_def sylva_enroll_this_device_def
  sylva_list_devices_def sylva_revoke_device_def sylva_get_profile_def sylva_update_display_name_def
  sylva_update_email_def sylva_change_password_def sylva_get_avatar_def sylva_set_avatar_def
  sylva_sign_out_def sylva_forget_server_def sylva_restore_def

lemma snd_block_on: "snd (block_on m h) = h\<lparr>sc_client := snd (m (sc_env h) (sc_client h))\<rparr>"
  by (simp add: block_on_def split: prod.split)

lemma run_shell_run_op: "run_shell op h = h\<lparr>sc_client := run_op (sc_env h) op (sc_client h)\<rparr>"
  by (cases op) (simp_all add: shell_defs snd_block_on)

lemma run_shell_parts [simp]: "sc_env (run_shell op h) = sc_env h"
  by (simp add: run_shell_run_op)

text \<open>A predicate that every operation of a store keeps is kept by every call of the facade.\<close>

definition store_keeps :: "'s store_ops \<Rightarrow> ('s \<Rightarrow> bool) \<Rightarrow> bool" where
  "store_keeps S P \<longleftrightarrow> (\<forall>k v. keeps P (store_set S k v)) \<and> (\<forall>k. keeps P (store_get S k)) \<and> (\<forall>k. keeps P (store_delete S k))"

lemma store_keeps_ops [keeps_intros]:
  assumes "store_keeps S P"
  shows "keeps P (store_set S k v)" and "keeps P (store_get S k)" and "keeps P (store_delete S k)"
  using assms by (simp_all add: store_keeps_def)

lemma keeps_decode_stored [keeps_intros]: "keeps P (decode_stored dec b)"
  by (cases b) (simp_all add: decode_stored_def keeps_intros)

lemma keeps_delete_all: "store_keeps S P \<Longrightarrow> keeps P (delete_all S ks)"
  by (induction ks) (simp_all add: keeps_intros)

lemma store_keeps_vault:
  assumes "store_keeps S P"
  shows "keeps P (vault_set_session_token S tok)" and "keeps P (vault_session_token S)"
    and "keeps P (vault_set_master_key S mk)" and "keeps P (vault_master_key S)"
    and "keeps P (vault_set_secret_key S sk)" and "keeps P (vault_secret_key S)"
    and "keeps P (vault_set_device_secret S dev)"
    and "keeps P (vault_set_server_profile J S prof)" and "keeps P (vault_server_profile J S)"
    and "keeps P (vault_clear S)" and "keeps P (vault_clear_session S)"
  unfolding vault_set_session_token_def vault_session_token_def vault_set_master_key_def vault_master_key_def
    vault_set_secret_key_def vault_secret_key_def vault_set_device_secret_def vault_set_server_profile_def
    vault_server_profile_def vault_clear_def vault_clear_session_def
  by (intro keeps_intros keeps_delete_all assms)+


definition store_at :: "('s \<Rightarrow> bool) \<Rightarrow> ('n, 's, 'c) client \<Rightarrow> bool" where
  "store_at P s \<longleftrightarrow> P (cl_store s)"

lemma store_at_on_store: "keeps P m \<Longrightarrow> keeps (store_at P) (on_store m)"
  by (rule keepsI) (auto simp: store_at_def on_store_def map_error_def on_part_def dest: keepsD split: prod.splits)

lemma store_at_host:
  assumes "\<And>z. keeps (\<lambda>h. host.more h = z) m"
  shows "keeps (store_at P) m"
proof (rule keepsI)
  fix s r s'
  assume "store_at P s" and run: "m s = (r, s')"
  moreover have "host.more s' = host.more s" using keepsD [OF assms [of "host.more s"] refl run] .
  ultimately show "store_at P s'" using client_parts_more [of s' s] by (simp add: store_at_def)
qed

lemma store_at_inner: "keeps (store_at P) (set_inner f)" "keeps (store_at P) get_inner"
  unfolding set_inner_def get_inner_def by (auto intro!: keeps_intros simp: store_at_def)

lemmas store_at_intros = keeps_and_then keeps_ret keeps_throw keeps_lift_result quiet_session quiet_call
  keeps_map_error keeps_attempt store_at_inner store_at_host [OF keeps_rest_rng]
  store_at_host [OF keeps_rest_discover] store_at_host [OF keeps_rest_login] store_at_host [OF keeps_rest_enroll]
  store_at_host [OF keeps_rest_session_key_material] quiet_calls [THEN store_at_host]

lemma store_at_persist:
  assumes "store_keeps (env_store E) P"
  shows "keeps (store_at P) (persist E data)"
  unfolding persist_def Let_def
  by (intro keeps_and_then keeps_ret store_at_on_store store_keeps_vault [OF assms])
     (cases "tc_device_secret data"; simp add: keeps_ret store_at_on_store store_keeps_vault [OF assms])

lemma store_at_resolve:
  assumes "store_keeps (env_store E) P"
  shows "keeps (store_at P) (resolve_secret_key E entered)"
  unfolding resolve_secret_key_def
  by (cases entered) (simp_all add: store_at_intros store_at_on_store store_keeps_vault [OF assms])

lemma store_at_simple_ops:
  assumes "store_keeps (env_store E) P"
  shows "keeps (store_at P) (enroll_this_device E label)"
    and "keeps (store_at P) (list_devices E)"
    and "keeps (store_at P) (revoke_device E device)"
    and "keeps (store_at P) (get_profile E)"
    and "keeps (store_at P) (update_display_name E name)"
    and "keeps (store_at P) (update_email E email pw)"
    and "keeps (store_at P) (change_password E old new)"
    and "keeps (store_at P) (set_avatar E png)"
    and "keeps (store_at P) (sign_out E)"
    and "keeps (store_at P) (forget_server E)"
    and "keeps (store_at P) (create_owner E email name pw label)"
  unfolding enroll_this_device_def list_devices_def revoke_device_def get_profile_def
    update_display_name_def update_email_def change_password_def set_avatar_def sign_out_def forget_server_def
    create_owner_def enroll_new_owner_def Let_def
  by (intro store_at_intros store_at_on_store store_keeps_vault [OF assms] store_at_persist [OF assms])+

lemma store_at_branching_ops:
  assumes "store_keeps (env_store E) P"
  shows "keeps (store_at P) (client_connect E host port)"
    and "keeps (store_at P) (get_avatar E)"
    and "keeps (store_at P) (sign_in E email pw entered)"
    and "keeps (store_at P) (restore E)"
  unfolding client_connect_def get_avatar_def sign_in_def restore_def Let_def
  by (auto intro!: store_at_intros store_at_on_store store_keeps_vault [OF assms] store_at_persist [OF assms]
      store_at_resolve [OF assms] split: option.splits sum.splits list.splits prod.splits enroll_error.splits)

lemma store_at_snd: "keeps (store_at P) m \<Longrightarrow> P (cl_store s) \<Longrightarrow> P (cl_store (snd (m s)))"
  using keepsD [of "store_at P" m s "fst (m s)" "snd (m s)"] by (simp add: store_at_def)

lemma store_at_run_op:
  assumes "store_keeps (env_store E) P" and "P (cl_store s)"
  shows "P (cl_store (run_op E op s))"
  using assms(2)
  by (cases op) (simp_all add: store_at_snd store_at_simple_ops [OF assms(1)] store_at_branching_ops [OF assms(1)])


text \<open>The entries of every other service are kept by the keychain store of one service.\<close>

definition other_entries ::
  "('k \<Rightarrow> string \<times> string \<Rightarrow> bytes option) \<Rightarrow> string \<Rightarrow> (string \<times> string \<Rightarrow> bytes option) \<Rightarrow> 'k \<Rightarrow> bool" where
  "other_entries content svc c k \<longleftrightarrow> (\<forall>p. fst p \<noteq> svc \<longrightarrow> content k p = c p)"

lemma keychain_keeps_other_entries:
  assumes "keyring_sound K den content"
  shows "store_keeps (keychain_store K kc) (other_entries content (service kc) c)"
  unfolding store_keeps_def other_entries_def
  using keychain_set_run [OF assms, of kc] keychain_get_run [OF assms, of kc] keychain_delete_run [OF assms, of kc]
  by (auto simp: keychain_store_def intro!: keepsI)

lemma run_shells_env: "sc_env (fold run_shell ops w) = sc_env w"
  by (induction ops arbitrary: w) simp_all

lemma run_shells_keep:
  assumes "store_keeps (env_store (sc_env w)) P" and "P (cl_store (sc_client w))"
  shows "P (cl_store (sc_client (fold run_shell ops w)))"
  using assms
proof (induction ops arbitrary: w)
  case (Cons op ops)
  have "P (cl_store (sc_client (run_shell op w)))"
    using Cons.prems store_at_run_op by (simp add: run_shell_run_op)
  with Cons show ?case by simp
qed simp

text \<open>A handle on a keychain that holds another service's entry, for the witnesses.\<close>

definition sample_shell_env :: "(mock, string \<times> string \<Rightarrow> bytes option, unit) env" where
  "sample_shell_env =
     \<lparr>env_crypto = sample_lib, env_discovery = env_discovery sample_env, env_vault = sample_profiles,
      env_net = sample_w, env_store = keychain_store sample_keyring \<lparr>service = []\<rparr>, env_os = ''linux''\<rparr>"

definition sample_handle :: "string \<Rightarrow> (mock, string \<times> string \<Rightarrow> bytes option, unit) sylva_client" where
  "sample_handle svc = projr (sylva_new True sample_keyring sample_shell_env
     \<lparr>host_rng = of_nat, host_net = host_net sample_start\<rparr> [(''b'', SECRET_KEY) \<mapsto> [1]] svc)"

section \<open>Properties\<close>

text \<open>
  Property C25: handles are isolated. Whatever sequence of shell calls runs on the handle of one service,
  with whatever outcomes, the entries of every other service in the user's keychain are untouched.
\<close>

theorem handles_are_isolated:
  assumes "keyring_sound K den content" and "sylva_new True K E h keys svc = Inr w" and "svc' \<noteq> svc"
  shows "content (cl_store (sc_client (fold run_shell ops w))) (svc', key) = content keys (svc', key)"
proof -
  have "store_keeps (env_store (sc_env w)) (other_entries content svc (content keys))"
    using keychain_keeps_other_entries [OF assms(1), of "\<lparr>service = svc\<rparr>"] assms(2)
    by (simp add: new_handle boxed_same)
  then have "other_entries content svc (content keys) (cl_store (sc_client (fold run_shell ops w)))"
    by (rule run_shells_keep) (use assms(2) in \<open>simp add: new_handle other_entries_def\<close>)
  with assms(3) show ?thesis by (simp add: other_entries_def)
qed

theorem handles_are_isolated_witness:
  "cl_store (sc_client (fold run_shell [Op_Forget_Server, Op_Connect ''h'' 1, Op_Sign_Out] (sample_handle ''a'')))
     (''b'', SECRET_KEY) = Some [1]"
proof -
  have w: "sylva_new True sample_keyring sample_shell_env \<lparr>host_rng = of_nat, host_net = host_net sample_start\<rparr>
      [(''b'', SECRET_KEY) \<mapsto> [1]] ''a'' = Inr (sample_handle ''a'')"
    by (simp add: sample_handle_def sylva_new_def)
  have "''b'' \<noteq> ''a''" by simp
  from handles_are_isolated [OF sample_keyring_sound w this] show ?thesis by (simp only: fun_upd_same)
qed

text \<open>
  Property C28: an empty Secret Key is not an absent one. A text of spaces and hyphens alone, the empty
  text included, is refused as a wrong key before anything is read or sent.
\<close>

theorem blank_secret_key_refused:
  assumes "\<forall>c \<in> set entered. c = CHR '' '' \<or> c = CHR ''-''"
  shows "sylva_sign_in email pw (Some entered) w = (Inl CryptoFailed, w)"
proof -
  have "symbols_of entered = Inr []"
    using assms
  proof (induction entered)
    case (Cons c cs)
    have "ascii_upper (CHR '' '') = CHR '' ''" "ascii_upper (CHR ''-'') = CHR ''-''" by code_simp+
    with Cons show ?case by auto
  qed simp
  then have "\<exists>e. sk_parse entered = Inl e" by (simp add: sk_parse_symbols)
  then show ?thesis using block_on_sign_in_parsed by blast
qed

theorem blank_secret_key_refused_witness:
  "sylva_sign_in ''e'' ''pw'' (Some '''') \<lparr>sc_env = sample_env, sc_client = sample_returning\<rparr> =
     (Inl CryptoFailed, \<lparr>sc_env = sample_env, sc_client = sample_returning\<rparr>)"
  by (rule blank_secret_key_refused) simp

text \<open>
  A shell call is the facade's step. Every state of a handle after a sequence of calls is
  the state the facade reaches from the handle's client by the same operations.
\<close>

lemma shell_refines_facade:
  "reaches (sc_env w) (sc_client w) ops (sc_client (fold run_shell ops w))"
proof (induction ops rule: rev_induct)
  case Nil
  show ?case by (simp add: reaches.start)
next
  case (snoc op ops)
  then show ?case using reaches.step [OF snoc, of op] by (simp add: run_shell_run_op [of op] run_shells_env)
qed

end
