(* ===== verification/Client_Types.thy ===== *)
theory Client_Types
  imports Client_Session
begin

text \<open>
  The sizes the code's types promise. Rust's arrays fix the size of every key; here they are byte
  lists, and the invariant says that every key a client holds in memory or leaves in its store has
  the size of the code's type, whatever the libraries, the network and the server answer. A stored
  key is therefore never refused as malformed.
\<close>

section \<open>Results of computations\<close>

text \<open>The computation keeps the state predicate, and what it returns satisfies the other one.\<close>

definition yields :: "('s \<Rightarrow> bool) \<Rightarrow> ('s, 'e, 'a) exec \<Rightarrow> ('a \<Rightarrow> bool) \<Rightarrow> bool" where
  "yields I m Q \<longleftrightarrow> (\<forall>s r s'. I s \<longrightarrow> m s = (r, s') \<longrightarrow> I s' \<and> (\<forall>x. r = Inr x \<longrightarrow> Q x))"

lemma yieldsI:
  assumes "keeps I m" and "\<And>s x s'. I s \<Longrightarrow> m s = (Inr x, s') \<Longrightarrow> Q x"
  shows "yields I m Q"
  using assms unfolding yields_def keeps_def by blast

lemma yields_keeps: "yields I m Q \<Longrightarrow> keeps I m"
  unfolding yields_def keeps_def by blast

lemma yields_then:
  assumes "yields I m Q" and "\<And>x. Q x \<Longrightarrow> keeps I (f x)"
  shows "keeps I (and_then m f)"
proof (rule keepsI)
  fix s r s'
  assume "I s" and run: "and_then m f s = (r, s')"
  obtain v t where m: "m s = (v, t)" by (cases "m s")
  with assms(1) \<open>I s\<close> have "I t" and "v = Inr x \<Longrightarrow> Q x" for x by (auto simp: yields_def)
  with assms(2) m run show "I s'"
    by (cases v) (auto simp: and_then_def dest: keepsD)
qed

lemma yields_attempt_then:
  assumes "yields I m Q" and "\<And>x. Q x \<Longrightarrow> keeps I (f (Inr x))" and "\<And>e. keeps I (f (Inl e))"
  shows "keeps I (and_then (attempt m) f)"
proof (rule keepsI)
  fix s r s'
  assume "I s" and run: "and_then (attempt m) f s = (r, s')"
  obtain v t where m: "m s = (v, t)" by (cases "m s")
  with assms(1) \<open>I s\<close> have "I t" and "v = Inr x \<Longrightarrow> Q x" for x by (auto simp: yields_def)
  with assms(2,3) m run show "I s'"
    by (cases v) (auto simp: attempt_then dest: keepsD)
qed

lemma yields_map_error: "yields I m Q \<Longrightarrow> yields I (map_error g m) Q"
  by (fastforce simp: yields_def map_error_def split: prod.splits)

lemma yields_lift: "(\<And>x. r = Inr x \<Longrightarrow> Q x) \<Longrightarrow> yields I (lift_result r) Q"
  by (simp add: yields_def lift_result_def)

section \<open>Typed states\<close>

definition typed_identity :: "unlocked_identity \<Rightarrow> bool" where
  "typed_identity ident \<longleftrightarrow> wf_mk (ui_master_key ident) \<and>
     length (ui_x25519_secret ident) = 32 \<and> length (ui_ed25519_secret ident) = 32"

definition typed_inner :: "'c inner \<Rightarrow> bool" where
  "typed_inner inner \<longleftrightarrow>
     (\<forall>v. in_verified inner = Some v \<longrightarrow> length (identity_public v) = 32) \<and>
     (\<forall>ident. in_identity inner = Some ident \<longrightarrow> typed_identity ident) \<and>
     (\<forall>sk. in_secret_key inner = Some sk \<longrightarrow> wf_sk sk)"

text \<open>The entries of the store: the keys have their sizes, the profile can be read and pins 32 bytes.\<close>

definition typed_entry :: "vault_lib \<Rightarrow> string \<Rightarrow> bytes \<Rightarrow> bool" where
  "typed_entry J k b \<longleftrightarrow>
     (k = MASTER_KEY \<longrightarrow> length b = 32) \<and>
     (k = SECRET_KEY \<longrightarrow> length b = 20) \<and>
     (k = DEVICE_SECRET \<longrightarrow> length b = 32) \<and>
     (k = SERVER_PROFILE \<longrightarrow>
        (\<exists>p. profile_json_read J b = Some p \<and> length (sp_identity_public p) = 32))"

definition typed_store :: "vault_lib \<Rightarrow> (string \<Rightarrow> bytes option) \<Rightarrow> bool" where
  "typed_store J entries \<longleftrightarrow> (\<forall>k b. entries k = Some b \<longrightarrow> typed_entry J k b)"

definition typed :: "('n, 's, 'c) env \<Rightarrow> ('s \<Rightarrow> string \<Rightarrow> bytes option) \<Rightarrow> ('n, 's, 'c) client \<Rightarrow> bool" where
  "typed E view s \<longleftrightarrow> typed_inner (cl_inner s) \<and> typed_store (env_vault E) (view (cl_store s))"

lemma typed_host:
  assumes "\<And>z. keeps (\<lambda>h. host.more h = z) m"
  shows "keeps (typed E view) m"
proof (rule keepsI)
  fix s r s'
  assume t: "typed E view s" and run: "m s = (r, s')"
  have "host.more s' = host.more s" using keepsD [OF assms [of "host.more s"] refl run] .
  then show "typed E view s'" using t client_parts_more [of s' s] by (simp add: typed_def)
qed

lemma typed_inner_set:
  "(\<And>i. typed_inner i \<Longrightarrow> typed_inner (f i)) \<Longrightarrow> keeps (typed E view) (set_inner f)"
  unfolding set_inner_def by (rule keeps_modify) (simp add: typed_def)

lemma typed_on_store:
  assumes "keeps (\<lambda>t. typed_store (env_vault E) (view t)) m"
  shows "keeps (typed E view) (on_store m)"
  by (rule keepsI)
     (use assms in \<open>auto simp: typed_def on_store_def map_error_def on_part_def dest: keepsD split: prod.splits\<close>)

section \<open>What the parts return\<close>

lemma fetched_key_size:
  "fetch_and_verify D W u h = (Inr v, h') \<Longrightarrow> length (identity_public v) = 32"
  by (auto simp: fetch_and_verify_Inr_iff parse_and_verify_def dest: verify_discovery_key_size split: option.splits sum.splits)

lemma discovered_key_size:
  "discover_and_connect D W host port pin h = (Inr (c, v, d), h') \<Longrightarrow> length (identity_public v) = 32"
  by (auto simp: discover_Inr_iff dest: fetched_key_size)

lemma unlocked_typed: "unlock_identity L b pw sk = Inr ident \<Longrightarrow> typed_identity ident"
  by (auto simp: unlock_iff typed_identity_def wf_mk_def KEY_LEN_def dest!: open_array_Inr)

lemma bootstrapped_typed:
  "bootstrap_identity_with_params L pw prm r = (Inr boot, r') \<Longrightarrow>
     typed_identity (bo_identity boot) \<and> wf_sk (bo_secret_key boot)"
  by (drule bootstrap_unfold) (auto simp: typed_identity_def wf_mk_def KEY_LEN_def)

lemma device_key_size:
  "(generate_device_keypair L :: (rng, 'e, _) exec) r = (Inr device, r') \<Longrightarrow> length (dk_secret device) = 32"
  by (auto simp: generate_device_keypair_def and_then_Inr_iff ret_eq KEY_LEN_def)

lemma logged_in_typed: "login L W c email pw sk h = (Inr li, h') \<Longrightarrow> typed_identity (li_identity li)"
  by (auto simp: login_Inr_iff dest: unlocked_typed)

lemma enrolled_typed:
  "enroll_new_owner_with_params L W c owner prm h = (Inr en, h') \<Longrightarrow>
     typed_identity (eo_identity en) \<and> wf_sk (eo_secret_key en) \<and> length (eo_device_secret en) = 32"
  by (auto simp: enroll_Inr_iff dest!: bootstrapped_typed device_key_size)

lemma parsed_wf: "sk_parse t = Inr sk \<Longrightarrow> wf_sk sk"
  by (auto simp: sk_parse_def wf_sk_def split: sum.splits if_splits)

lemma from_bytes_wf: "sk_from_bytes b = Inr sk \<Longrightarrow> wf_sk sk"
  by (auto simp: sk_from_bytes_def wf_sk_def split: if_splits)

section \<open>The store\<close>

context atomic_store
begin

lemma typed_store_set:
  assumes "typed_entry J k b"
  shows "keeps (\<lambda>t. typed_store J (view t)) (store_set S k b)"
proof (rule keepsI)
  fix t r t'
  assume t: "typed_store J (view t)" and run: "store_set S k b t = (r, t')"
  have "view t' k = Some b \<or> view t' k = view t k"
    using set_ok set_failed run by (cases r) auto
  moreover have "k' \<noteq> k \<Longrightarrow> view t' k' = view t k'" for k' by (rule set_other [OF run])
  ultimately show "typed_store J (view t')"
    using t assms unfolding typed_store_def by (metis option.inject)
qed

lemma typed_store_delete_all: "keeps (\<lambda>t. typed_store J (view t)) (delete_all S ks)"
proof (rule keepsI)
  fix t r t'
  assume "typed_store J (view t)" and "delete_all S ks t = (r, t')"
  then show "typed_store J (view t')"
    using delete_all_entry unfolding typed_store_def by (metis option.distinct(1))
qed

lemma typed_store_read: "keeps (\<lambda>t. typed_store J (view t)) (and_then (store_get S k) (decode_stored dec))"
  by (rule keepsI) (auto dest: read_entry_keeps)

lemma typed_store_getters:
  "keeps (\<lambda>t. typed_store J (view t)) (vault_server_profile J' S)"
  "keeps (\<lambda>t. typed_store J (view t)) (vault_session_token S)"
  "keeps (\<lambda>t. typed_store J (view t)) (vault_master_key S)"
  "keeps (\<lambda>t. typed_store J (view t)) (vault_secret_key S)"
  by (simp_all add: vault_server_profile_def vault_session_token_def vault_master_key_def
      vault_secret_key_def typed_store_read)

lemma typed_store_setters:
  "keeps (\<lambda>t. typed_store J (view t)) (vault_set_session_token S tok)"
  "wf_mk mk \<Longrightarrow> keeps (\<lambda>t. typed_store J (view t)) (vault_set_master_key S mk)"
  "wf_sk sk \<Longrightarrow> keeps (\<lambda>t. typed_store J (view t)) (vault_set_secret_key S sk)"
  "length dev = 32 \<Longrightarrow> keeps (\<lambda>t. typed_store J (view t)) (vault_set_device_secret S dev)"
  unfolding vault_set_session_token_def vault_set_master_key_def vault_set_secret_key_def
    vault_set_device_secret_def
  by (rule typed_store_set; simp add: typed_entry_def entry_names wf_mk_def wf_sk_def SECRET_KEY_BYTES_def)+

lemma typed_store_profile:
  assumes "profile_json_sound J" and "length (sp_identity_public p) = 32"
  shows "keeps (\<lambda>t. typed_store J (view t)) (vault_set_server_profile J S p)"
proof (cases "profile_json_write J p")
  case None
  then show ?thesis by (simp add: vault_set_server_profile_def exec_steps keeps_throw)
next
  case (Some b)
  then have "typed_entry J SERVER_PROFILE b"
    using assms by (auto simp: typed_entry_def entry_names profile_json_sound_def)
  with Some show ?thesis
    by (simp add: vault_set_server_profile_def exec_steps typed_store_set)
qed

lemma typed_store_clear:
  "keeps (\<lambda>t. typed_store J (view t)) (vault_clear S)"
  "keeps (\<lambda>t. typed_store J (view t)) (vault_clear_session S)"
  by (simp_all only: vault_clear_keys vault_clear_session_keys typed_store_delete_all)

lemma stored_secret_key_wf: "vault_secret_key S t = (Inr (Some sk), t') \<Longrightarrow> wf_sk sk"
  unfolding vault_secret_key_def
  by (drule read_entry_value) (auto dest: from_bytes_wf dest!: sym [of "Some sk"] split: option.splits)

text \<open>What the invariant gives: the fixed-size getters succeed whenever the store can be read.\<close>

lemma typed_read:
  assumes "typed_store J (view t)" and "fst (store_get S k t) = Inr w"
    and "\<And>b. typed_entry J k b \<Longrightarrow> \<exists>x. dec b = Some x"
  shows "\<exists>x. fst (and_then (store_get S k) (decode_stored dec) t) = Inr x"
proof -
  obtain t' where get: "store_get S k t = (Inr w, t')" using assms(2) by (cases "store_get S k t") simp
  then have "w = view t k" by (rule get_ok)
  then show ?thesis
    using assms(1,3) get
    by (cases w) (force simp: and_then_def decode_stored_def exec_steps exec_simps typed_store_def)+
qed

lemma typed_getters:
  assumes "typed_store J (view t)"
  shows "fst (store_get S MASTER_KEY t) = Inr w \<Longrightarrow> \<exists>x. fst (vault_master_key S t) = Inr x"
    and "fst (store_get S SECRET_KEY t) = Inr w \<Longrightarrow> \<exists>x. fst (vault_secret_key S t) = Inr x"
    and "fst (store_get S DEVICE_SECRET t) = Inr w \<Longrightarrow> \<exists>x. fst (vault_device_secret S t) = Inr x"
    and "fst (store_get S SERVER_PROFILE t) = Inr w \<Longrightarrow> \<exists>x. fst (vault_server_profile J S t) = Inr x"
  unfolding vault_master_key_def vault_secret_key_def vault_device_secret_def vault_server_profile_def
  by (erule typed_read [OF assms];
      auto simp: typed_entry_def entry_names array32_def sk_from_bytes_def SECRET_KEY_BYTES_def)+

end

section \<open>The operations\<close>

lemma yields_get_inner: "yields (typed E view) get_inner typed_inner"
  by (auto simp: yields_def get_inner_def read_state_eq typed_def)

lemma yields_ok_or: "(\<And>x. v = Some x \<Longrightarrow> Q x) \<Longrightarrow> yields I (lift_result (ok_or v e)) Q"
  by (rule yields_lift) simp

lemma yields_host:
  assumes "\<And>z. keeps (\<lambda>h. host.more h = z) m" and "\<And>s x s'. m s = (Inr x, s') \<Longrightarrow> Q x"
  shows "yields (typed E view) m Q"
  using typed_host [OF assms(1)] assms(2) by (rule yieldsI)

definition typed_data :: "to_cache \<Rightarrow> bool" where
  "typed_data data \<longleftrightarrow> length (tc_identity_public data) = 32 \<and> wf_mk (tc_master_key data) \<and>
     wf_sk (tc_secret_key data) \<and> (\<forall>dev. tc_device_secret data = Some dev \<longrightarrow> length dev = 32)"

lemmas typed_rules = keeps_and_then keeps_ret keeps_throw keeps_lift_result quiet_session quiet_call
  keeps_map_error keeps_attempt typed_host [OF keeps_rest_rng] quiet_calls [THEN typed_host]
  typed_host [OF keeps_rest_session_key_material]

lemma typed_persist:
  assumes "atomic_store (env_store E) view" and "profile_json_sound (env_vault E)" and "typed_data data"
  shows "keeps (typed E view) (persist E data)"
proof -
  note set = atomic_store.typed_store_setters [OF assms(1), THEN typed_on_store]
  have dev: "keeps (typed E view)
      (case tc_device_secret data of Some x \<Rightarrow> on_store (vault_set_device_secret (env_store E) x) | None \<Rightarrow> ret ())"
    using assms(3) by (cases "tc_device_secret data") (simp_all add: keeps_ret set(4) typed_data_def)
  show ?thesis
    unfolding persist_def Let_def
    by (intro keeps_and_then dev keeps_ret set typed_on_store [OF atomic_store.typed_store_profile [OF assms(1,2)]])
       (use assms(3) in \<open>simp_all add: typed_data_def\<close>)
qed

lemma typed_simple_ops:
  assumes "atomic_store (env_store E) view"
  shows "keeps (typed E view) (list_devices E)"
    and "keeps (typed E view) (revoke_device E device)"
    and "keeps (typed E view) (get_profile E)"
    and "keeps (typed E view) (update_display_name E name)"
    and "keeps (typed E view) (update_email E email pw)"
    and "keeps (typed E view) (change_password E old new)"
    and "keeps (typed E view) (set_avatar E png)"
    and "keeps (typed E view) (get_avatar E)"
    and "keeps (typed E view) (sign_out E)"
    and "keeps (typed E view) (forget_server E)"
proof -
  note reads = atomic_store.typed_store_getters [OF assms, THEN typed_on_store]
    and clears = atomic_store.typed_store_clear [OF assms, THEN typed_on_store]
  have reset: "keeps (typed E view) (set_inner (\<lambda>_. inner_default))"
    by (rule typed_inner_set) (simp add: typed_inner_def inner_default_def)
  show "keeps (typed E view) (list_devices E)" "keeps (typed E view) (revoke_device E device)"
    "keeps (typed E view) (get_profile E)" "keeps (typed E view) (update_display_name E name)"
    "keeps (typed E view) (update_email E email pw)" "keeps (typed E view) (change_password E old new)"
    "keeps (typed E view) (set_avatar E png)" "keeps (typed E view) (sign_out E)"
    "keeps (typed E view) (forget_server E)"
    unfolding list_devices_def revoke_device_def get_profile_def update_display_name_def update_email_def
      change_password_def set_avatar_def sign_out_def forget_server_def Let_def
    by (intro typed_rules reads clears reset)+
  show "keeps (typed E view) (get_avatar E)"
    unfolding get_avatar_def by (auto intro!: typed_rules reads split: option.split)
qed

lemma typed_enroll_device:
  assumes "atomic_store (env_store E) view"
  shows "keeps (typed E view) (enroll_this_device E label)"
  unfolding enroll_this_device_def
  by (intro keeps_and_then quiet_session keeps_ret quiet_call quiet_calls [THEN typed_host]
      yields_then [OF yields_host [OF keeps_rest_rng, where Q = "\<lambda>d. length (dk_secret d) = 32"]]
      typed_on_store atomic_store.typed_store_setters(4) [OF assms])
     (auto dest: device_key_size)

lemma typed_connect:
  assumes "atomic_store (env_store E) view"
  shows "keeps (typed E view) (client_connect E host port)"
proof -
  have meet: "yields (typed E view)
      (map_error map_connect_err (discover_and_connect (env_discovery E) (env_net E) host port pin))
      (\<lambda>(c, v, d). length (identity_public v) = 32)" for pin
    by (intro yields_map_error yields_host keeps_rest_discover) (auto dest: discovered_key_size)
  show ?thesis
    unfolding client_connect_def Let_def
    by (intro keeps_and_then typed_on_store atomic_store.typed_store_getters(1) [OF assms] yields_then [OF meet])
       (auto intro!: keeps_and_then keeps_ret typed_inner_set simp: typed_inner_def split: prod.split)
qed

lemma typed_create_owner:
  assumes "atomic_store (env_store E) view" and "profile_json_sound (env_vault E)"
  shows "keeps (typed E view) (create_owner E email name pw label)"
proof -
  have enroll: "yields (typed E view) (map_error map_enroll_err
      (enroll_new_owner (env_crypto E) (env_net E) c owner))
      (\<lambda>en. typed_identity (eo_identity en) \<and> wf_sk (eo_secret_key en) \<and> length (eo_device_secret en) = 32)"
    for c owner
    unfolding enroll_new_owner_def
    by (intro yields_map_error yields_host keeps_rest_enroll) (auto dest: enrolled_typed)
  show ?thesis
    unfolding create_owner_def
    by (intro yields_then [OF yields_get_inner] keeps_and_then [OF keeps_lift_result] yields_then [OF enroll]
        yields_then [OF yields_ok_or [where Q = "\<lambda>v. length (identity_public v) = 32"]]
        keeps_and_then [OF typed_persist [OF assms]] keeps_and_then [OF typed_inner_set] keeps_ret)
       (auto simp: typed_inner_def typed_data_def typed_identity_def)
qed

lemma typed_resolve:
  assumes "atomic_store (env_store E) view"
  shows "yields (typed E view) (resolve_secret_key E entered) wf_sk"
proof (cases entered)
  case None
  have "keeps (typed E view) (on_store (vault_secret_key (env_store E)))"
    by (intro typed_on_store atomic_store.typed_store_getters(4) [OF assms])
  then show ?thesis
    unfolding resolve_secret_key_def None option.case
    by (intro yieldsI keeps_and_then keeps_lift_result)
       (auto simp: and_then_Inr_iff lift_result_eq dest: atomic_store.stored_secret_key_wf [OF assms])
next
  case (Some t)
  show ?thesis
    unfolding resolve_secret_key_def Some option.case by (rule yields_lift) (auto dest: parsed_wf)
qed

lemma typed_sign_in:
  assumes "atomic_store (env_store E) view" and "profile_json_sound (env_vault E)"
  shows "keeps (typed E view) (sign_in E email pw entered)"
proof -
  have login: "yields (typed E view) (login (env_crypto E) (env_net E) c email pw sk)
      (\<lambda>li. typed_identity (li_identity li))" for c sk
    by (intro yields_host keeps_rest_login) (auto dest: logged_in_typed)
  show ?thesis
    unfolding sign_in_def
    by (intro yields_then [OF typed_resolve [OF assms(1)]] yields_then [OF yields_get_inner]
        keeps_and_then [OF keeps_lift_result] yields_attempt_then [OF login]
        yields_then [OF yields_ok_or [where Q = "\<lambda>v. length (identity_public v) = 32"]])
       (auto simp: typed_inner_def typed_data_def typed_identity_def
         intro!: keeps_and_then typed_persist [OF assms] typed_inner_set keeps_ret keeps_throw
         split: enroll_error.split)
qed

lemma typed_restore:
  assumes "atomic_store (env_store E) view"
  shows "keeps (typed E view) (restore E)"
proof -
  have meet: "yields (typed E view)
      (discover_and_connect (env_discovery E) (env_net E) host port pin)
      (\<lambda>(c, v, d). length (identity_public v) = 32)" for host port pin
    by (intro yields_host keeps_rest_discover) (auto dest: discovered_key_size)
  show ?thesis
    unfolding restore_def
    by (auto intro!: keeps_and_then [OF typed_on_store] atomic_store.typed_store_getters [OF assms] keeps_ret
        yields_attempt_then [OF meet] keeps_and_then [OF typed_inner_set]
        simp: typed_inner_def split: option.split list.split)
qed

lemma keeps_snd: "keeps I m \<Longrightarrow> I s \<Longrightarrow> I (snd (m s))"
  by (metis keepsD prod.collapse)

lemma run_op_typed:
  assumes "atomic_store (env_store E) view" and "profile_json_sound (env_vault E)" and "typed E view s"
  shows "typed E view (run_op E op s)"
  using assms(3)
  by (cases op) (simp_all add: keeps_snd typed_connect [OF assms(1)] typed_create_owner [OF assms(1,2)]
      typed_sign_in [OF assms(1,2)] typed_restore [OF assms(1)] typed_enroll_device [OF assms(1)]
      typed_simple_ops [OF assms(1)])

section \<open>Properties\<close>

text \<open>
  Property C9: every key has the size of its type, always. Whatever operations are run, in whatever
  order and with whatever outcomes, the held server key, identity and Secret Key and the stored
  keys keep their sizes and the stored profile stays readable; so reading them fails only when the
  store itself cannot be read, never because an entry is malformed. A failed write or deletion of the
  store is taken to leave the entry as it was.
\<close>

theorem keys_keep_their_sizes:
  assumes "atomic_store (env_store E) view" and "profile_json_sound (env_vault E)"
    and "reaches E s0 ops s" and "typed E view s0"
  shows "typed E view s \<and>
    (\<forall>w. fst (store_get (env_store E) MASTER_KEY (cl_store s)) = Inr w \<longrightarrow>
       (\<exists>x. fst (vault_master_key (env_store E) (cl_store s)) = Inr x)) \<and>
    (\<forall>w. fst (store_get (env_store E) SECRET_KEY (cl_store s)) = Inr w \<longrightarrow>
       (\<exists>x. fst (vault_secret_key (env_store E) (cl_store s)) = Inr x)) \<and>
    (\<forall>w. fst (store_get (env_store E) DEVICE_SECRET (cl_store s)) = Inr w \<longrightarrow>
       (\<exists>x. fst (vault_device_secret (env_store E) (cl_store s)) = Inr x)) \<and>
    (\<forall>w. fst (store_get (env_store E) SERVER_PROFILE (cl_store s)) = Inr w \<longrightarrow>
       (\<exists>x. fst (vault_server_profile (env_vault E) (env_store E) (cl_store s)) = Inr x))"
proof -
  have t: "typed E view s"
    using assms(3) by induction (simp_all add: assms(4) run_op_typed [OF assms(1,2)] del: run_op.simps)
  then have "typed_store (env_vault E) (view (cl_store s))" by (simp add: typed_def)
  from t atomic_store.typed_getters [OF assms(1) this] show ?thesis by blast
qed

theorem keys_keep_their_sizes_witness:
  "typed sample_env (\<lambda>m. m) (run_op sample_env (Op_Connect ''h'' 1) sample_start)"
proof -
  have "typed sample_env (\<lambda>m. m) sample_start"
    by (simp add: typed_def typed_inner_def typed_store_def sample_start_def client_with_store_def
        host.extend_def client.fields_def inner_default_def memory_new_def)
  moreover have "reaches sample_env sample_start ([] @ [Op_Connect ''h'' 1])
      (run_op sample_env (Op_Connect ''h'' 1) sample_start)"
    by (intro reaches.step reaches.start)
  ultimately show ?thesis
    using keys_keep_their_sizes [OF sample_env_ok] by blast
qed

end
