(* ===== verification/Secret_Key_Bounds.thy ===== *)
theory Secret_Key_Bounds
  imports Secret_Key "HOL-Library.Monad_Syntax"
begin

text \<open>
  The machine integers of \<open>src/crypto/secret_key.rs\<close>. \<open>Secret_Key\<close> counts bits and symbols in
  natural numbers and indexes the alphabet without a check; here the loops are written a second
  time as the machine runs them, with 32-bit bit counts and shift amounts, a 64-bit symbol count
  and every operation that panics when it goes out of range: addition, subtraction, the shift by
  32 bits or more, and indexing. A panic is \<open>None\<close>. The two agree, so none of them can happen.
\<close>

section \<open>Arithmetic that panics\<close>

type_synonym usize = "64 word"

definition add_checked :: "'a::len word \<Rightarrow> 'a word \<Rightarrow> 'a word option" where
  "add_checked a b = (if unat a + unat b < 2 ^ LENGTH('a) then Some (a + b) else None)"

definition sub_checked :: "'a::len word \<Rightarrow> 'a word \<Rightarrow> 'a word option" where
  "sub_checked a b = (if b \<le> a then Some (a - b) else None)"

definition shl_checked :: "u32 \<Rightarrow> u32 \<Rightarrow> u32 option" where
  "shl_checked a n = (if n < 32 then Some (push_bit (unat n) a) else None)"

definition shr_checked :: "u32 \<Rightarrow> u32 \<Rightarrow> u32 option" where
  "shr_checked a n = (if n < 32 then Some (drop_bit (unat n) a) else None)"

definition index_checked :: "'a list \<Rightarrow> nat \<Rightarrow> 'a option" where
  "index_checked xs i = (if i < length xs then Some (xs ! i) else None)"

lemma unat_u32_eq: "k < 2 ^ 32 \<Longrightarrow> unat (of_nat k :: u32) = k"
  by (simp add: unat_of_nat)

lemma unat_usize_eq: "k < 2 ^ 64 \<Longrightarrow> unat (of_nat k :: usize) = k"
  by (simp add: unat_of_nat)

lemma add_u32: "k + j < 2 ^ 32 \<Longrightarrow> add_checked (of_nat k :: u32) (of_nat j) = Some (of_nat (k + j))"
  by (simp add: add_checked_def unat_u32_eq)

lemma add_usize: "k + j < 2 ^ 64 \<Longrightarrow> add_checked (of_nat k :: usize) (of_nat j) = Some (of_nat (k + j))"
  by (simp add: add_checked_def unat_usize_eq)

lemma sub_u32: "j \<le> k \<Longrightarrow> k < 2 ^ 32 \<Longrightarrow> sub_checked (of_nat k :: u32) (of_nat j) = Some (of_nat (k - j))"
  by (simp add: sub_checked_def word_le_nat_alt unat_u32_eq of_nat_diff)

lemma shifts_u32:
  assumes "k < 32"
  shows "shl_checked a (of_nat k) = Some (push_bit k a)" and "shr_checked a (of_nat k) = Some (drop_bit k a)"
  using assms by (simp_all add: shl_checked_def shr_checked_def word_less_nat_alt unat_u32_eq)

lemma le_u32: "k < 2 ^ 32 \<Longrightarrow> j < 2 ^ 32 \<Longrightarrow> (of_nat j :: u32) \<le> of_nat k \<longleftrightarrow> j \<le> k"
  by (simp add: word_le_nat_alt unat_u32_eq)

section \<open>The loops with their checks\<close>

function drain_checked :: "u32 \<Rightarrow> u32 \<Rightarrow> usize \<Rightarrow> string \<Rightarrow> (u32 \<times> usize \<times> string) option" where
  "drain_checked acc acc_bits symbols out =
     (if 5 \<le> acc_bits then do {
        acc_bits' \<leftarrow> sub_checked acc_bits 5;
        shifted \<leftarrow> shr_checked acc acc_bits';
        c \<leftarrow> index_checked ALPHABET (unat (shifted AND 0x1f));
        symbols' \<leftarrow> add_checked symbols 1;
        drain_checked acc acc_bits' symbols'
          (if symbols' mod 4 = 0 then out @ [c] @ ''-'' else out @ [c])
      } else Some (acc_bits, symbols, out))"
  by pat_completeness auto

termination
  by (relation "measure (\<lambda>(acc, acc_bits, symbols, out). unat acc_bits)")
     (auto simp: sub_checked_def word_le_nat_alt unat_sub split: if_splits)

declare drain_checked.simps [simp del]

fun encode_loop_checked :: "bytes \<Rightarrow> u32 \<Rightarrow> u32 \<Rightarrow> usize \<Rightarrow> string \<Rightarrow> (u32 \<times> u32 \<times> string) option" where
  "encode_loop_checked [] acc acc_bits symbols out = Some (acc, acc_bits, out)"
| "encode_loop_checked (b # bs) acc acc_bits symbols out = do {
     shifted \<leftarrow> shl_checked acc 8;
     let acc' = shifted OR ucast b;
     acc_bits' \<leftarrow> add_checked acc_bits 8;
     (acc_bits', symbols', out') \<leftarrow> drain_checked acc' acc_bits' symbols out;
     encode_loop_checked bs acc' acc_bits' symbols' out'
   }"

definition encode_checked :: "bytes \<Rightarrow> string option" where
  "encode_checked bs = do {
     (acc, acc_bits, out) \<leftarrow> encode_loop_checked bs 0 0 0 [];
     out' \<leftarrow>
       (if 0 < acc_bits then do {
          missing \<leftarrow> sub_checked 5 acc_bits;
          shifted \<leftarrow> shl_checked acc missing;
          c \<leftarrow> index_checked ALPHABET (unat (shifted AND 0x1f));
          Some (out @ [c])
        } else Some out);
     Some (trim_end_matches CHR ''-'' out')
   }"

fun decode_loop_checked :: "string \<Rightarrow> u32 \<Rightarrow> u32 \<Rightarrow> bytes \<Rightarrow> (crypto_error + bytes) option" where
  "decode_loop_checked [] acc acc_bits out = Some (Inr out)"
| "decode_loop_checked (ch # chs) acc acc_bits out =
     (let upper = ascii_upper ch in
      if upper = CHR ''-'' \<or> upper = CHR '' '' then decode_loop_checked chs acc acc_bits out
      else (case symbol_value upper of
              Inl e \<Rightarrow> Some (Inl e)
            | Inr v \<Rightarrow> do {
                shifted \<leftarrow> shl_checked acc 5;
                let acc' = shifted OR v;
                acc_bits' \<leftarrow> add_checked acc_bits 5;
                if 8 \<le> acc_bits' then do {
                  rest \<leftarrow> sub_checked acc_bits' 8;
                  top \<leftarrow> shr_checked acc' rest;
                  decode_loop_checked chs acc' rest (out @ [ucast (top AND 0xff)])
                } else decode_loop_checked chs acc' acc_bits' out
              }))"

definition decode_checked :: "string \<Rightarrow> (crypto_error + bytes) option" where
  "decode_checked input = decode_loop_checked input 0 0 []"

section \<open>The checks never fail\<close>

lemma symbol_index: "index_checked ALPHABET (unat ((w :: u32) AND 0x1f)) = Some (ALPHABET ! unat (w AND 0x1f))"
proof -
  have "unat (w AND 0x1f) < 32"
    using unat_bits_val_bound [of "bits_of 5 w"] by (simp add: bits_val_of take_bit_eq_mask mask_eq_exp_minus_1)
  then show ?thesis by (simp add: index_checked_def length_ALPHABET)
qed

lemma mod_4_usize: "n < 2 ^ 64 \<Longrightarrow> (of_nat n :: usize) mod 4 = 0 \<longleftrightarrow> n mod 4 = 0"
  by (simp add: word_arith_nat_mod unat_usize_eq unat_of_nat word_unat_eq_iff)

text \<open>In the units of the proof: at most 13 pending bits, and a symbol count that fits.\<close>

lemma drain_checked_eq:
  assumes "k < 13" and "n + k < 2 ^ 64"
  shows "drain_checked acc (of_nat k) (of_nat n) out =
    (case drain_symbols acc k n out of (k', n', out') \<Rightarrow> Some (of_nat k', of_nat n', out'))"
  using assms
proof (induction acc k n out rule: drain_symbols.induct)
  case (1 acc k n out)
  have le: "(5 :: u32) \<le> of_nat k \<longleftrightarrow> 5 \<le> k" using le_u32 [of k 5] 1(2) by simp
  show ?case
  proof (cases "5 \<le> k")
    case False
    then show ?thesis by (simp add: drain_checked.simps [of acc] drain_symbols.simps [of acc] le)
  next
    case True
    have ops: "sub_checked (of_nat k :: u32) 5 = Some (of_nat (k - 5))"
      "shr_checked acc (of_nat (k - 5)) = Some (drop_bit (k - 5) acc)"
      "add_checked (of_nat n :: usize) 1 = Some (of_nat (n + 1))"
      "(of_nat (n + 1) :: usize) mod 4 = 0 \<longleftrightarrow> (n + 1) mod 4 = 0"
      using sub_u32 [of 5 k] shifts_u32(2) [of "k - 5" acc] add_usize [of n 1] mod_4_usize [of "n + 1"]
        True "1.prems" by simp_all
    have "drain_checked acc (of_nat k) (of_nat n) out =
        drain_checked acc (of_nat (k - 5)) (of_nat (n + 1))
          (if (n + 1) mod 4 = 0 then (out @ [ALPHABET ! unat (drop_bit (k - 5) acc AND 0x1f)]) @ ''-''
           else out @ [ALPHABET ! unat (drop_bit (k - 5) acc AND 0x1f)])"
      using True le
      by (subst drain_checked.simps) (simp only: if_True ops symbol_index Option.bind.bind_lunit append_assoc)
    also have "\<dots> = (case drain_symbols acc k n out of (k', n', out') \<Rightarrow> Some (of_nat k', of_nat n', out'))"
      using "1.IH" [OF True refl refl refl refl] "1.prems" True
      by (subst drain_symbols.simps) (simp only: if_True Let_def)
    finally show ?thesis .
  qed
qed

lemma encode_loop_checked_eq:
  assumes "k < 5" and "5 * n + k + 8 * length bs < 2 ^ 66"
  shows "encode_loop_checked bs acc (of_nat k) (of_nat n) out =
    (case encode_loop bs acc k n out of (acc', k', out') \<Rightarrow> Some (acc', of_nat k', out')) \<and>
    fst (snd (encode_loop bs acc k n out)) < 5"
  using assms
proof (induction bs arbitrary: acc k n out)
  case Nil
  then show ?case by simp
next
  case (Cons b bs)
  let ?acc = "push_bit 8 acc OR ucast b :: u32"
  let ?out = "out @ raw_hyphens n (map sym (groups 5 (bits_of (k + 8) ?acc)))"
  have drain: "drain_symbols ?acc (k + 8) n out = ((k + 8) mod 5, n + (k + 8) div 5, ?out)"
    by (rule drain_symbols_eq)
  have small: "k + 8 < 13" "n + (k + 8) < 2 ^ 64" using Cons.prems by simp_all
  have "shl_checked acc 8 = Some (push_bit 8 acc)" "add_checked (of_nat k :: u32) 8 = Some (of_nat (k + 8))"
    using shifts_u32(1) [of 8 acc] add_u32 [of k 8] Cons.prems(1) by simp_all
  moreover have "drain_checked ?acc (of_nat (k + 8)) (of_nat n) out =
      Some (of_nat ((k + 8) mod 5), of_nat (n + (k + 8) div 5), ?out)"
    using drain_checked_eq [of "k + 8" n ?acc out, OF small] by (simp only: drain prod.case)
  moreover have "5 * (n + (k + 8) div 5) + (k + 8) mod 5 + 8 * length bs < 2 ^ 66"
    using Cons.prems(2) mult_div_mod_eq [of 5 "k + 8"] by simp
  ultimately show ?case
    using Cons.IH [of "(k + 8) mod 5" "n + (k + 8) div 5" ?acc ?out] drain
    by (simp add: Let_def del: of_nat_add)
qed

lemma decode_loop_checked_eq:
  "k < 8 \<Longrightarrow> decode_loop_checked s acc (of_nat k) out = Some (decode_loop s acc k out)"
proof (induction s acc k out rule: decode_loop.induct)
  case (2 ch chs acc k out)
  show ?case
  proof (cases "ascii_upper ch = CHR ''-'' \<or> ascii_upper ch = CHR '' ''")
    case True
    then show ?thesis using "2.IH"(1) "2.prems" by (simp add: Let_def)
  next
    case sep: False
    show ?thesis
    proof (cases "symbol_value (ascii_upper ch)")
      case (Inl e)
      then show ?thesis using sep by (simp add: Let_def)
    next
      case (Inr v)
      let ?acc = "push_bit 5 acc OR v"
      have add: "shl_checked acc 5 = Some (push_bit 5 acc)" "add_checked (of_nat k :: u32) 5 = Some (of_nat (k + 5))"
        and le: "(8 :: u32) \<le> of_nat (k + 5) \<longleftrightarrow> 8 \<le> k + 5"
        using shifts_u32(1) [of 5 acc] add_u32 [of k 5] le_u32 [of "k + 5" 8] "2.prems" by simp_all
      show ?thesis
      proof (cases "8 \<le> k + 5")
        case True
        have "sub_checked (of_nat (k + 5) :: u32) 8 = Some (of_nat (k + 5 - 8))"
          "shr_checked ?acc (of_nat (k + 5 - 8)) = Some (drop_bit (k + 5 - 8) ?acc)"
          using sub_u32 [of 8 "k + 5"] shifts_u32(2) [of "k + 5 - 8" ?acc] True "2.prems" by simp_all
        then show ?thesis
          using sep Inr add le True "2.IH"(2) [OF refl _ Inr refl refl] "2.prems"
          by (simp add: Let_def del: of_nat_add of_nat_diff)
      next
        case False
        then show ?thesis
          using sep Inr add le "2.IH"(3) [OF refl _ Inr refl refl] "2.prems"
          by (simp add: Let_def del: of_nat_add)
      qed
    qed
  qed
qed simp

section \<open>Properties\<close>

text \<open>
  Property C31: the base32 loops never leave their ranges. On every input a slice can hold, the
  encoder run with 32-bit counters and every check of the machine ends without a panic and gives
  what the unchecked definition gives, and so does the decoder on every text: no subtraction
  underflows, no shift reaches 32 bits, the alphabet is never indexed past its end.
\<close>

theorem secret_key_loops_in_range:
  assumes "length bs < 2 ^ 63"
  shows "encode_checked bs = Some (encode_grouped bs) \<and>
    decode_checked input = Some (decode_forgiving input)"
proof
  obtain acc k out where run: "encode_loop bs 0 0 0 [] = (acc, k, out)" by (cases "encode_loop bs 0 0 0 []")
  then have loop: "encode_loop_checked bs 0 0 0 [] = Some (acc, of_nat k, out)" and k: "k < 5"
    using encode_loop_checked_eq [of 0 0 bs 0 "[]"] assms by simp_all
  have pos: "(0 :: u32) < of_nat k \<longleftrightarrow> 0 < k"
    using k by (simp add: word_less_nat_alt unat_u32_eq)
  have "sub_checked (5 :: u32) (of_nat k) = Some (of_nat (5 - k))"
    "shl_checked acc (of_nat (5 - k)) = Some (push_bit (5 - k) acc)"
    using sub_u32 [of k 5] shifts_u32(1) [of "5 - k" acc] k by simp_all
  then show "encode_checked bs = Some (encode_grouped bs)"
    using pos by (simp add: encode_checked_def encode_grouped_def loop run symbol_index Let_def)
  show "decode_checked input = Some (decode_forgiving input)"
    using decode_loop_checked_eq [of 0 input 0 "[]"] by (simp add: decode_checked_def decode_forgiving_def)
qed

theorem secret_key_loops_in_range_witness:
  "encode_checked (replicate 20 0xA5) = Some (encode_grouped (replicate 20 0xA5)) \<and>
   decode_checked ''U'' = Some (decode_forgiving ''U'')"
  by (rule secret_key_loops_in_range) simp

end
