(* ===== verification/Test_Prelude.thy ===== *)
theory Test_Prelude
  imports Secret_Key
begin

text \<open>
  The crate's unit tests as computations: a failed assertion or an \<open>unwrap\<close> of an error is a panic,
  and a test passes when it ends without one.
\<close>

datatype panic = Panic

text \<open>\<open>Result::unwrap\<close> and \<open>assert!\<close>.\<close>

definition unwrap :: "('s, 'e, 'a) exec \<Rightarrow> ('s, panic, 'a) exec" where
  "unwrap m = map_error (\<lambda>_. Panic) m"

definition assert_that :: "bool \<Rightarrow> ('s, panic, unit) exec" where
  "assert_that b = (if b then ret () else throw Panic)"

definition passes :: "('s, panic, unit) exec \<Rightarrow> 's \<Rightarrow> bool" where
  "passes test s \<longleftrightarrow> fst (test s) = Inr ()"

text \<open>\<open>Option::unwrap\<close>.\<close>

definition unwrap_option :: "'a option \<Rightarrow> ('s, panic, 'a) exec" where
  "unwrap_option x = lift_result (ok_or x Panic)"

text \<open>\<open>str::split\<close> at a character.\<close>

fun split_on :: "char \<Rightarrow> string \<Rightarrow> string list" where
  "split_on c [] = [[]]"
| "split_on c (x # xs) =
     (if x = c then [] # split_on c xs
      else (case split_on c xs of [] \<Rightarrow> [[x]] | g # gs \<Rightarrow> (x # g) # gs))"

lemma passes_then: "passes (and_then m f) s \<longleftrightarrow> (\<exists>x s'. m s = (Inr x, s') \<and> passes (f x) s')"
  by (auto simp: passes_def and_then_def split: prod.splits sum.splits)

lemma passes_assert [simp]: "passes (assert_that b) s \<longleftrightarrow> b"
  by (simp add: passes_def assert_that_def ret_eq throw_eq)

lemma passes_ret [simp]: "passes (ret ()) s"
  by (simp add: passes_def ret_eq)

lemma assert_then [simp]: "passes (and_then (assert_that b) f) s \<longleftrightarrow> b \<and> passes (f ()) s"
  by (simp add: assert_that_def and_then_ret and_then_throw) (simp add: passes_def throw_eq)

lemma unwrap_Inr_iff [simp]: "unwrap m s = (Inr x, s') \<longleftrightarrow> m s = (Inr x, s')"
  by (simp add: unwrap_def)

lemma unwrap_option_then [simp]:
  "passes (and_then (unwrap_option x) f) s \<longleftrightarrow> (\<exists>y. x = Some y \<and> passes (f y) s)"
  by (auto simp: unwrap_option_def passes_then lift_result_eq)

lemma unwrap_lift_then [simp]:
  "passes (and_then (unwrap (lift_result r)) f) s \<longleftrightarrow> (\<exists>y. r = Inr y \<and> passes (f y) s)"
  by (auto simp: passes_then lift_result_eq)

lemma assert_Inr_iff [simp]: "assert_that b s = (Inr u, s') \<longleftrightarrow> b \<and> s' = s"
  by (auto simp: assert_that_def ret_eq throw_eq)

lemma attempt_Inr_iff [simp]: "attempt m s = (Inr r, s') \<longleftrightarrow> m s = (r, s')"
  by (auto simp: attempt_def split: prod.splits)

lemma unwrap_option_Inr_iff [simp]: "unwrap_option x s = (Inr y, s') \<longleftrightarrow> x = Some y \<and> s' = s"
  by (auto simp: unwrap_option_def lift_result_eq)

lemmas test_steps = passes_then lift_result_eq ret_eq

text \<open>A computation whose run is known is stepped over.\<close>

lemma passes_step: "m s = (Inr x, s') \<Longrightarrow> passes (and_then m f) s \<longleftrightarrow> passes (f x) s'"
  by (simp add: passes_then)

lemma passes_attempt: "passes (and_then (attempt m) f) s \<longleftrightarrow> (case m s of (r, s') \<Rightarrow> passes (f r) s')"
  by (simp add: passes_then attempt_def split: prod.split)

lemma split_on_none: "c \<notin> set xs \<Longrightarrow> split_on c xs = [xs]"
  by (induction xs) auto

lemma split_on_append: "c \<notin> set xs \<Longrightarrow> split_on c (xs @ c # ys) = xs # split_on c ys"
  by (induction xs) auto

lemma split_hyphenate:
  "CHR ''-'' \<notin> set s \<Longrightarrow> length s = 4 * Suc n \<Longrightarrow>
     length (split_on CHR ''-'' (hyphenate s)) = Suc n \<and>
     (\<forall>g \<in> set (split_on CHR ''-'' (hyphenate s)). length g = 4)"
proof (induction n arbitrary: s)
  case 0
  then show ?case by (simp add: hyphenate.simps [of s] split_on_none)
next
  case (Suc n)
  have "hyphenate s = take 4 s @ CHR ''-'' # hyphenate (drop 4 s)"
    using Suc.prems(2) by (simp add: hyphenate.simps [of s])
  moreover have "CHR ''-'' \<notin> set (take 4 s)" "CHR ''-'' \<notin> set (drop 4 s)"
    using Suc.prems(1) by (auto dest: in_set_takeD in_set_dropD)
  ultimately show ?case
    using Suc.IH [of "drop 4 s"] Suc.prems(2) by (simp add: split_on_append)
qed

lemma display_groups:
  assumes "wf_sk sk"
  shows "length (split_on CHR ''-'' (sk_display sk)) = 8 \<and>
    (\<forall>g \<in> set (split_on CHR ''-'' (sk_display sk)). length g = 4)"
proof -
  define s where "s = map sym (groups 5 (pad5 (bytes_bits (sk_as_bytes sk))))"
  have "sk_display sk = hyphenate s"
    by (simp add: sk_display_def encode_grouped_eq_spec encode_spec_def s_def)
  moreover have "length s = 4 * Suc 7"
    using assms by (simp add: s_def wf_sk_def SECRET_KEY_BYTES_def length_groups length_pad5)
  moreover have "CHR ''-'' \<notin> set s"
    using sym_facts(4) length_in_groups by (force simp: s_def)
  ultimately show ?thesis using split_hyphenate [of s 7] by simp
qed

lemma sk_generate_run: "sk_generate r = (Inr (SecretKey (map r [0..<20])), \<lambda>i. r (i + 20))"
  by (simp add: sk_generate_def and_then_def fill_bytes_def ret_eq SECRET_KEY_BYTES_def)

lemma isl_notE: "\<not> isl x \<Longrightarrow> (\<And>k. x = Inr k \<Longrightarrow> P) \<Longrightarrow> P"
  by (cases x) auto

section \<open>A text encoding for the witnesses\<close>

text \<open>A mark before every character and another at the end.\<close>

fun write_text :: "string \<Rightarrow> bytes" where
  "write_text [] = [0]"
| "write_text (c # cs) = 1 # byte_of_char c # write_text cs"

fun read_text :: "bytes \<Rightarrow> (string \<times> bytes) option" where
  "read_text (m # bs) =
     (if m = 0 then Some ([], bs)
      else if m = 1 then
        (case bs of
           [] \<Rightarrow> None
         | b # rest \<Rightarrow> (case read_text rest of None \<Rightarrow> None | Some (t, u) \<Rightarrow> Some (char_of_byte b # t, u)))
      else None)"
| "read_text [] = None"

lemma read_write_text: "read_text (write_text t @ rest) = Some (t, rest)"
  by (induction t) simp_all

section \<open>The tests of the Secret Key\<close>

definition generate_is_160_bits :: "(rng, panic, unit) exec" where
  "generate_is_160_bits =
     and_then sk_generate (\<lambda>sk. assert_that (length (sk_as_bytes sk) = SECRET_KEY_BYTES))"

definition display_is_eight_groups_of_four :: "(rng, panic, unit) exec" where
  "display_is_eight_groups_of_four =
     and_then sk_generate (\<lambda>sk.
       (let groups = split_on CHR ''-'' (sk_display sk) in
     and_then (assert_that (length groups = 8)) (\<lambda>_.
     assert_that (list_all (\<lambda>g. length g = 4) groups))))"

definition round_trips_through_display :: "(rng, panic, unit) exec" where
  "round_trips_through_display =
     and_then sk_generate (\<lambda>sk.
     and_then (unwrap (lift_result (sk_parse (sk_display sk)))) (\<lambda>parsed.
     assert_that (sk_as_bytes parsed = sk_as_bytes sk)))"

definition parse_is_forgiving :: "(rng, panic, unit) exec" where
  "parse_is_forgiving =
     and_then sk_generate (\<lambda>sk.
       (let mangled = map (\<lambda>c. if c = CHR ''-'' then CHR '' '' else c) (map ascii_lower (sk_display sk)) in
     and_then (unwrap (lift_result (sk_parse mangled))) (\<lambda>parsed.
     assert_that (sk_as_bytes parsed = sk_as_bytes sk))))"

definition look_alikes_map_to_canonical :: "('s, panic, unit) exec" where
  "look_alikes_map_to_canonical =
     and_then (unwrap (lift_result (sk_parse ''1111-1111-0000-0000-2222-2222-3333-3333''))) (\<lambda>canonical.
     and_then (unwrap (lift_result (sk_parse ''ILIL-LiLi-OOOO-oooo-2222-2222-3333-3333''))) (\<lambda>lookalike.
     assert_that (sk_as_bytes canonical = sk_as_bytes lookalike)))"

definition rejects_invalid_characters :: "('s, panic, unit) exec" where
  "rejects_invalid_characters = assert_that (isl (sk_parse ''UUUU-UUUU-UUUU-UUUU-UUUU-UUUU-UUUU-UUUU''))"

definition rejects_wrong_length :: "('s, panic, unit) exec" where
  "rejects_wrong_length = assert_that (isl (sk_parse ''ABCD-EFGH''))"

definition debug_is_redacted :: "(rng, panic, unit) exec" where
  "debug_is_redacted =
     and_then sk_generate (\<lambda>sk. assert_that (sk_debug sk = ''SecretKey(<redacted>)''))"

definition distinct_keys_differ :: "(rng, panic, unit) exec" where
  "distinct_keys_differ =
     and_then sk_generate (\<lambda>a. and_then sk_generate (\<lambda>b. assert_that (sk_as_bytes a \<noteq> sk_as_bytes b)))"

lemma generated_wf: "wf_sk (SecretKey (map r [0..<20]))"
  by (simp add: wf_sk_def SECRET_KEY_BYTES_def)

text \<open>Turning hyphens into spaces does not change what is parsed.\<close>

lemma symbols_of_spaces:
  "symbols_of (map (\<lambda>c. if c = CHR ''-'' then CHR '' '' else c) s) = symbols_of s"
proof (induction s)
  case (Cons c s)
  have "ascii_upper (CHR '' '') = CHR '' ''" "ascii_upper (CHR ''-'') = CHR ''-''" by code_simp+
  with Cons show ?case by (simp split: sum.split)
qed simp

text \<open>
  All tests of the file pass whatever the random source returns, but the last: that two keys
  differ is a fact about the random source.
\<close>

lemma secret_key_tests_pass:
  "passes generate_is_160_bits r" "passes display_is_eight_groups_of_four r"
  "passes round_trips_through_display r" "passes parse_is_forgiving r"
  "passes look_alikes_map_to_canonical s" "passes rejects_invalid_characters s"
  "passes rejects_wrong_length s" "passes debug_is_redacted r"
  "passes distinct_keys_differ r \<longleftrightarrow> map r [0..<20] \<noteq> map (\<lambda>i. r (i + 20)) [0..<20]"
proof -
  let ?sk = "SecretKey (map r [0..<20])"
  have parsed: "sk_parse (sk_display ?sk) = Inr ?sk"
    using sk_text.dec_enc [OF generated_wf] by simp
  note run = passes_step [OF sk_generate_run]
  show "passes generate_is_160_bits r" by (simp add: generate_is_160_bits_def run SECRET_KEY_BYTES_def)
  show "passes display_is_eight_groups_of_four r"
    using display_groups [OF generated_wf, of r]
    by (simp add: display_is_eight_groups_of_four_def run list_all_iff Let_def)
  show "passes round_trips_through_display r"
    by (simp add: round_trips_through_display_def run parsed)
  have "sk_parse (map (\<lambda>c. if c = CHR ''-'' then CHR '' '' else c) (map ascii_lower (sk_display ?sk))) = Inr ?sk"
    using parsed parse_forgiving [of "sk_display ?sk"] by (simp only: sk_parse_symbols symbols_of_spaces)
  then show "passes parse_is_forgiving r" by (simp add: parse_is_forgiving_def run Let_def)
  show "passes debug_is_redacted r" by (simp add: debug_is_redacted_def run sk_debug_def)
  show "passes distinct_keys_differ r \<longleftrightarrow> map r [0..<20] \<noteq> map (\<lambda>i. r (i + 20)) [0..<20]"
    by (simp add: distinct_keys_differ_def run passes_step [OF sk_generate_run])
  have same: "sk_parse ''ILIL-LiLi-OOOO-oooo-2222-2222-3333-3333'' =
      sk_parse ''1111-1111-0000-0000-2222-2222-3333-3333''"
    and good: "\<not> isl (sk_parse ''1111-1111-0000-0000-2222-2222-3333-3333'')"
    by code_simp+
  obtain k where k: "sk_parse ''1111-1111-0000-0000-2222-2222-3333-3333'' = Inr k"
    using good by (rule isl_notE)
  show "passes look_alikes_map_to_canonical s"
    by (simp only: look_alikes_map_to_canonical_def unwrap_lift_then passes_assert same k sum.inject simp_thms)
  have "isl (sk_parse ''UUUU-UUUU-UUUU-UUUU-UUUU-UUUU-UUUU-UUUU'') \<and> isl (sk_parse ''ABCD-EFGH'')"
    by code_simp
  then show "passes rejects_invalid_characters s" "passes rejects_wrong_length s"
    by (simp_all only: rejects_invalid_characters_def rejects_wrong_length_def passes_assert)
qed

end
