(* ===== verification/Test_Crypto.thy ===== *)
theory Test_Crypto
  imports Test_Prelude Crypto
begin

text \<open>
  The tests of \<open>src/crypto/mod.rs\<close>. They call the cryptographic libraries, so they take them as an
  argument, and the lemmas say for which libraries they pass: the round trips for every sound one
  that does not fail, the refusals exactly when the AEAD refuses the wrong key or the altered text.
\<close>

definition fast :: kdf_params where
  "fast = \<lparr>m_cost_kib = 64, t_cost = 1, p_cost = 1\<rparr>"

text \<open>\<open>bad[last] ^= 0x01\<close>.\<close>

definition flip_last :: "bytes \<Rightarrow> bytes" where
  "flip_last blob = blob[length blob - 1 := blob ! (length blob - 1) XOR 0x01]"

definition DEFAULT_JSON :: string where
  "DEFAULT_JSON =
     ''{'' @ [CHR 0x22] @ ''m'' @ [CHR 0x22] @ '':65536,'' @ [CHR 0x22] @ ''t'' @ [CHR 0x22]
       @ '':3,'' @ [CHR 0x22] @ ''p'' @ [CHR 0x22] @ '':4}''"

definition kdf_params_json_shape_round_trips :: "crypto_lib \<Rightarrow> ('s, panic, unit) exec" where
  "kdf_params_json_shape_round_trips L =
     and_then (unwrap (lift_result (to_json L default_kdf_params))) (\<lambda>json.
     and_then (assert_that (json = DEFAULT_JSON)) (\<lambda>_.
     and_then (unwrap (lift_result (from_json L json))) (\<lambda>params.
     assert_that (params = default_kdf_params))))"

definition kek_is_deterministic :: "crypto_lib \<Rightarrow> (rng, panic, unit) exec" where
  "kek_is_deterministic L =
     and_then sk_generate (\<lambda>sk.
       (let salt = replicate SALT_LEN 9 in
     and_then (unwrap (lift_result (derive_kek L (str_bytes ''pw'') sk salt fast))) (\<lambda>a.
     and_then (unwrap (lift_result (derive_kek L (str_bytes ''pw'') sk salt fast))) (\<lambda>b.
     assert_that (a = b)))))"

definition kek_depends_on_every_input :: "crypto_lib \<Rightarrow> (rng, panic, unit) exec" where
  "kek_depends_on_every_input L =
     and_then sk_generate (\<lambda>sk.
     and_then sk_generate (\<lambda>other_sk.
       (let salt = replicate SALT_LEN 9 in
     and_then (unwrap (lift_result (derive_kek L (str_bytes ''pw'') sk salt fast))) (\<lambda>base.
     and_then (unwrap (lift_result (derive_kek L (str_bytes ''PW'') sk salt fast))) (\<lambda>k1.
     and_then (assert_that (base \<noteq> k1)) (\<lambda>_.
     and_then (unwrap (lift_result (derive_kek L (str_bytes ''pw'') other_sk salt fast))) (\<lambda>k2.
     and_then (assert_that (base \<noteq> k2)) (\<lambda>_.
     and_then (unwrap (lift_result (derive_kek L (str_bytes ''pw'') sk (replicate SALT_LEN 1) fast))) (\<lambda>k3.
     assert_that (base \<noteq> k3))))))))))"

definition seal_open_round_trips_and_detects_tampering :: "crypto_lib \<Rightarrow> (rng, panic, unit) exec" where
  "seal_open_round_trips_and_detects_tampering L =
     (let key = replicate KEY_LEN 3 in
     and_then (unwrap (seal L key (str_bytes ''secret payload''))) (\<lambda>blob.
     and_then (unwrap (lift_result (open_blob L key blob))) (\<lambda>opened.
     and_then (assert_that (opened = str_bytes ''secret payload'')) (\<lambda>_.
     and_then (assert_that (isl (open_blob L (replicate KEY_LEN 4) blob))) (\<lambda>_.
     and_then (assert_that (isl (open_blob L key (flip_last blob)))) (\<lambda>_.
     assert_that (isl (open_blob L key (str_bytes ''short'')))))))))"

definition bootstrap_then_unlock_recovers_keys :: "crypto_lib \<Rightarrow> (rng, panic, unit) exec" where
  "bootstrap_then_unlock_recovers_keys L =
     and_then (unwrap (bootstrap_identity_with_params L ''hunter2'' fast)) (\<lambda>out.
     and_then (unwrap (lift_result (unlock_identity L (bo_bundle out) ''hunter2'' (bo_secret_key out)))) (\<lambda>unlocked.
     and_then (assert_that (mk_as_bytes (ui_master_key unlocked) =
         mk_as_bytes (ui_master_key (bo_identity out)))) (\<lambda>_.
     and_then (assert_that (x25519_public L (ui_x25519_secret unlocked) =
         kb_x25519_public (bo_bundle out))) (\<lambda>_.
     assert_that (ed25519_public L (ui_ed25519_secret unlocked) = kb_ed25519_public (bo_bundle out))))))"

definition rewrap_master_key_changes_the_password_only :: "crypto_lib \<Rightarrow> (rng, panic, unit) exec" where
  "rewrap_master_key_changes_the_password_only L =
     and_then (unwrap (bootstrap_identity_with_params L ''old'' fast)) (\<lambda>out.
     and_then (unwrap (lift_result (unlock_identity L (bo_bundle out) ''old'' (bo_secret_key out)))) (\<lambda>unlocked.
       (let original_master = mk_as_bytes (ui_master_key unlocked) in
     and_then (unwrap (rewrap_master_key L (ui_master_key unlocked) (bo_secret_key out) ''new'' fast)) (\<lambda>rewrapped.
     and_then (assert_that (rw_master_key_wrapped rewrapped \<noteq> kb_master_key_wrapped (bo_bundle out))) (\<lambda>_.
     and_then (assert_that (rw_kdf_salt rewrapped \<noteq> kb_kdf_salt (bo_bundle out))) (\<lambda>_.
       (let new_bundle = (bo_bundle out)\<lparr>kb_master_key_wrapped := rw_master_key_wrapped rewrapped,
              kb_kdf_salt := rw_kdf_salt rewrapped, kb_kdf_params := rw_kdf_params rewrapped\<rparr> in
     and_then (unwrap (lift_result (unlock_identity L new_bundle ''new'' (bo_secret_key out)))) (\<lambda>reunlocked.
     and_then (assert_that (mk_as_bytes (ui_master_key reunlocked) = original_master)) (\<lambda>_.
     and_then (assert_that (ui_x25519_secret reunlocked = ui_x25519_secret unlocked)) (\<lambda>_.
     and_then (assert_that (ui_ed25519_secret reunlocked = ui_ed25519_secret unlocked)) (\<lambda>_.
     assert_that (unlock_identity L new_bundle ''old'' (bo_secret_key out) = Inl Decrypt))))))))))))"

definition unlock_fails_with_wrong_password_or_secret_key :: "crypto_lib \<Rightarrow> (rng, panic, unit) exec" where
  "unlock_fails_with_wrong_password_or_secret_key L =
     and_then (unwrap (bootstrap_identity_with_params L ''right'' fast)) (\<lambda>out.
     and_then (assert_that (unlock_identity L (bo_bundle out) ''wrong'' (bo_secret_key out) = Inl Decrypt)) (\<lambda>_.
     and_then sk_generate (\<lambda>other.
     assert_that (unlock_identity L (bo_bundle out) ''right'' other = Inl Decrypt))))"

definition bundle_has_expected_field_shapes :: "crypto_lib \<Rightarrow> (rng, panic, unit) exec" where
  "bundle_has_expected_field_shapes L =
     and_then (unwrap (bootstrap_identity_with_params L ''pw'' fast)) (\<lambda>out.
     and_then (assert_that (length (kb_x25519_public (bo_bundle out)) = 32)) (\<lambda>_.
     and_then (assert_that (length (kb_ed25519_public (bo_bundle out)) = 32)) (\<lambda>_.
     and_then (assert_that (length (kb_kdf_salt (bo_bundle out)) = SALT_LEN)) (\<lambda>_.
     and_then (assert_that (length (kb_master_key_wrapped (bo_bundle out)) = NONCE_LEN + 32 + 16)) (\<lambda>_.
     assert_that (\<not> isl (from_json L (kb_kdf_params (bo_bundle out)))))))))"

definition each_bootstrap_is_unique :: "crypto_lib \<Rightarrow> (rng, panic, unit) exec" where
  "each_bootstrap_is_unique L =
     and_then (unwrap (bootstrap_identity_with_params L ''pw'' fast)) (\<lambda>a.
     and_then (unwrap (bootstrap_identity_with_params L ''pw'' fast)) (\<lambda>b.
     and_then (assert_that (kb_master_key_wrapped (bo_bundle a) \<noteq> kb_master_key_wrapped (bo_bundle b))) (\<lambda>_.
     and_then (assert_that (sk_as_bytes (bo_secret_key a) \<noteq> sk_as_bytes (bo_secret_key b))) (\<lambda>_.
     assert_that (kb_kdf_salt (bo_bundle a) \<noteq> kb_kdf_salt (bo_bundle b))))))"

definition device_keypair_public_matches_secret :: "crypto_lib \<Rightarrow> (rng, panic, unit) exec" where
  "device_keypair_public_matches_secret L =
     and_then (generate_device_keypair L) (\<lambda>kp.
     assert_that (x25519_public L (dk_secret kp) = dk_public kp))"

definition sealed_box_round_trips_to_the_recipient_only :: "crypto_lib \<Rightarrow> (rng, panic, unit) exec" where
  "sealed_box_round_trips_to_the_recipient_only L =
     and_then (generate_group_keypair L) (\<lambda>kp.
     and_then (unwrap (seal_to L (gk_public kp) (str_bytes ''device location blob''))) (\<lambda>blob.
     and_then (unwrap (lift_result (open_sealed L (gk_secret kp) blob))) (\<lambda>opened.
     and_then (assert_that (opened = str_bytes ''device location blob'')) (\<lambda>_.
     and_then (generate_group_keypair L) (\<lambda>other.
     and_then (assert_that (isl (open_sealed L (gk_secret other) blob))) (\<lambda>_.
     and_then (assert_that (isl (open_sealed L (gk_secret kp) (flip_last blob)))) (\<lambda>_.
     assert_that (isl (open_sealed L (gk_secret kp) (str_bytes ''short''))))))))))"

definition TELEMETRY :: bytes where
  "TELEMETRY = str_bytes (''{'' @ [CHR 0x22] @ ''lat'' @ [CHR 0x22] @ '':1.0,'' @ [CHR 0x22] @ ''lon''
     @ [CHR 0x22] @ '':2.0}'')"

definition group_key_wraps_to_an_admin_then_telemetry_round_trips :: "crypto_lib \<Rightarrow> (rng, panic, unit) exec" where
  "group_key_wraps_to_an_admin_then_telemetry_round_trips L =
     and_then (generate_group_keypair L) (\<lambda>group.
     and_then (generate_device_keypair L) (\<lambda>admin.
     and_then (unwrap (seal_to L (dk_public admin) (gk_secret group))) (\<lambda>wrapped.
     and_then (unwrap (lift_result (open_sealed L (dk_secret admin) wrapped))) (\<lambda>recovered.
     and_then (assert_that (recovered = gk_secret group)) (\<lambda>_.
     and_then (unwrap (lift_result (key_array recovered))) (\<lambda>group_secret.
     and_then (unwrap (seal_to L (gk_public group) TELEMETRY)) (\<lambda>telemetry.
     and_then (unwrap (lift_result (open_sealed L group_secret telemetry))) (\<lambda>opened.
     assert_that (opened = TELEMETRY)))))))))"

definition each_seal_is_unique :: "crypto_lib \<Rightarrow> (rng, panic, unit) exec" where
  "each_seal_is_unique L =
     and_then (generate_group_keypair L) (\<lambda>kp.
     and_then (unwrap (seal_to L (gk_public kp) (str_bytes ''same plaintext''))) (\<lambda>a.
     and_then (unwrap (seal_to L (gk_public kp) (str_bytes ''same plaintext''))) (\<lambda>b.
     assert_that (a \<noteq> b))))"

definition master_seal_round_trips_and_a_different_key_fails :: "crypto_lib \<Rightarrow> (rng, panic, unit) exec" where
  "master_seal_round_trips_and_a_different_key_fails L =
     (let master = mk_from_bytes (replicate KEY_LEN 7);
          payload = str_bytes ''avatar PNG bytes'' in
     and_then (unwrap (seal_with_master L master payload)) (\<lambda>blob.
     and_then (unwrap (lift_result (open_with_master L master blob))) (\<lambda>opened.
     and_then (assert_that (opened = payload)) (\<lambda>_.
       (let other = mk_from_bytes (replicate KEY_LEN 8) in
     assert_that (isl (open_with_master L other blob)))))))"

section \<open>For which libraries they pass\<close>

text \<open>XChaCha20-Poly1305 encrypts every plaintext below its limit, which is over 64 GiB.\<close>

definition aead_total :: "crypto_lib \<Rightarrow> bool" where
  "aead_total L \<longleftrightarrow>
     (\<forall>k n p. length k = KEY_LEN \<longrightarrow> length n = NONCE_LEN \<longrightarrow> length p < 2 ^ 36 \<longrightarrow> aead_encrypt L k n p \<noteq> None)"

definition lib_good :: "crypto_lib \<Rightarrow> bool" where
  "lib_good L \<longleftrightarrow> lib_sound L \<and> lib_total L fast \<and> aead_total L"

lemma lib_goodD: "lib_good L \<Longrightarrow> lib_sound L" "lib_good L \<Longrightarrow> lib_total L fast" "lib_good L \<Longrightarrow> aead_total L"
  "lib_good L \<Longrightarrow> aead_sound L" "lib_good L \<Longrightarrow> sizes_ok L"
  by (simp_all add: lib_good_def lib_sound_def)

lemma sample_lib_good: "lib_good sample_lib"
  by (simp add: lib_good_def sample_lib_sound sample_lib_total aead_total_def) (simp add: sample_lib_def)

lemma seal_run:
  assumes "lib_good L" and "length k = KEY_LEN" and "length p < 2 ^ 36"
  obtains b where "seal L k p r = (Inr b, \<lambda>i. r (i + NONCE_LEN))" and "open_blob L k b = Inr p"
    and "length b = NONCE_LEN + length p + 16"
proof -
  have "length (map r [0..<NONCE_LEN]) = NONCE_LEN" by simp
  then obtain c where "aead_encrypt L k (map r [0..<NONCE_LEN]) p = Some c"
    using assms lib_goodD(3) by (fastforce simp: aead_total_def)
  then have s: "seal L k p r = (Inr (map r [0..<NONCE_LEN] @ c), \<lambda>i. r (i + NONCE_LEN))"
    by (simp add: seal_def and_then_def fill_bytes_def lift_result_def ret_def)
  show ?thesis
    using that [OF s] open_blob_seal [OF lib_goodD(4) [OF assms(1)] assms(2) s]
      seal_size [OF lib_goodD(4) [OF assms(1)] assms(2) s] by blast
qed

lemma seal_to_run:
  assumes "lib_good L" and "length sk = KEY_LEN" and "length p < 2 ^ 36"
  obtains b r' where "seal_to L (x25519_public L sk) p r = (Inr b, r')" and "open_sealed L sk b = Inr p"
    and "r' = (\<lambda>i. r (i + 56))"
proof -
  let ?e = "map r [0..<KEY_LEN]"
  obtain key where key: "sealbox_key L (x25519_dh L ?e (x25519_public L sk)) (x25519_public L ?e)
      (x25519_public L sk) = Inr key"
    using lib_goodD(2) [OF assms(1)] unfolding lib_total_def sealbox_key_def ok_or_Inr_iff by blast
  obtain b where b: "seal L key p (\<lambda>i. r (i + KEY_LEN)) = (Inr b, \<lambda>i. r (i + NONCE_LEN + KEY_LEN))"
    using seal_run [OF assms(1) sealbox_key_size [OF lib_goodD(5) [OF assms(1)] key] assms(3)] .
  have run: "seal_to L (x25519_public L sk) p r =
      (Inr (x25519_public L ?e @ b), \<lambda>i. r (i + NONCE_LEN + KEY_LEN))"
    using key b by (simp add: seal_to_def and_then_def fill_bytes_def lift_result_def ret_def Let_def)
  show ?thesis
    using that [OF run open_sealed_seal_to [OF lib_goodD(1) [OF assms(1)] assms(2) run]]
    by (simp add: NONCE_LEN_def KEY_LEN_def add.assoc)
qed

lemma keypair_runs:
  "(generate_device_keypair L :: (rng, 'e, _) exec) r =
     (Inr \<lparr>dk_public = x25519_public L (map r [0..<KEY_LEN]), dk_secret = map r [0..<KEY_LEN]\<rparr>, \<lambda>i. r (i + KEY_LEN))"
  "(generate_group_keypair L :: (rng, 'e, _) exec) r =
     (Inr \<lparr>gk_public = x25519_public L (map r [0..<KEY_LEN]), gk_secret = map r [0..<KEY_LEN]\<rparr>, \<lambda>i. r (i + KEY_LEN))"
  by (simp_all add: generate_device_keypair_def generate_group_keypair_def and_then_def fill_bytes_def ret_def)

lemma bootstrap_run:
  assumes "lib_good L"
  obtains out where "bootstrap_identity_with_params L pw fast r = (Inr out, \<lambda>i. r (i + 204))"
    and "unlock_identity L (bo_bundle out) pw (bo_secret_key out) = Inr (bo_identity out)"
  using bootstrap_total [OF lib_goodD(2) [OF assms]] unlock_bootstrap [OF lib_goodD(1) [OF assms]] by metis

lemma length_small: "length xs < 100 \<Longrightarrow> length xs < 2 ^ 36"
  by simp

lemma key_tests_pass:
  "kdf_json_sound L \<Longrightarrow> kdf_json_write L default_kdf_params = Some DEFAULT_JSON \<Longrightarrow>
     passes (kdf_params_json_shape_round_trips L) s"
  "passes (device_keypair_public_matches_secret L) r"
  by (simp_all add: kdf_params_json_shape_round_trips_def to_json_def from_json_def kdf_json_sound_def
      device_keypair_public_matches_secret_def passes_step [OF keypair_runs(1)])

lemma kek_tests:
  assumes "lib_good L"
  shows "passes (kek_is_deterministic L) r"
    and "passes (kek_depends_on_every_input L) r \<longleftrightarrow>
      (let sk = SecretKey (map r [0..<20]); salt = replicate SALT_LEN 9 in
       argon2_leg L (str_bytes ''pw'') salt fast \<noteq> argon2_leg L (str_bytes ''PW'') salt fast \<and>
       secret_key_leg L sk salt \<noteq> secret_key_leg L (SecretKey (map (\<lambda>i. r (i + 20)) [0..<20])) salt \<and>
       derive_kek L (str_bytes ''pw'') sk salt fast \<noteq> derive_kek L (str_bytes ''pw'') sk (replicate SALT_LEN 1) fast)"
proof -
  have kek: "\<exists>k. derive_kek L pw sk (replicate SALT_LEN x) fast = Inr k" for pw sk x
    by (rule derive_kek_total [OF lib_goodD(2) [OF assms]]) simp
  show "passes (kek_is_deterministic L) r"
    using kek by (simp add: kek_is_deterministic_def passes_step [OF sk_generate_run] Let_def)
  let ?sk = "SecretKey (map r [0..<20])" and ?sk' = "SecretKey (map (\<lambda>i. r (i + 20)) [0..<20])"
  let ?salt = "replicate SALT_LEN 9"
  obtain k0 k1 k2 k3 where ks: "derive_kek L (str_bytes ''pw'') ?sk ?salt fast = Inr k0"
    "derive_kek L (str_bytes ''PW'') ?sk ?salt fast = Inr k1"
    "derive_kek L (str_bytes ''pw'') ?sk' ?salt fast = Inr k2"
    "derive_kek L (str_bytes ''pw'') ?sk (replicate SALT_LEN 1) fast = Inr k3"
    using kek by metis
  note legs = kek_legs_cancel [OF lib_goodD(5) [OF assms] ks(1)]
  show "passes (kek_depends_on_every_input L) r \<longleftrightarrow>
      (let sk = SecretKey (map r [0..<20]); salt = replicate SALT_LEN 9 in
       argon2_leg L (str_bytes ''pw'') salt fast \<noteq> argon2_leg L (str_bytes ''PW'') salt fast \<and>
       secret_key_leg L sk salt \<noteq> secret_key_leg L (SecretKey (map (\<lambda>i. r (i + 20)) [0..<20])) salt \<and>
       derive_kek L (str_bytes ''pw'') sk salt fast \<noteq> derive_kek L (str_bytes ''pw'') sk (replicate SALT_LEN 1) fast)"
    using legs [OF ks(2)] legs [OF ks(3)]
    by (simp add: kek_depends_on_every_input_def passes_step [OF sk_generate_run] Let_def ks)
qed

lemma seal_tests:
  assumes "lib_good L"
  shows "passes (seal_open_round_trips_and_detects_tampering L) r \<longleftrightarrow>
      (\<forall>blob r'. seal L (replicate KEY_LEN 3) (str_bytes ''secret payload'') r = (Inr blob, r') \<longrightarrow>
         isl (open_blob L (replicate KEY_LEN 4) blob) \<and> isl (open_blob L (replicate KEY_LEN 3) (flip_last blob)))"
    and "passes (master_seal_round_trips_and_a_different_key_fails L) r \<longleftrightarrow>
      (\<forall>blob r'. seal L (replicate KEY_LEN 7) (str_bytes ''avatar PNG bytes'') r = (Inr blob, r') \<longrightarrow>
         isl (open_blob L (replicate KEY_LEN 8) blob))"
proof -
  have short: "isl (open_blob L k (str_bytes ''short''))" for k
    by (simp add: open_blob_def NONCE_LEN_def)
  obtain b1 where b1: "seal L (replicate KEY_LEN 3) (str_bytes ''secret payload'') r = (Inr b1, \<lambda>i. r (i + NONCE_LEN))"
    "open_blob L (replicate KEY_LEN 3) b1 = Inr (str_bytes ''secret payload'')"
    by (rule seal_run [OF assms, of "replicate KEY_LEN 3" "str_bytes ''secret payload''" r]) simp_all
  then show "passes (seal_open_round_trips_and_detects_tampering L) r \<longleftrightarrow>
      (\<forall>blob r'. seal L (replicate KEY_LEN 3) (str_bytes ''secret payload'') r = (Inr blob, r') \<longrightarrow>
         isl (open_blob L (replicate KEY_LEN 4) blob) \<and> isl (open_blob L (replicate KEY_LEN 3) (flip_last blob)))"
    using short by (simp add: seal_open_round_trips_and_detects_tampering_def Let_def test_steps)
  obtain b2 where b2: "seal L (replicate KEY_LEN 7) (str_bytes ''avatar PNG bytes'') r = (Inr b2, \<lambda>i. r (i + NONCE_LEN))"
    "open_blob L (replicate KEY_LEN 7) b2 = Inr (str_bytes ''avatar PNG bytes'')"
    by (rule seal_run [OF assms, of "replicate KEY_LEN 7" "str_bytes ''avatar PNG bytes''" r]) simp_all
  then show "passes (master_seal_round_trips_and_a_different_key_fails L) r \<longleftrightarrow>
      (\<forall>blob r'. seal L (replicate KEY_LEN 7) (str_bytes ''avatar PNG bytes'') r = (Inr blob, r') \<longrightarrow>
         isl (open_blob L (replicate KEY_LEN 8) blob))"
    by (simp add: master_seal_round_trips_and_a_different_key_fails_def seal_with_master_def
        open_with_master_def mk_from_bytes_def Let_def test_steps)
qed

lemma bootstrap_tests:
  assumes "lib_good L"
  shows "passes (bootstrap_then_unlock_recovers_keys L) r"
    and "passes (bundle_has_expected_field_shapes L) r"
proof -
  obtain out where out: "bootstrap_identity_with_params L ''hunter2'' fast r = (Inr out, \<lambda>i. r (i + 204))"
    "unlock_identity L (bo_bundle out) ''hunter2'' (bo_secret_key out) = Inr (bo_identity out)"
    using assms by (rule bootstrap_run)
  have "kb_x25519_public (bo_bundle out) = x25519_public L (ui_x25519_secret (bo_identity out))"
    "kb_ed25519_public (bo_bundle out) = ed25519_public L (ui_ed25519_secret (bo_identity out))"
    by (rule bootstrap_unfold [OF out(1)], assumption)+
  then show "passes (bootstrap_then_unlock_recovers_keys L) r"
    using out by (simp add: bootstrap_then_unlock_recovers_keys_def test_steps)
  obtain out2 where out2: "bootstrap_identity_with_params L ''pw'' fast r = (Inr out2, \<lambda>i. r (i + 204))"
    using assms by (rule bootstrap_run)
  show "passes (bundle_has_expected_field_shapes L) r"
    using out2 bundle_shape [OF lib_goodD(1) [OF assms] out2]
    by (simp add: bundle_has_expected_field_shapes_def test_steps SALT_LEN_def NONCE_LEN_def)
qed

lemma wrong_factor_test:
  assumes "lib_good L" and "bootstrap_identity_with_params L ''right'' fast r = (Inr out, r')"
  shows "passes (unlock_fails_with_wrong_password_or_secret_key L) r \<longleftrightarrow>
      unlock_identity L (bo_bundle out) ''wrong'' (bo_secret_key out) = Inl Decrypt \<and>
      unlock_identity L (bo_bundle out) ''right'' (SecretKey (map r' [0..<20])) = Inl Decrypt"
  by (simp add: unlock_fails_with_wrong_password_or_secret_key_def test_steps assms(2) sk_generate_run)

text \<open>
  The password change keeps the identity; what the test asks beyond it is that the new salt and
  wrap are others than the old ones and that the old password is refused.
\<close>

lemma rewrap_test:
  assumes "lib_good L" and "bootstrap_identity_with_params L ''old'' fast r = (Inr out, r')"
    and "rewrap_master_key L (ui_master_key (bo_identity out)) (bo_secret_key out) ''new'' fast r' = (Inr rw, r'')"
  shows "passes (rewrap_master_key_changes_the_password_only L) r \<longleftrightarrow>
      rw_master_key_wrapped rw \<noteq> kb_master_key_wrapped (bo_bundle out) \<and>
      rw_kdf_salt rw \<noteq> kb_kdf_salt (bo_bundle out) \<and>
      unlock_identity L ((bo_bundle out)\<lparr>kb_master_key_wrapped := rw_master_key_wrapped rw,
        kb_kdf_salt := rw_kdf_salt rw, kb_kdf_params := rw_kdf_params rw\<rparr>) ''old'' (bo_secret_key out) = Inl Decrypt"
proof -
  have old: "unlock_identity L (bo_bundle out) ''old'' (bo_secret_key out) = Inr (bo_identity out)"
    using lib_goodD(1) [OF assms(1)] assms(2) by (rule unlock_bootstrap)
  have new: "unlock_identity L ((bo_bundle out)\<lparr>kb_master_key_wrapped := rw_master_key_wrapped rw,
        kb_kdf_salt := rw_kdf_salt rw, kb_kdf_params := rw_kdf_params rw\<rparr>) ''new'' (bo_secret_key out) = Inr (bo_identity out)"
    using lib_goodD(1) [OF assms(1)] old assms(3) by (rule unlock_rewrapped)
  show ?thesis
    by (simp add: rewrap_master_key_changes_the_password_only_def test_steps assms(2,3) old new Let_def)
qed

lemma unique_bootstrap_test:
  assumes "bootstrap_identity_with_params L ''pw'' fast r = (Inr a, r')"
    and "bootstrap_identity_with_params L ''pw'' fast r' = (Inr b, r'')"
  shows "passes (each_bootstrap_is_unique L) r \<longleftrightarrow>
    kb_master_key_wrapped (bo_bundle a) \<noteq> kb_master_key_wrapped (bo_bundle b) \<and>
    sk_as_bytes (bo_secret_key a) \<noteq> sk_as_bytes (bo_secret_key b) \<and>
    kb_kdf_salt (bo_bundle a) \<noteq> kb_kdf_salt (bo_bundle b)"
  by (simp add: each_bootstrap_is_unique_def test_steps assms)

lemma group_key_test:
  assumes "lib_good L"
  shows "passes (group_key_wraps_to_an_admin_then_telemetry_round_trips L) r"
proof -
  let ?g = "map r [0..<KEY_LEN]" and ?r1 = "\<lambda>i. r (i + KEY_LEN)"
  let ?a = "map ?r1 [0..<KEY_LEN]" and ?r2 = "\<lambda>i. ?r1 (i + KEY_LEN)"
  obtain wrapped r3 where wrapped: "seal_to L (x25519_public L ?a) ?g ?r2 = (Inr wrapped, r3)"
    "open_sealed L ?a wrapped = Inr ?g"
    by (rule seal_to_run [OF assms, of ?a ?g ?r2]) (simp_all add: KEY_LEN_def)
  obtain sealed r4 where sealed: "seal_to L (x25519_public L ?g) TELEMETRY r3 = (Inr sealed, r4)"
    "open_sealed L ?g sealed = Inr TELEMETRY"
    by (rule seal_to_run [OF assms, of ?g TELEMETRY r3]) (simp_all add: KEY_LEN_def TELEMETRY_def)
  have "key_array ?g = Inr ?g" by (simp add: key_array_def)
  with wrapped sealed show ?thesis
    by (simp add: group_key_wraps_to_an_admin_then_telemetry_round_trips_def test_steps keypair_runs)
qed

lemma sealed_box_tests:
  assumes "lib_good L"
    and "seal_to L (x25519_public L (map r [0..<KEY_LEN])) (str_bytes ''device location blob'') (\<lambda>i. r (i + KEY_LEN)) =
      (Inr blob, r1)"
  shows "passes (sealed_box_round_trips_to_the_recipient_only L) r \<longleftrightarrow>
    isl (open_sealed L (map r1 [0..<KEY_LEN]) blob) \<and> isl (open_sealed L (map r [0..<KEY_LEN]) (flip_last blob))"
proof -
  have "open_sealed L (map r [0..<KEY_LEN]) blob = Inr (str_bytes ''device location blob'')"
    by (rule open_sealed_seal_to [OF lib_goodD(1) [OF assms(1)] _ assms(2)]) simp
  moreover have "isl (open_sealed L sk (str_bytes ''short''))" for sk
    by (simp add: open_sealed_def KEY_LEN_def)
  ultimately show ?thesis
    by (simp add: sealed_box_round_trips_to_the_recipient_only_def test_steps keypair_runs assms(2))
qed

lemma unique_seal_test:
  assumes "seal_to L (x25519_public L (map r [0..<KEY_LEN])) (str_bytes ''same plaintext'') (\<lambda>i. r (i + KEY_LEN)) = (Inr a, r1)"
    and "seal_to L (x25519_public L (map r [0..<KEY_LEN])) (str_bytes ''same plaintext'') r1 = (Inr b, r2)"
  shows "passes (each_seal_is_unique L) r \<longleftrightarrow> a \<noteq> b"
  by (simp add: each_seal_is_unique_def test_steps keypair_runs assms)

section \<open>Properties\<close>

text \<open>
  Property C27: the round-trip tests of the cryptography pass for every sound library that does not
  fail and every random source: deriving twice gives the same key, a bootstrap unlocks to the keys
  it made, a bundle has its shape, a device key matches its secret, and telemetry sealed to the
  group is read by an admin the group secret was wrapped to.
\<close>

theorem crypto_tests_pass:
  assumes "lib_good L"
  shows "passes (kek_is_deterministic L) r \<and> passes (bootstrap_then_unlock_recovers_keys L) r \<and>
    passes (bundle_has_expected_field_shapes L) r \<and> passes (device_keypair_public_matches_secret L) r \<and>
    passes (group_key_wraps_to_an_admin_then_telemetry_round_trips L) r"
  by (intro conjI kek_tests(1) bootstrap_tests key_tests_pass(2) group_key_test assms)

theorem crypto_tests_pass_witness:
  "passes (bootstrap_then_unlock_recovers_keys sample_lib) (\<lambda>i. of_nat i)"
  using crypto_tests_pass [OF sample_lib_good] by blast

end
