(* ===== verification/Test_Discovery.thy ===== *)
theory Test_Discovery
  imports Test_Prelude Discovery
begin

text \<open>
  The tests of \<open>src/transport/discovery.rs\<close>. Signing keys and the JSON writer belong to the
  libraries: a seed's verifying key and its signature of a message, and \<open>serde_json::to_vec\<close>.
\<close>

record signer =
  verifying_key :: "bytes \<Rightarrow> bytes"
  sign_message :: "bytes \<Rightarrow> bytes \<Rightarrow> bytes"
  response_json_write :: "discovery_response \<Rightarrow> bytes option"

text \<open>The tests' own copy of the hex encoder.\<close>

fun hex_encode :: "bytes \<Rightarrow> string" where
  "hex_encode [] = []"
| "hex_encode (b # bs) = HEX ! unat (drop_bit 4 b) # HEX ! unat (b AND 0x0f) # hex_encode bs"

definition signed_by :: "signer \<Rightarrow> bytes \<Rightarrow> string \<Rightarrow> string \<Rightarrow> u16 \<Rightarrow> discovery_response" where
  "signed_by G key nonce name grpc_port =
     signed_response (sign_message G key) (verifying_key G key) nonce name grpc_port"

definition KEY_7 :: bytes where "KEY_7 = replicate 32 7"

fun is_malformed :: "discovery_error + 'a \<Rightarrow> bool" where
  "is_malformed (Inl (Malformed_Field what)) = True"
| "is_malformed _ = False"

definition verifies_a_well_formed_response :: "discovery_lib \<Rightarrow> signer \<Rightarrow> ('s, panic, unit) exec" where
  "verifies_a_well_formed_response D G =
     (let resp = signed_by G KEY_7 ''abc123'' ''My Sylva Server'' 50051 in
     and_then (unwrap (lift_result (verify_discovery D resp ''abc123''))) (\<lambda>verified.
     and_then (assert_that (identity_public verified = verifying_key G KEY_7)) (\<lambda>_.
     and_then (assert_that (vs_name verified = ''My Sylva Server'')) (\<lambda>_.
     assert_that (vs_grpc_port verified = 50051)))))"

definition rejects_a_replayed_or_mismatched_nonce :: "discovery_lib \<Rightarrow> signer \<Rightarrow> ('s, panic, unit) exec" where
  "rejects_a_replayed_or_mismatched_nonce D G =
     (let resp = signed_by G KEY_7 ''server-said'' ''H'' 50051 in
     assert_that (verify_discovery D resp ''we-asked-for-other'' = Inl NonceMismatch))"

definition rejects_unsupported_payload_version :: "discovery_lib \<Rightarrow> signer \<Rightarrow> ('s, panic, unit) exec" where
  "rejects_unsupported_payload_version D G =
     (let resp = (signed_by G KEY_7 ''n'' ''H'' 50051)\<lparr>dr_payload_version := 2\<rparr> in
     assert_that (verify_discovery D resp ''n'' = Inl (UnsupportedVersion 2)))"

definition rejects_tampered_fields :: "discovery_lib \<Rightarrow> signer \<Rightarrow> ('s, panic, unit) exec" where
  "rejects_tampered_fields D G =
     (let resp = (signed_by G KEY_7 ''n'' ''Real'' 50051)\<lparr>dr_name := ''Evil''\<rparr> in
     and_then (assert_that (verify_discovery D resp ''n'' = Inl BadSignature)) (\<lambda>_.
       (let resp = (signed_by G KEY_7 ''n'' ''Real'' 50051)\<lparr>dr_grpc_port := 1\<rparr> in
     assert_that (verify_discovery D resp ''n'' = Inl BadSignature))))"

definition rejects_a_substituted_identity_key :: "discovery_lib \<Rightarrow> signer \<Rightarrow> ('s, panic, unit) exec" where
  "rejects_a_substituted_identity_key D G =
     (let resp = signed_by G (replicate 32 9) ''n'' ''H'' 50051 in
     and_then (unwrap (lift_result (verify_discovery D resp ''n''))) (\<lambda>verified.
       (let real = verifying_key G KEY_7 in
     assert_that (check_pin verified (Some real) = Mismatch))))"

definition rejects_malformed_hex :: "discovery_lib \<Rightarrow> signer \<Rightarrow> ('s, panic, unit) exec" where
  "rejects_malformed_hex D G =
     (let resp = (signed_by G KEY_7 ''n'' ''H'' 50051)\<lparr>dr_server_identity_public := ''not-hex''\<rparr> in
     and_then (assert_that (is_malformed (verify_discovery D resp ''n''))) (\<lambda>_.
       (let resp = (signed_by G KEY_7 ''n'' ''H'' 50051)\<lparr>dr_signature := ''abcd''\<rparr> in
     assert_that (is_malformed (verify_discovery D resp ''n'')))))"

definition empty_nonce_round_trips :: "discovery_lib \<Rightarrow> signer \<Rightarrow> ('s, panic, unit) exec" where
  "empty_nonce_round_trips D G =
     (let resp = signed_by G KEY_7 [] ''H'' 50051 in
     assert_that (\<not> isl (verify_discovery D resp [])))"

definition tofu_decisions :: "discovery_lib \<Rightarrow> signer \<Rightarrow> ('s, panic, unit) exec" where
  "tofu_decisions D G =
     (let resp = signed_by G KEY_7 ''n'' ''H'' 50051 in
     and_then (unwrap (lift_result (verify_discovery D resp ''n''))) (\<lambda>verified.
       (let pin = verifying_key G KEY_7 in
     and_then (assert_that (check_pin verified None = FirstContact)) (\<lambda>_.
     and_then (assert_that (check_pin verified (Some pin) = Matches)) (\<lambda>_.
     assert_that (check_pin verified (Some (replicate 32 0)) = Mismatch))))))"

definition parse_and_verify_round_trips_through_json ::
  "discovery_lib \<Rightarrow> signer \<Rightarrow> ('s, panic, unit) exec" where
  "parse_and_verify_round_trips_through_json D G =
     (let resp = signed_by G KEY_7 ''nonce-1'' ''My Sylva Server'' 50051 in
     and_then (unwrap_option (response_json_write G resp)) (\<lambda>json.
     and_then (unwrap (lift_result (parse_and_verify D json ''nonce-1''))) (\<lambda>verified.
     and_then (assert_that (identity_public verified = verifying_key G KEY_7)) (\<lambda>_.
     assert_that (vs_grpc_port verified = 50051)))))"

text \<open>The body the server writes, with its field names.\<close>

definition json_field :: "string \<Rightarrow> string \<Rightarrow> string" where
  "json_field name value = [CHR 0x22] @ name @ [CHR 0x22] @ '':'' @ value"

definition json_text :: "string \<Rightarrow> string" where
  "json_text s = [CHR 0x22] @ s @ [CHR 0x22]"

definition server_json :: "discovery_response \<Rightarrow> string" where
  "server_json resp =
     ''{'' @ json_field ''name'' (json_text (dr_name resp))
     @ '','' @ json_field ''server_version'' (json_text (dr_server_version resp))
     @ '','' @ json_field ''grpc_port'' (show_u16 (dr_grpc_port resp))
     @ '','' @ json_field ''server_identity_public'' (json_text (dr_server_identity_public resp))
     @ '','' @ json_field ''nonce'' (json_text (dr_nonce resp))
     @ '','' @ json_field ''signature'' (json_text (dr_signature resp))
     @ '','' @ json_field ''payload_version'' (show_nat (unat (dr_payload_version resp))) @ ''}''"

definition parse_and_verify_accepts_the_server_json_shape ::
  "discovery_lib \<Rightarrow> signer \<Rightarrow> ('s, panic, unit) exec" where
  "parse_and_verify_accepts_the_server_json_shape D G =
     (let resp = signed_by G (replicate 32 3) ''nonce-xyz'' ''H'' 50051 in
     assert_that (\<not> isl (parse_and_verify D (str_bytes (server_json resp)) ''nonce-xyz'')))"

definition parse_and_verify_rejects_malformed_json_and_bad_nonce ::
  "discovery_lib \<Rightarrow> signer \<Rightarrow> ('s, panic, unit) exec" where
  "parse_and_verify_rejects_malformed_json_and_bad_nonce D G =
     and_then (assert_that (is_malformed (parse_and_verify D (str_bytes ''not json'') ''n''))) (\<lambda>_.
     and_then (unwrap_option (response_json_write G (signed_by G KEY_7 ''good'' ''H'' 50051))) (\<lambda>json.
     assert_that (parse_and_verify D json ''wrong'' = Inl NonceMismatch)))"

definition discovery_url_builds_correctly :: "('s, panic, unit) exec" where
  "discovery_url_builds_correctly =
     and_then (assert_that (discovery_url ''http://host:8443'' ''abc'' =
         ''http://host:8443/.well-known/sylva-discovery?nonce=abc'')) (\<lambda>_.
     assert_that (discovery_url ''http://host:8443/'' ''abc'' =
         ''http://host:8443/.well-known/sylva-discovery?nonce=abc''))"

text \<open>\<open>char::is_ascii_hexdigit\<close>.\<close>

definition is_ascii_hexdigit :: "char \<Rightarrow> bool" where
  "is_ascii_hexdigit c \<longleftrightarrow> to_digit 16 c \<noteq> None"

definition random_nonce_is_unique_hex :: "(rng, panic, unit) exec" where
  "random_nonce_is_unique_hex =
     and_then random_nonce (\<lambda>a.
     and_then random_nonce (\<lambda>b.
     and_then (assert_that (length a = 32)) (\<lambda>_.
     and_then (assert_that (list_all is_ascii_hexdigit a)) (\<lambda>_.
     assert_that (a \<noteq> b)))))"

section \<open>When they pass\<close>

lemma hex_encode_eq: "hex_encode bs = encode_hex bs"
  by (induction bs) simp_all

text \<open>
  What the tests rely on: keys have 32 bytes and signatures 64, a signature verifies under its key,
  written responses are read back, and text that is no JSON is refused.
\<close>

definition signer_sound :: "discovery_lib \<Rightarrow> signer \<Rightarrow> bool" where
  "signer_sound D G \<longleftrightarrow>
     (\<forall>seed. length seed = 32 \<longrightarrow> length (verifying_key G seed) = 32 \<and> ed25519_key_ok D (verifying_key G seed) \<and>
        (\<forall>m. length (sign_message G seed m) = 64 \<and>
           ed25519_verify_strict D (verifying_key G seed) m (sign_message G seed m))) \<and>
     (\<forall>resp. \<exists>json. response_json_write G resp = Some json \<and> response_json_read D json = Some resp) \<and>
     response_json_read D (str_bytes ''not json'') = None"

lemma signed_verifies:
  assumes "signer_sound D G" and "length seed = 32"
  shows "verify_discovery D (signed_by G seed nonce name port) nonce =
    Inr \<lparr>identity_public = verifying_key G seed, vs_name = name, vs_server_version = ''0.0.1'', vs_grpc_port = port\<rparr>"
  using assms hex_text.dec_enc [of "verifying_key G seed" 32] hex_text.dec_enc [of "sign_message G seed m" 64 for m]
  by (simp add: signer_sound_def verify_discovery_def signed_by_def signed_response_def)

lemma written_read:
  assumes "signer_sound D G"
  obtains json where "response_json_write G resp = Some json" and "response_json_read D json = Some resp"
  using assms unfolding signer_sound_def by blast

lemma signed_parts [simp]:
  "dr_nonce (signed_by G seed nonce name port) = nonce"
  "dr_payload_version (signed_by G seed nonce name port) = PAYLOAD_VERSION"
  "dr_name (signed_by G seed nonce name port) = name"
  "dr_grpc_port (signed_by G seed nonce name port) = port"
  "dr_server_identity_public (signed_by G seed nonce name port) = encode_hex (verifying_key G seed)"
  "dr_signature (signed_by G seed nonce name port) =
     encode_hex (sign_message G seed (canonical_bytes nonce (verifying_key G seed) port name))"
  by (simp_all add: signed_by_def signed_response_def)

text \<open>The nonce and the version are checked first, whatever was signed.\<close>

lemma refused_before_signature:
  "passes (rejects_a_replayed_or_mismatched_nonce D G) s"
  "passes (rejects_unsupported_payload_version D G) s"
  by (simp_all add: rejects_a_replayed_or_mismatched_nonce_def rejects_unsupported_payload_version_def
      verify_discovery_def PAYLOAD_VERSION_def Let_def)

text \<open>A changed name or port is noticed exactly when the signature does not cover it.\<close>

lemma tampering_test:
  assumes "signer_sound D G"
  shows "passes (rejects_tampered_fields D G) s \<longleftrightarrow>
    (let public = verifying_key G KEY_7; sig = sign_message G KEY_7 (canonical_bytes ''n'' public 50051 ''Real'') in
     \<not> ed25519_verify_strict D public (canonical_bytes ''n'' public 50051 ''Evil'') sig \<and>
     \<not> ed25519_verify_strict D public (canonical_bytes ''n'' public 1 ''Real'') sig)"
proof -
  have "length KEY_7 = 32" by (simp add: KEY_7_def)
  then show ?thesis
    using assms hex_text.dec_enc [of "verifying_key G KEY_7" 32] hex_text.dec_enc [of "sign_message G KEY_7 m" 64 for m]
    by (simp add: rejects_tampered_fields_def signer_sound_def verify_discovery_def Let_def)
qed

lemma pin_tests:
  assumes "signer_sound D G"
  shows "passes (rejects_a_substituted_identity_key D G) s \<longleftrightarrow>
      verifying_key G KEY_7 \<noteq> verifying_key G (replicate 32 9)"
    and "passes (tofu_decisions D G) s \<longleftrightarrow> verifying_key G KEY_7 \<noteq> replicate 32 0"
  using signed_verifies [OF assms, of KEY_7] signed_verifies [OF assms, of "replicate 32 9"]
  by (auto simp: rejects_a_substituted_identity_key_def tofu_decisions_def check_pin_def Let_def KEY_7_def)

lemma json_shape_test:
  assumes "signer_sound D G"
    and "response_json_read D (str_bytes (server_json (signed_by G (replicate 32 3) ''nonce-xyz'' ''H'' 50051))) =
      Some (signed_by G (replicate 32 3) ''nonce-xyz'' ''H'' 50051)"
  shows "passes (parse_and_verify_accepts_the_server_json_shape D G) s"
  using signed_verifies [OF assms(1), of "replicate 32 3"] assms(2)
  by (simp add: parse_and_verify_accepts_the_server_json_shape_def parse_and_verify_def Let_def)

lemma url_test: "passes discovery_url_builds_correctly s"
  by (simp add: discovery_url_builds_correctly_def discovery_url_def trim_end_matches_def)

lemma encode_hex_hexdigits: "list_all is_ascii_hexdigit (encode_hex bs)"
proof (induction bs)
  case (Cons b bs)
  have "unat (drop_bit 4 b) < 16 \<and> unat (b AND 0x0f) < 16" using nibbles [of b] by simp
  with Cons show ?case by (simp add: is_ascii_hexdigit_def HEX_digit)
qed simp

lemma encode_hex_inject: "length a = length b \<Longrightarrow> encode_hex a = encode_hex b \<longleftrightarrow> a = b"
  by (metis hex_text.enc_inject)

lemma nonce_test:
  "passes random_nonce_is_unique_hex r \<longleftrightarrow> map r [0..<16] \<noteq> map (\<lambda>i. r (i + 16)) [0..<16]"
proof -
  have run: "(random_nonce :: (rng, panic, _) exec) r' = (Inr (encode_hex (map r' [0..<16])), \<lambda>i. r' (i + 16))" for r'
    by (simp add: random_nonce_def and_then_def fill_bytes_def ret_def del: upt_rec_numeral)
  have "encode_hex (map r [0..<16]) = encode_hex (map (\<lambda>i. r (i + 16)) [0..<16]) \<longleftrightarrow>
      map r [0..<16] = map (\<lambda>i. r (i + 16)) [0..<16]"
    by (rule encode_hex_inject) simp
  then show ?thesis
    by (simp add: random_nonce_is_unique_hex_def passes_step [OF run] encode_hex_hexdigits del: upt_rec_numeral)
qed

section \<open>A signature scheme for the witness\<close>

text \<open>
  The signature is the first 64 bytes of the message, and a response is written field by field.
\<close>

definition sample_json :: "discovery_response \<Rightarrow> bytes" where
  "sample_json resp = write_text (dr_name resp) @ write_text (dr_server_version resp) @
     write_text (dr_server_identity_public resp) @ write_text (dr_nonce resp) @ write_text (dr_signature resp) @
     u16_be (dr_grpc_port resp) @ u32_be (dr_payload_version resp)"

definition sample_json_read :: "bytes \<Rightarrow> discovery_response option" where
  "sample_json_read bs =
     (case read_text bs of None \<Rightarrow> None | Some (name, bs) \<Rightarrow>
     (case read_text bs of None \<Rightarrow> None | Some (version, bs) \<Rightarrow>
     (case read_text bs of None \<Rightarrow> None | Some (public, bs) \<Rightarrow>
     (case read_text bs of None \<Rightarrow> None | Some (nonce, bs) \<Rightarrow>
     (case read_text bs of None \<Rightarrow> None | Some (signature, bs) \<Rightarrow>
     (case u16_of_be (take 2 bs) of None \<Rightarrow> None | Some port \<Rightarrow>
     (case u32_of_be (drop 2 bs) of None \<Rightarrow> None | Some payload \<Rightarrow>
        Some \<lparr>dr_name = name, dr_server_version = version, dr_grpc_port = port,
              dr_server_identity_public = public, dr_nonce = nonce, dr_signature = signature,
              dr_payload_version = payload\<rparr>)))))))"

lemma sample_json_read_back: "sample_json_read (sample_json resp) = Some resp"
  by (cases resp) (simp add: sample_json_read_def sample_json_def read_write_text u16_of_be_u16_be u32_of_be_u32_be)

definition sample_signer :: signer where
  "sample_signer = \<lparr>verifying_key = (\<lambda>seed. seed), sign_message = (\<lambda>seed m. take 64 (m @ replicate 64 0)),
     response_json_write = (\<lambda>resp. Some (sample_json resp))\<rparr>"

definition sample_verifier :: discovery_lib where
  "sample_verifier = \<lparr>ed25519_key_ok = (\<lambda>k. True),
     ed25519_verify_strict = (\<lambda>k m s. s = take 64 (m @ replicate 64 0)), response_json_read = sample_json_read\<rparr>"

lemma sample_signer_sound: "signer_sound sample_verifier sample_signer"
proof -
  have "sample_json_read (str_bytes ''not json'') = None" by code_simp
  then show ?thesis
    by (simp add: signer_sound_def sample_signer_def sample_verifier_def sample_json_read_back min_def)
qed

section \<open>Properties\<close>

text \<open>
  The discovery tests pass for every sound signature scheme and JSON library: a signed
  answer verifies and gives back the key and the port, also through JSON and with an empty nonce;
  another nonce, another version, malformed hex and malformed JSON are each refused with their error.
\<close>

lemma discovery_tests_pass:
  assumes "signer_sound D G"
  shows "passes (verifies_a_well_formed_response D G) s \<and> passes (rejects_malformed_hex D G) s \<and>
    passes (empty_nonce_round_trips D G) s \<and> passes (parse_and_verify_round_trips_through_json D G) s \<and>
    passes (parse_and_verify_rejects_malformed_json_and_bad_nonce D G) s \<and>
    passes (rejects_a_replayed_or_mismatched_nonce D G) s \<and> passes (rejects_unsupported_payload_version D G) s"
proof (intro conjI refused_before_signature)
  have key: "length KEY_7 = 32" by (simp add: KEY_7_def)
  note good = signed_verifies [OF assms key]
  show "passes (verifies_a_well_formed_response D G) s" "passes (empty_nonce_round_trips D G) s"
    by (simp_all add: verifies_a_well_formed_response_def empty_nonce_round_trips_def good Let_def)
  show "passes (rejects_malformed_hex D G) s"
    using assms key hex_text.dec_enc [of "verifying_key G KEY_7" 32]
    by (simp add: rejects_malformed_hex_def signer_sound_def verify_discovery_def decode_hex_array_def Let_def)
  obtain json where "response_json_write G (signed_by G KEY_7 ''nonce-1'' ''My Sylva Server'' 50051) = Some json"
    "response_json_read D json = Some (signed_by G KEY_7 ''nonce-1'' ''My Sylva Server'' 50051)"
    using assms by (rule written_read)
  then show "passes (parse_and_verify_round_trips_through_json D G) s"
    by (simp add: parse_and_verify_round_trips_through_json_def parse_and_verify_def good Let_def)
  obtain json where "response_json_write G (signed_by G KEY_7 ''good'' ''H'' 50051) = Some json"
    "response_json_read D json = Some (signed_by G KEY_7 ''good'' ''H'' 50051)"
    using assms by (rule written_read)
  then show "passes (parse_and_verify_rejects_malformed_json_and_bad_nonce D G) s"
    using assms
    by (simp add: parse_and_verify_rejects_malformed_json_and_bad_nonce_def parse_and_verify_def signer_sound_def
        verify_discovery_def)
qed

end
