(* ===== verification/Test_Storage.thy ===== *)
theory Test_Storage
  imports Test_Crypto Storage
begin

text \<open>
  The tests of \<open>src/storage.rs\<close>. Their state is the random source, the in-memory store under the
  vault and, for the manual test, the operating system's keychain.
\<close>

record 'k test_world =
  tw_rng :: rng
  tw_memory :: memory
  tw_keys :: 'k

definition in_rng :: "(rng, 'e, 'a) exec \<Rightarrow> ('k test_world, 'e, 'a) exec" where
  "in_rng m = on_part tw_rng tw_rng_update m"

definition in_memory :: "(memory, 'e, 'a) exec \<Rightarrow> ('k test_world, 'e, 'a) exec" where
  "in_memory m = on_part tw_memory tw_memory_update m"

definition in_keys :: "('k, 'e, 'a) exec \<Rightarrow> ('k test_world, 'e, 'a) exec" where
  "in_keys m = on_part tw_keys tw_keys_update m"

text \<open>\<open>MemoryStore::new\<close>.\<close>

definition new_memory :: "('k test_world, panic, unit) exec" where
  "new_memory = modify_state (tw_memory_update (\<lambda>_. memory_new))"

definition TEST_PROFILE :: server_profile where
  "TEST_PROFILE = \<lparr>sp_endpoints = [''192.168.1.5:8443'', ''vpn.example:8443''],
     sp_identity_public = replicate 32 9, sp_user_id = ''u-1''\<rparr>"

definition vault_round_trips_all_items :: "crypto_lib \<Rightarrow> vault_lib \<Rightarrow> ('k test_world, panic, unit) exec" where
  "vault_round_trips_all_items L J =
     (let S = memory_store in
     and_then new_memory (\<lambda>_.
     and_then (unwrap (in_memory (vault_master_key S))) (\<lambda>x.
     and_then (assert_that (x = None)) (\<lambda>_.
     and_then (unwrap (in_memory (vault_session_token S))) (\<lambda>x.
     and_then (assert_that (x = None)) (\<lambda>_.
     and_then (unwrap (in_memory (vault_server_profile J S))) (\<lambda>x.
     and_then (assert_that (x = None)) (\<lambda>_.
     and_then (unwrap (in_rng (bootstrap_identity_with_params L ''pw'' fast))) (\<lambda>boot.
     and_then (in_rng (generate_device_keypair L)) (\<lambda>device.
     and_then (unwrap (in_memory (vault_set_master_key S (ui_master_key (bo_identity boot))))) (\<lambda>_.
     and_then (unwrap (in_memory (vault_set_secret_key S (bo_secret_key boot)))) (\<lambda>_.
     and_then (unwrap (in_memory (vault_set_device_secret S (dk_secret device)))) (\<lambda>_.
     and_then (unwrap (in_memory (vault_set_session_token S ''tok-xyz''))) (\<lambda>_.
     and_then (unwrap (in_memory (vault_set_server_profile J S TEST_PROFILE))) (\<lambda>_.
     and_then (unwrap (in_memory (vault_master_key S))) (\<lambda>x.
     and_then (unwrap_option x) (\<lambda>mk.
     and_then (assert_that (mk_as_bytes mk = mk_as_bytes (ui_master_key (bo_identity boot)))) (\<lambda>_.
     and_then (unwrap (in_memory (vault_secret_key S))) (\<lambda>x.
     and_then (unwrap_option x) (\<lambda>sk.
     and_then (assert_that (sk_as_bytes sk = sk_as_bytes (bo_secret_key boot))) (\<lambda>_.
     and_then (unwrap (in_memory (vault_device_secret S))) (\<lambda>x.
     and_then (unwrap_option x) (\<lambda>dev.
     and_then (assert_that (dev = dk_secret device)) (\<lambda>_.
     and_then (unwrap (in_memory (vault_session_token S))) (\<lambda>x.
     and_then (unwrap_option x) (\<lambda>tok.
     and_then (assert_that (tok = ''tok-xyz'')) (\<lambda>_.
     and_then (unwrap (in_memory (vault_server_profile J S))) (\<lambda>x.
     and_then (unwrap_option x) (\<lambda>prof.
     assert_that (prof = TEST_PROFILE))))))))))))))))))))))))))))))"

definition clear_wipes_everything :: "('k test_world, panic, unit) exec" where
  "clear_wipes_everything =
     (let S = memory_store in
     and_then new_memory (\<lambda>_.
     and_then (unwrap (in_memory (vault_set_session_token S ''t''))) (\<lambda>_.
     and_then (unwrap (in_memory (vault_set_device_secret S (replicate 32 1)))) (\<lambda>_.
     and_then (unwrap (in_memory (vault_clear S))) (\<lambda>_.
     and_then (unwrap (in_memory (vault_session_token S))) (\<lambda>x.
     and_then (assert_that (x = None)) (\<lambda>_.
     and_then (unwrap (in_memory (vault_device_secret S))) (\<lambda>x.
     assert_that (x = None)))))))))"

definition clear_session_keeps_the_device_enrolled ::
  "crypto_lib \<Rightarrow> vault_lib \<Rightarrow> ('k test_world, panic, unit) exec" where
  "clear_session_keeps_the_device_enrolled L J =
     (let S = memory_store in
     and_then new_memory (\<lambda>_.
     and_then (unwrap (in_rng (bootstrap_identity_with_params L ''pw'' fast))) (\<lambda>boot.
     and_then (unwrap (in_memory (vault_set_master_key S (ui_master_key (bo_identity boot))))) (\<lambda>_.
     and_then (unwrap (in_memory (vault_set_secret_key S (bo_secret_key boot)))) (\<lambda>_.
     and_then (unwrap (in_memory (vault_set_session_token S ''t''))) (\<lambda>_.
     and_then (unwrap (in_memory (vault_set_device_secret S (replicate 32 1)))) (\<lambda>_.
     and_then (unwrap (in_memory (vault_set_server_profile J S
         \<lparr>sp_endpoints = [''h:1''], sp_identity_public = replicate 32 9, sp_user_id = ''u''\<rparr>))) (\<lambda>_.
     and_then (unwrap (in_memory (vault_clear_session S))) (\<lambda>_.
     and_then (unwrap (in_memory (vault_session_token S))) (\<lambda>x.
     and_then (assert_that (x = None)) (\<lambda>_.
     and_then (unwrap (in_memory (vault_master_key S))) (\<lambda>x.
     and_then (assert_that (x = None)) (\<lambda>_.
     and_then (unwrap (in_memory (vault_secret_key S))) (\<lambda>x.
     and_then (assert_that (x \<noteq> None)) (\<lambda>_.
     and_then (unwrap (in_memory (vault_device_secret S))) (\<lambda>x.
     and_then (assert_that (x \<noteq> None)) (\<lambda>_.
     and_then (unwrap (in_memory (vault_server_profile J S))) (\<lambda>x.
     assert_that (x \<noteq> None)))))))))))))))))))"

definition malformed_value_is_an_error :: "('k test_world, panic, unit) exec" where
  "malformed_value_is_an_error =
     and_then new_memory (\<lambda>_.
     and_then (unwrap (in_memory (store_set memory_store ''master_key'' (str_bytes ''too short'')))) (\<lambda>_.
     and_then (attempt (in_memory (vault_master_key memory_store))) (\<lambda>r.
     assert_that (r = Inl Malformed_Value))))"

definition os_keychain_round_trips :: "('k, 'h) keyring \<Rightarrow> ('k test_world, panic, unit) exec" where
  "os_keychain_round_trips K =
     (let S = keychain_store K (os_keychain_new ''sylva-sdk-test-delete-me'') in
     and_then (unwrap (in_keys (store_set S ''smoke'' (str_bytes ''value'')))) (\<lambda>_.
     and_then (unwrap (in_keys (store_get S ''smoke''))) (\<lambda>x.
     and_then (assert_that (x = Some (str_bytes ''value''))) (\<lambda>_.
     and_then (unwrap (in_keys (store_delete S ''smoke''))) (\<lambda>_.
     and_then (unwrap (in_keys (store_get S ''smoke''))) (\<lambda>x.
     assert_that (x = None)))))))"

section \<open>They pass\<close>

lemma in_part_Inr_iff [simp]:
  "in_rng m w = (Inr x, w') \<longleftrightarrow> (\<exists>r. m (tw_rng w) = (Inr x, r) \<and> w' = w\<lparr>tw_rng := r\<rparr>)"
  "in_memory n w = (Inr y, w') \<longleftrightarrow> (\<exists>t. n (tw_memory w) = (Inr y, t) \<and> w' = w\<lparr>tw_memory := t\<rparr>)"
  "in_keys q w = (Inr z, w') \<longleftrightarrow> (\<exists>k. q (tw_keys w) = (Inr z, k) \<and> w' = w\<lparr>tw_keys := k\<rparr>)"
  by (auto simp: in_rng_def in_memory_def in_keys_def on_part_iff)

lemma new_memory_Inr_iff [simp]: "new_memory w = (Inr u, w') \<longleftrightarrow> w' = w\<lparr>tw_memory := Map.empty\<rparr>"
  by (auto simp: new_memory_def modify_state_eq memory_new_def)

text \<open>The vault's operations on the in-memory store.\<close>

lemma memory_ops:
  "vault_set_master_key memory_store mk m = (Inr (), m(MASTER_KEY \<mapsto> mk_as_bytes mk))"
  "vault_set_secret_key memory_store sk m = (Inr (), m(SECRET_KEY \<mapsto> sk_as_bytes sk))"
  "vault_set_device_secret memory_store dev m = (Inr (), m(DEVICE_SECRET \<mapsto> dev))"
  "vault_set_session_token memory_store tok m = (Inr (), m(SESSION_TOKEN \<mapsto> str_bytes tok))"
  "profile_json_write J p = Some b \<Longrightarrow>
     vault_set_server_profile J memory_store p m = (Inr (), m(SERVER_PROFILE \<mapsto> b))"
  "vault_clear_session memory_store m = (Inr (), m(SESSION_TOKEN := None, MASTER_KEY := None))"
  "vault_clear memory_store m = (Inr (), m(MASTER_KEY := None, SECRET_KEY := None, DEVICE_SECRET := None,
     SESSION_TOKEN := None, SERVER_PROFILE := None))"
  by (simp_all add: vault_set_master_key_def vault_set_secret_key_def vault_set_device_secret_def
      vault_set_session_token_def vault_set_server_profile_def vault_clear_session_def vault_clear_def
      memory_store_def and_then_def exec_simps)

lemma memory_fetch:
  "and_then (store_get memory_store k) (decode_stored dec) m =
     (case m k of None \<Rightarrow> Inr None | Some b \<Rightarrow> (case dec b of None \<Rightarrow> Inl Malformed_Value | Some x \<Rightarrow> Inr (Some x)), m)"
  by (auto simp: memory_store_def and_then_def decode_stored_def exec_simps ok_or_def split: option.split)

lemmas memory_getters = vault_master_key_def vault_secret_key_def vault_device_secret_def
  vault_session_token_def vault_server_profile_def memory_fetch

lemma entry_distinct:
  "MASTER_KEY \<noteq> SECRET_KEY" "MASTER_KEY \<noteq> DEVICE_SECRET" "MASTER_KEY \<noteq> SESSION_TOKEN" "MASTER_KEY \<noteq> SERVER_PROFILE"
  "SECRET_KEY \<noteq> DEVICE_SECRET" "SECRET_KEY \<noteq> SESSION_TOKEN" "SECRET_KEY \<noteq> SERVER_PROFILE"
  "DEVICE_SECRET \<noteq> SESSION_TOKEN" "DEVICE_SECRET \<noteq> SERVER_PROFILE" "SESSION_TOKEN \<noteq> SERVER_PROFILE"
  by (simp_all add: entry_names)

lemmas entry_distinct_sym = entry_distinct entry_distinct [symmetric]

lemmas vault_steps = test_steps memory_ops memory_getters entry_distinct_sym

text \<open>The profiles the tests write can be written, and are read back.\<close>

lemma profile_written:
  assumes "profile_json_sound J" and "\<And>p. profile_json_write J p \<noteq> None"
  obtains b where "profile_json_write J p = Some b" and "profile_json_read J b = Some p"
  using assms unfolding profile_json_sound_def by blast

lemma vault_round_trip_test:
  assumes "lib_good L" and "profile_json_sound J" and "\<And>p. profile_json_write J p \<noteq> None"
  shows "passes (vault_round_trips_all_items L J) w"
proof -
  obtain boot where boot: "bootstrap_identity_with_params L ''pw'' fast (tw_rng w) = (Inr boot, \<lambda>i. tw_rng w (i + 204))"
    using assms(1) by (rule bootstrap_run)
  have wf: "wf_sk (bo_secret_key boot)" "length (mk_as_bytes (ui_master_key (bo_identity boot))) = 32"
    by (rule bootstrap_unfold [OF boot], simp add: KEY_LEN_def)+
  have token: "string_from_utf8 (str_bytes ''tok-xyz'') = Some ''tok-xyz''" by code_simp
  obtain b where b: "profile_json_write J TEST_PROFILE = Some b" "profile_json_read J b = Some TEST_PROFILE"
    using assms(2,3) by (rule profile_written)
  have read: "array32 (mk_as_bytes (ui_master_key (bo_identity boot))) =
      Some (mk_as_bytes (ui_master_key (bo_identity boot)))"
    "ok_of (sk_from_bytes (sk_as_bytes (bo_secret_key boot))) = Some (bo_secret_key boot)"
    "array32 (map r [0..<KEY_LEN]) = Some (map r [0..<KEY_LEN])" for r
    using wf sk_raw.dec_enc by (simp_all add: array32_def KEY_LEN_def)
  show ?thesis
    by (simp add: vault_round_trips_all_items_def Let_def vault_steps boot keypair_runs b read token)
qed

lemma vault_tests:
  assumes "lib_good L" and "profile_json_sound J" and "\<And>p. profile_json_write J p \<noteq> None"
  shows "passes clear_wipes_everything w"
    and "passes (clear_session_keeps_the_device_enrolled L J) w"
    and "passes malformed_value_is_an_error w"
proof -
  show "passes clear_wipes_everything w" by (simp add: clear_wipes_everything_def Let_def vault_steps)
  obtain boot where boot: "bootstrap_identity_with_params L ''pw'' fast (tw_rng w) = (Inr boot, \<lambda>i. tw_rng w (i + 204))"
    using assms(1) by (rule bootstrap_run)
  have "wf_sk (bo_secret_key boot)" by (rule bootstrap_unfold [OF boot])
  then have read: "ok_of (sk_from_bytes (sk_as_bytes (bo_secret_key boot))) = Some (bo_secret_key boot)"
    "array32 (replicate 32 1) = Some (replicate 32 1)"
    using sk_raw.dec_enc by (simp_all add: array32_def)
  let ?p = "\<lparr>sp_endpoints = [''h:1''], sp_identity_public = replicate 32 9, sp_user_id = ''u''\<rparr> :: server_profile"
  obtain b where b: "profile_json_write J ?p = Some b" "profile_json_read J b = Some ?p"
    using assms(2,3) by (rule profile_written)
  show "passes (clear_session_keeps_the_device_enrolled L J) w"
    by (simp add: clear_session_keeps_the_device_enrolled_def Let_def vault_steps boot b read)
  have "store_set memory_store ''master_key'' v m = (Inr (), m(MASTER_KEY \<mapsto> v))" for v m
    by (simp add: memory_store_def MASTER_KEY_def)
  then show "passes malformed_value_is_an_error w"
    by (simp add: malformed_value_is_an_error_def passes_then attempt_def in_memory_def on_part_def memory_getters
        array32_def split: prod.split)
qed

text \<open>The manual test, on a keyring whose operations fail at most for want of an entry.\<close>

lemma keychain_test:
  assumes "keyring_sound K den content" and "keyring_total K"
  shows "passes (os_keychain_round_trips K) w"
proof -
  let ?S = "keychain_store K (os_keychain_new ''sylva-sdk-test-delete-me'')"
  note store = keychain_reliable [OF assms, of "os_keychain_new ''sylva-sdk-test-delete-me''"]
  note contract = reliable_store.axioms(1) [OF store]
  obtain k1 where s: "store_set ?S ''smoke'' (str_bytes ''value'') (tw_keys w) = (Inr (), k1)"
    using reliable_store.set_run [OF store] by blast
  obtain k2 where g: "store_get ?S ''smoke'' k1 = (Inr (Some (str_bytes ''value'')), k2)"
    using reliable_store.get_run [OF store, of "''smoke''" k1] secret_store.set_ok [OF contract s] by auto
  obtain k3 where d: "store_delete ?S ''smoke'' k2 = (Inr (), k3)"
    using reliable_store.delete_run [OF store] by blast
  obtain k4 where n: "store_get ?S ''smoke'' k3 = (Inr None, k4)"
    using reliable_store.get_run [OF store, of "''smoke''" k3] secret_store.delete_ok [OF contract d] by auto
  show ?thesis
    by (simp add: os_keychain_round_trips_def Let_def passes_then s g d n)
qed

section \<open>Libraries for the witness\<close>

fun write_texts :: "string list \<Rightarrow> bytes" where
  "write_texts [] = [0]"
| "write_texts (t # ts) = 1 # write_text t @ write_texts ts"

function read_texts :: "bytes \<Rightarrow> (string list \<times> bytes) option" where
  "read_texts bs =
     (case bs of
        [] \<Rightarrow> None
      | m # rest \<Rightarrow>
          if m = 0 then Some ([], rest)
          else (case read_text rest of
                  None \<Rightarrow> None
                | Some (t, u) \<Rightarrow>
                    if length u \<le> length rest
                    then (case read_texts u of None \<Rightarrow> None | Some (ts, v) \<Rightarrow> Some (t # ts, v))
                    else None))"
  by pat_completeness auto

termination
  by (relation "measure length") auto

declare read_texts.simps [simp del]

lemma read_write_texts: "read_texts (write_texts ts @ rest) = Some (ts, rest)"
  by (induction ts) (simp_all add: read_texts.simps [of "_ # _"] read_write_text)

definition total_profiles :: vault_lib where
  "total_profiles =
     \<lparr>profile_json_write = (\<lambda>p. Some (write_texts (sp_user_id p # bytes_str (sp_identity_public p) # sp_endpoints p))),
      profile_json_read = (\<lambda>b. case read_texts b of
         Some (user # public # endpoints, _) \<Rightarrow>
           Some \<lparr>sp_endpoints = endpoints, sp_identity_public = str_bytes public, sp_user_id = user\<rparr>
       | _ \<Rightarrow> None)\<rparr>"

lemma total_profiles_sound: "profile_json_sound total_profiles"
  using read_write_texts [where rest = "[]"]
  by (simp add: profile_json_sound_def total_profiles_def del: write_texts.simps)

section \<open>Properties\<close>

text \<open>
  The storage tests pass for every sound cryptographic and JSON library, and the manual
  test passes on every keyring that behaves as documented: five items are read back as stored,
  wiping removes them, signing out keeps the device enrolled, and a short value is an error.
\<close>

lemma storage_tests_pass:
  assumes "lib_good L" and "profile_json_sound J" and "\<And>p. profile_json_write J p \<noteq> None"
    and "keyring_sound K den content" and "keyring_total K"
  shows "passes (vault_round_trips_all_items L J) w \<and> passes clear_wipes_everything w \<and>
    passes (clear_session_keeps_the_device_enrolled L J) w \<and> passes malformed_value_is_an_error w \<and>
    passes (os_keychain_round_trips K) w"
  using vault_round_trip_test [OF assms(1-3)] vault_tests [OF assms(1-3)] keychain_test [OF assms(4,5)] by blast

end
