(* ===== verification/Test_Servers.thy ===== *)
theory Test_Servers
  imports Flows
begin

text \<open>
  The account servers of the transport tests (\<open>MockAccount\<close> in \<open>src/transport/client.rs\<close>) and of the
  flow tests (\<open>FlowMock\<close> in \<open>src/flows.rs\<close>). Both provide \<open>key_service\<close>, and the tests of these files
  hold of the model.
\<close>

section \<open>The server of the transport tests\<close>

definition ACCOUNT_TOKEN :: string where
  "ACCOUNT_TOKEN = ''tok-abc-123''"

definition strip_prefix :: "string \<Rightarrow> string \<Rightarrow> string option" where
  "strip_prefix p s = (if take (length p) s = p then Some (drop (length p) s) else None)"

definition bearer :: "string option \<Rightarrow> status + string" where
  "bearer authorization =
     (case authorization of
        None \<Rightarrow> Inl (Status Unauthenticated ''missing authorization'')
      | Some raw \<Rightarrow> ok_or (strip_prefix ''Bearer '' raw) (Status Unauthenticated ''not a bearer token''))"

definition require_account_token :: "string option \<Rightarrow> status + unit" where
  "require_account_token authorization =
     (case bearer authorization of
        Inl st \<Rightarrow> Inl st
      | Inr tok \<Rightarrow> if tok = ACCOUNT_TOKEN then Inr () else Inl (Status Unauthenticated ''wrong token''))"

definition account_session_msg :: session_msg where
  "account_session_msg = \<lparr>sm_token = ACCOUNT_TOKEN, sm_user_id = ''11111111-1111-1111-1111-111111111111'',
     sm_expires_at = ''2030-01-01T00:00:00Z''\<rparr>"

definition account_key_material :: key_material where
  "account_key_material =
     \<lparr>km_x25519_public = replicate 32 1, km_ed25519_public = replicate 32 2,
      km_x25519_private_wrapped = replicate 48 3, km_ed25519_private_wrapped = replicate 48 4,
      km_master_key_wrapped = replicate 72 5, km_kdf_salt = replicate 16 6,
      km_kdf_params = ''{'' @ [CHR 0x22] @ ''m'' @ [CHR 0x22] @ '':65536,'' @ [CHR 0x22] @ ''t'' @ [CHR 0x22]
        @ '':3,'' @ [CHR 0x22] @ ''p'' @ [CHR 0x22] @ '':4}''\<rparr>"

text \<open>An authenticated answer: the request is refused, or answered with what does not depend on the state.\<close>

definition authenticated :: "(string option \<Rightarrow> status + unit) \<Rightarrow> ('req \<Rightarrow> 'resp) \<Rightarrow> ('n, 'c, 'req, 'resp) rpc" where
  "authenticated check answer c authorization req n =
     (case check authorization of Inl st \<Rightarrow> (Inl st, n) | Inr _ \<Rightarrow> (Inr (answer req), n))"

definition account_bootstrap :: "('n, 'c, bootstrap_request, session_msg) rpc" where
  "account_bootstrap c authorization req n = (Inr account_session_msg, n)"

definition account_login :: "('n, 'c, login_request, login_response) rpc" where
  "account_login c authorization req n = (Inr (Some (Session account_session_msg)), n)"

definition account_verify_mfa :: "('n, 'c, verify_mfa_request, session_msg) rpc" where
  "account_verify_mfa c authorization req n = (Inl (Status Unimplemented ''mock''), n)"

definition account_get_key_material :: "('n, 'c, unit, key_material option) rpc" where
  "account_get_key_material = authenticated require_account_token (\<lambda>_. Some account_key_material)"

definition account_register_device :: "('n, 'c, device_enrollment option, device_msg) rpc" where
  "account_register_device = authenticated require_account_token (\<lambda>req.
     (let dev = (case req of
            Some d \<Rightarrow> d
          | None \<Rightarrow> \<lparr>de_device_label = [], de_platform = [], de_device_public_key = [], de_machine_label = []\<rparr>)
      in \<lparr>dm_device_id = ''dev-1'', dm_device_label = de_device_label dev, dm_platform = de_platform dev,
          dm_machine_id = ''mac-1'', dm_created_at = ''2026-01-01T00:00:00Z'', dm_last_seen_at = [],
          dm_revoked_at = []\<rparr>))"

definition account_list_my_devices :: "('n, 'c, unit, device_msg list) rpc" where
  "account_list_my_devices = authenticated require_account_token (\<lambda>_.
     [\<lparr>dm_device_id = ''dev-1'', dm_device_label = ''Olivia'' @ [CHR 0x27] @ ''s PC'', dm_platform = ''windows'',
       dm_machine_id = ''mac-1'', dm_created_at = ''2026-01-01T00:00:00Z'', dm_last_seen_at = [],
       dm_revoked_at = []\<rparr>])"

definition account_revoke_device :: "('n, 'c, string, unit) rpc" where
  "account_revoke_device = authenticated require_account_token (\<lambda>_. ())"

definition account_profile :: profile_msg where
  "account_profile = \<lparr>pm_user_id = ''11111111-1111-1111-1111-111111111111'', pm_email = ''olivia@test.local'',
     pm_display_name = ''Olivia'', pm_instance_role = ''owner''\<rparr>"

definition account_get_profile :: "('n, 'c, unit, profile_msg) rpc" where
  "account_get_profile = authenticated require_account_token (\<lambda>_. account_profile)"

definition account_update_display_name :: "('n, 'c, string, profile_msg) rpc" where
  "account_update_display_name = authenticated require_account_token (\<lambda>name. account_profile\<lparr>pm_display_name := name\<rparr>)"

definition account_update_email :: "('n, 'c, update_email_request, profile_msg) rpc" where
  "account_update_email = authenticated require_account_token (\<lambda>req. account_profile\<lparr>pm_email := ue_new_email req\<rparr>)"

definition account_change_password :: "('n, 'c, change_password_request, unit) rpc" where
  "account_change_password = authenticated require_account_token (\<lambda>_. ())"

definition account_get_avatar :: "('n, 'c, unit, bytes) rpc" where
  "account_get_avatar = authenticated require_account_token (\<lambda>_. replicate 8 42)"

definition account_set_avatar :: "('n, 'c, bytes, unit) rpc" where
  "account_set_avatar = authenticated require_account_token (\<lambda>_. ())"

text \<open>A network on which exactly the given addresses reach the server.\<close>

definition account_net :: "string list \<Rightarrow> (unit, unit) net" where
  "account_net up =
     \<lparr>http_get = (\<lambda>url n. (None, n)),
      endpoint_ok = (\<lambda>url. True),
      dial = (\<lambda>url n. (if url \<in> set (map http_url up) then Inr () else Inl (Tonic_Error ''refused''), n)),
      metadata_ok = (\<lambda>v. True),
      rpc_bootstrap = account_bootstrap,
      rpc_login = account_login,
      rpc_get_key_material = account_get_key_material,
      rpc_register_device = account_register_device,
      rpc_list_my_devices = account_list_my_devices,
      rpc_revoke_device = account_revoke_device,
      rpc_get_profile = account_get_profile,
      rpc_update_display_name = account_update_display_name,
      rpc_update_email = account_update_email,
      rpc_change_password = account_change_password,
      rpc_get_avatar = account_get_avatar,
      rpc_set_avatar = account_set_avatar\<rparr>"

lemma bearer_accepts: "require_account_token (Some (''Bearer '' @ tok)) =
    (if tok = ACCOUNT_TOKEN then Inr () else Inl (Status Unauthenticated ''wrong token''))"
  by (simp add: require_account_token_def bearer_def strip_prefix_def)

lemma account_token_accepted [simp]: "require_account_token (Some (''Bearer '' @ ACCOUNT_TOKEN)) = Inr ()"
  by (simp only: bearer_accepts simp_thms if_True)

interpretation account_mock: key_service "account_net up" "\<lambda>_. account_key_material" "\<lambda>_ tok. tok = ACCOUNT_TOKEN"
  for up
proof
  fix c req s and n n' :: unit
  assume "rpc_login (account_net up) c None req n = (Inr (Some (Session s)), n')"
  then show "sm_token s = ACCOUNT_TOKEN \<and> account_key_material = account_key_material"
    by (auto simp: account_net_def account_login_def account_session_msg_def)
qed (auto simp: account_net_def account_get_key_material_def authenticated_def simp del: append_Cons)


section \<open>The server of the flow tests\<close>

record flow_mock =
  fm_token :: string
  fm_key_material :: key_material
  fm_require_mfa :: bool

definition flow_session :: "flow_mock \<Rightarrow> session_msg" where
  "flow_session m = \<lparr>sm_token = fm_token m, sm_user_id = ''u-1'', sm_expires_at = ''2030-01-01T00:00:00Z''\<rparr>"

text \<open>
  \<open>panicked\<close> is the status with which the library answers a call whose handler panics, here when an
  assertion on the request fails.
\<close>

definition flow_bootstrap :: "status \<Rightarrow> (flow_mock, 'c, bootstrap_request, session_msg) rpc" where
  "flow_bootstrap panicked c authorization r m =
     (if br_key_material r = None \<or> br_device r = None \<or> br_password r = [] then (Inl panicked, m)
      else (Inr (flow_session m), m))"

definition flow_login :: "(flow_mock, 'c, login_request, login_response) rpc" where
  "flow_login c authorization req m =
     (Inr (Some (if fm_require_mfa m
                 then Mfa_Required \<lparr>mr_mfa_challenge_token = ''challenge'', mr_methods = [''totp'']\<rparr>
                 else Session (flow_session m))), m)"

definition flow_get_key_material :: "(flow_mock, 'c, unit, key_material option) rpc" where
  "flow_get_key_material c authorization req m =
     (let auth = (case authorization of None \<Rightarrow> [] | Some v \<Rightarrow> v)
      in if auth \<noteq> ''Bearer '' @ fm_token m then (Inl (Status Unauthenticated ''bad token''), m)
         else (Inr (Some (fm_key_material m)), m))"

definition unimplemented :: "(flow_mock, 'c, 'req, 'resp) rpc" where
  "unimplemented c authorization req m = (Inl (Status Unimplemented ''mock''), m)"

definition flow_verify_mfa :: "(flow_mock, 'c, verify_mfa_request, session_msg) rpc" where
  "flow_verify_mfa c authorization req m = (Inl (Status Unimplemented ''mock''), m)"

definition flow_net :: "status \<Rightarrow> (flow_mock, unit) net" where
  "flow_net panicked =
     \<lparr>http_get = (\<lambda>url m. (None, m)),
      endpoint_ok = (\<lambda>url. True),
      dial = (\<lambda>url m. (Inr (), m)),
      metadata_ok = (\<lambda>v. True),
      rpc_bootstrap = flow_bootstrap panicked,
      rpc_login = flow_login,
      rpc_get_key_material = flow_get_key_material,
      rpc_register_device = unimplemented,
      rpc_list_my_devices = unimplemented,
      rpc_revoke_device = unimplemented,
      rpc_get_profile = unimplemented,
      rpc_update_display_name = unimplemented,
      rpc_update_email = unimplemented,
      rpc_change_password = unimplemented,
      rpc_get_avatar = unimplemented,
      rpc_set_avatar = unimplemented\<rparr>"

interpretation flow_server: key_service "flow_net panicked" fm_key_material "\<lambda>m tok. tok = fm_token m"
  for panicked
proof
  fix c req s and n n' :: flow_mock
  assume "rpc_login (flow_net panicked) c None req n = (Inr (Some (Session s)), n')"
  then show "sm_token s = fm_token n' \<and> fm_key_material n' = fm_key_material n"
    by (auto simp: flow_net_def flow_login_def flow_session_def split: if_splits)
qed (auto simp: flow_net_def flow_get_key_material_def)

section \<open>The tests\<close>

text \<open>\<open>connect_fails_over_then_bootstrap_and_authed_round_trips\<close>: the dead first endpoint is skipped.\<close>

lemma fails_over:
  "a \<noteq> b \<Longrightarrow> connect_endpoints (account_net [b]) [a, b] h = (Inr (), h)"
  by (simp add: connect_endpoints_def and_then_Inr_iff with_net_def account_net_def http_url_def ret_eq)

text \<open>And the authenticated calls go through with the token that was issued.\<close>

lemma account_authed: "authed (account_net up) (session_new c ACCOUNT_TOKEN) = Some (''Bearer '' @ ACCOUNT_TOKEN)"
  by (rule account_mock.authed_issued) (rule refl)

lemma account_net_selects:
  "rpc_get_key_material (account_net up) = account_get_key_material"
  "rpc_list_my_devices (account_net up) = account_list_my_devices"
  "rpc_revoke_device (account_net up) = account_revoke_device"
  "rpc_get_profile (account_net up) = account_get_profile"
  "rpc_update_display_name (account_net up) = account_update_display_name"
  "rpc_update_email (account_net up) = account_update_email"
  "rpc_get_avatar (account_net up) = account_get_avatar"
  "rpc_set_avatar (account_net up) = account_set_avatar"
  "metadata_ok (account_net up) v"
  by (simp_all add: account_net_def)

lemma authenticated_accepts:
  "authenticated require_account_token f c (Some (''Bearer '' @ ACCOUNT_TOKEN)) req n = (Inr (f req), n)"
  by (simp only: authenticated_def account_token_accepted sum.case)

lemma authed_calls:
  fixes h :: "unit host"
  shows "session_key_material (account_net up) (session_new () ACCOUNT_TOKEN) h = (Inr account_key_material, h)"
    and "session_get_profile (account_net up) (session_new () ACCOUNT_TOKEN) h = (Inr account_profile, h)"
    and "session_update_display_name (account_net up) (session_new () ACCOUNT_TOKEN) name h =
      (Inr (account_profile\<lparr>pm_display_name := name\<rparr>), h)"
    and "session_update_email (account_net up) (session_new () ACCOUNT_TOKEN) email pw h =
      (Inr (account_profile\<lparr>pm_email := email\<rparr>), h)"
    and "session_revoke_device (account_net up) (session_new () ACCOUNT_TOKEN) device h = (Inr (), h)"
    and "session_set_avatar (account_net up) (session_new () ACCOUNT_TOKEN) png h = (Inr (), h)"
    and "session_get_avatar (account_net up) (session_new () ACCOUNT_TOKEN) h = (Inr (Some (replicate 8 42)), h)"
  by (simp_all add: account_authed account_net_selects authenticated_accepts account_get_key_material_def
      account_get_profile_def account_update_display_name_def account_update_email_def account_get_avatar_def
      account_set_avatar_def account_revoke_device_def session_key_material_def session_get_profile_def
      session_update_display_name_def session_update_email_def session_revoke_device_def session_set_avatar_def
      session_get_avatar_def and_then_Inr_iff ret_eq lift_result_eq del: append.append_Cons)

text \<open>\<open>missing_token_is_rejected_by_the_server\<close>\<close>

lemma empty_token_rejected:
  "session_list_devices (account_net up) (session_new () []) h = (Inl (Rpc (Status Unauthenticated ''wrong token'')), h)"
proof -
  have "require_account_token (Some (''Bearer '' @ [])) = Inl (Status Unauthenticated ''wrong token'')"
    by (simp only: bearer_accepts) (simp add: ACCOUNT_TOKEN_def)
  then show ?thesis
    by (simp add: session_list_devices_def account_net_selects account_list_my_devices_def authenticated_def
        authed_def session_new_def and_then_Inl_iff)
qed

text \<open>\<open>enroll_new_owner_generates_material_and_returns_secret_key\<close>, for every library that does not fail.\<close>

lemma enrolls_on_flow_server:
  assumes "lib_total L prm" and "no_password owner \<noteq> []"
  shows "\<exists>en h'. enroll_new_owner_with_params L (flow_net panicked) () owner prm h = (Inr en, h') \<and> eo_user_id en = ''u-1''"
proof -
  obtain boot where boot: "bootstrap_identity_with_params L (no_password owner) prm (host_rng h) =
      (Inr boot, \<lambda>i. host_rng h (i + 204))"
    using bootstrap_total [OF assms(1)] by blast
  obtain device r2 where dev: "generate_device_keypair L (\<lambda>i. host_rng h (i + 204)) =
      (Inr device :: enroll_error + device_keypair, r2)"
    by (simp add: generate_device_keypair_def and_then_Inr_iff ret_eq)
  have req: "rpc_bootstrap (flow_net panicked) () None (owner_request owner boot device) (host_net h) =
      (Inr (flow_session (host_net h)), host_net h)"
    using assms(2) by (simp add: flow_net_def flow_bootstrap_def owner_request_def)
  have "sm_user_id (flow_session (host_net h)) = ''u-1''" by (simp add: flow_session_def)
  moreover have "\<exists>en h'. enroll_new_owner_with_params L (flow_net panicked) () owner prm h = (Inr en, h') \<and>
      eo_user_id en = sm_user_id (flow_session (host_net h))"
    unfolding enroll_Inr_iff
    by (intro exI conjI) (rule boot, rule dev, rule req, rule refl, rule refl, rule enrolled_owner.select_convs)
  ultimately show ?thesis by (simp only:)
qed

text \<open>\<open>login_surfaces_mfa_required\<close>\<close>

lemma login_needs_mfa:
  assumes "fm_require_mfa (host_net h)"
  shows "login L (flow_net panicked) () email pw sk h = (Inl Mfa_Needed, h)"
  using assms
  by (simp add: login_def login_call_def flow_net_def flow_login_def and_then_Inl_iff map_error_Inl_iff throw_eq)

text \<open>\<open>login_unlocks_the_master_key\<close>\<close>

lemma login_unlocks_on_flow_server:
  assumes "lib_sound L" and "bootstrap_identity_with_params L pw prm r = (Inr boot, r')"
    and "host_net h = \<lparr>fm_token = tok, fm_key_material = bundle_to_key_material (bo_bundle boot), fm_require_mfa = False\<rparr>"
  shows "\<exists>li h'. login L (flow_net panicked) () email pw (bo_secret_key boot) h = (Inr li, h') \<and>
    li_user_id li = ''u-1'' \<and> li_identity li = bo_identity boot"
proof -
  have "rpc_login (flow_net panicked) () None
      \<lparr>lr_email = email, lr_password = pw, lr_mfa_challenge_token = [], lr_mfa_response = []\<rparr> (host_net h)
    = (Inr (Some (Session (flow_session (host_net h)))), host_net h)"
    using assms(3) by (simp add: flow_net_def flow_login_def)
  moreover have "unlock_identity L (key_material_to_bundle (fm_key_material (host_net h))) pw (bo_secret_key boot) =
      Inr (bo_identity boot)"
    using unlock_bootstrap [OF assms(1,2)] assms(3) by simp
  ultimately show ?thesis
    using flow_server.login_run [where h = h and s = "flow_session (host_net h)" and L = L and sk = "bo_secret_key boot"]
    by (fastforce simp: flow_session_def)
qed

end
