(* ===== verification/Test_Flows.thy ===== *)
theory Test_Flows
  imports Test_Crypto Test_Servers
begin

text \<open>
  The tests of \<open>src/transport/client.rs\<close> and \<open>src/flows.rs\<close> against their servers. Spawning a server
  is a step that puts its state in place of the network's; the address it listens on is an argument.
\<close>

section \<open>The transport\<close>

definition connect_fails_over_then_bootstrap_and_authed_round_trips ::
  "string \<Rightarrow> (unit host, panic, unit) exec" where
  "connect_fails_over_then_bootstrap_and_authed_round_trips addr =
     (let W = account_net [addr] in
     and_then (unwrap (connect_endpoints W [''127.0.0.1:1'', addr])) (\<lambda>channel.
     and_then (unwrap (bootstrap_call W channel
         \<lparr>br_email = [], br_display_name = [], br_password = [], br_key_material = None, br_device = None\<rparr>)) (\<lambda>session.
     and_then (assert_that (sm_token session = ACCOUNT_TOKEN)) (\<lambda>_.
       (let account = session_new channel (sm_token session) in
     and_then (unwrap (session_key_material W account)) (\<lambda>km.
     and_then (assert_that (km_master_key_wrapped km = replicate 72 5)) (\<lambda>_.
     and_then (unwrap (session_list_devices W account)) (\<lambda>devices.
     and_then (assert_that (length devices = 1)) (\<lambda>_.
     and_then (assert_that (dm_device_label (devices ! 0) = ''Olivia'' @ [CHR 0x27] @ ''s PC'')) (\<lambda>_.
     and_then (unwrap (session_register_device W account
         \<lparr>de_device_label = ''Laptop'', de_platform = ''windows'', de_device_public_key = replicate 32 7,
          de_machine_label = ''Family-PC''\<rparr>)) (\<lambda>enrolled.
     and_then (assert_that (dm_device_label enrolled = ''Laptop'')) (\<lambda>_.
     and_then (unwrap (session_revoke_device W account ''dev-1'')) (\<lambda>_.
     and_then (unwrap (session_get_profile W account)) (\<lambda>profile.
     and_then (assert_that (pm_display_name profile = ''Olivia'')) (\<lambda>_.
     and_then (assert_that (pm_instance_role profile = ''owner'')) (\<lambda>_.
     and_then (unwrap (session_update_display_name W account ''Liv'')) (\<lambda>renamed.
     and_then (assert_that (pm_display_name renamed = ''Liv'')) (\<lambda>_.
     and_then (unwrap (session_update_email W account ''liv@x'' ''pw'')) (\<lambda>remailed.
     and_then (assert_that (pm_email remailed = ''liv@x'')) (\<lambda>_.
     and_then (unwrap (session_change_password W account
         \<lparr>cp_current_password = ''pw'', cp_new_password = ''pw2'', cp_new_master_key_wrapped = replicate 72 9,
          cp_new_kdf_salt = replicate 16 8, cp_new_kdf_params = DEFAULT_JSON\<rparr>)) (\<lambda>_.
     and_then (unwrap (session_set_avatar W account (replicate 16 1))) (\<lambda>_.
     and_then (unwrap (session_get_avatar W account)) (\<lambda>avatar.
     assert_that (avatar = Some (replicate 8 42)))))))))))))))))))))))))"

definition missing_token_is_rejected_by_the_server :: "string \<Rightarrow> (unit host, panic, unit) exec" where
  "missing_token_is_rejected_by_the_server addr =
     (let W = account_net [addr] in
     and_then (unwrap (connect_endpoints W [addr])) (\<lambda>channel.
       (let account = session_new channel [] in
     and_then (attempt (session_list_devices W account)) (\<lambda>r.
     assert_that (case r of Inl (Rpc st) \<Rightarrow> status_code st = Unauthenticated | _ \<Rightarrow> False)))))"

definition connect_with_no_endpoints_errors :: "('n, 'c) net \<Rightarrow> ('n host, panic, unit) exec" where
  "connect_with_no_endpoints_errors W =
     and_then (attempt (connect_endpoints W [])) (\<lambda>r.
     assert_that (case r of Inl NoEndpoints \<Rightarrow> True | _ \<Rightarrow> False))"

section \<open>The flows\<close>

definition spawn_flow :: "flow_mock \<Rightarrow> status \<Rightarrow> string \<Rightarrow> (flow_mock host, panic, unit) exec" where
  "spawn_flow mock panicked addr =
     and_then (modify_state (host_net_update (\<lambda>_. mock))) (\<lambda>_.
     unwrap (connect_endpoints (flow_net panicked) [addr]))"

definition dummy_key_material :: key_material where
  "dummy_key_material =
     \<lparr>km_x25519_public = replicate 32 0, km_ed25519_public = replicate 32 0,
      km_x25519_private_wrapped = replicate 48 0, km_ed25519_private_wrapped = replicate 48 0,
      km_master_key_wrapped = replicate 72 0, km_kdf_salt = replicate 16 0,
      km_kdf_params = ''{'' @ [CHR 0x22] @ ''m'' @ [CHR 0x22] @ '':64,'' @ [CHR 0x22] @ ''t'' @ [CHR 0x22]
        @ '':1,'' @ [CHR 0x22] @ ''p'' @ [CHR 0x22] @ '':1}''\<rparr>"

definition enroll_new_owner_generates_material_and_returns_secret_key ::
  "crypto_lib \<Rightarrow> status \<Rightarrow> string \<Rightarrow> (flow_mock host, panic, unit) exec" where
  "enroll_new_owner_generates_material_and_returns_secret_key L panicked addr =
     (let mock = \<lparr>fm_token = ''tok-1'', fm_key_material = dummy_key_material, fm_require_mfa = False\<rparr> in
     and_then (spawn_flow mock panicked addr) (\<lambda>channel.
     and_then (unwrap (enroll_new_owner_with_params L (flow_net panicked) channel
         \<lparr>no_email = ''owner@example.com'', no_display_name = ''Olivia'', no_password = ''correct horse'',
          no_device_label = ''Olivia'' @ [CHR 0x27] @ ''s PC'', no_platform = ''windows'',
          no_machine_label = ''Family-PC''\<rparr> fast)) (\<lambda>enrolled.
     and_then (assert_that (eo_user_id enrolled = ''u-1'')) (\<lambda>_.
     and_then (assert_that (length (split_on CHR ''-'' (sk_display (eo_secret_key enrolled))) = 8)) (\<lambda>_.
     assert_that (eo_device_public enrolled \<noteq> replicate 32 0))))))"

definition login_unlocks_the_master_key ::
  "crypto_lib \<Rightarrow> status \<Rightarrow> string \<Rightarrow> (flow_mock host, panic, unit) exec" where
  "login_unlocks_the_master_key L panicked addr =
     and_then (unwrap (with_rng (bootstrap_identity_with_params L ''hunter2'' fast))) (\<lambda>boot.
       (let expected_master = mk_as_bytes (ui_master_key (bo_identity boot));
            mock = \<lparr>fm_token = ''tok-2'', fm_key_material = bundle_to_key_material (bo_bundle boot),
                    fm_require_mfa = False\<rparr> in
     and_then (spawn_flow mock panicked addr) (\<lambda>channel.
     and_then (unwrap (login L (flow_net panicked) channel ''owner@example.com'' ''hunter2'' (bo_secret_key boot))) (\<lambda>logged_in.
     and_then (assert_that (li_user_id logged_in = ''u-1'')) (\<lambda>_.
     assert_that (mk_as_bytes (ui_master_key (li_identity logged_in)) = expected_master))))))"

definition login_with_wrong_secret_key_fails_to_unlock ::
  "crypto_lib \<Rightarrow> status \<Rightarrow> string \<Rightarrow> (flow_mock host, panic, unit) exec" where
  "login_with_wrong_secret_key_fails_to_unlock L panicked addr =
     and_then (unwrap (with_rng (bootstrap_identity_with_params L ''pw'' fast))) (\<lambda>boot.
       (let mock = \<lparr>fm_token = ''tok-3'', fm_key_material = bundle_to_key_material (bo_bundle boot),
                    fm_require_mfa = False\<rparr> in
     and_then (spawn_flow mock panicked addr) (\<lambda>channel.
     and_then (with_rng sk_generate) (\<lambda>other.
     and_then (attempt (login L (flow_net panicked) channel ''owner@example.com'' ''pw'' other)) (\<lambda>result.
     assert_that (case result of Inl (Crypto_Failed e) \<Rightarrow> True | _ \<Rightarrow> False))))))"

definition login_surfaces_mfa_required ::
  "crypto_lib \<Rightarrow> status \<Rightarrow> string \<Rightarrow> (flow_mock host, panic, unit) exec" where
  "login_surfaces_mfa_required L panicked addr =
     (let mock = \<lparr>fm_token = ''tok-4'', fm_key_material = dummy_key_material, fm_require_mfa = True\<rparr> in
     and_then (spawn_flow mock panicked addr) (\<lambda>channel.
     and_then (with_rng sk_generate) (\<lambda>other.
     and_then (attempt (login L (flow_net panicked) channel ''owner@example.com'' ''pw'' other)) (\<lambda>result.
     assert_that (case result of Inl Mfa_Needed \<Rightarrow> True | _ \<Rightarrow> False)))))"

section \<open>They pass\<close>

lemma more_authed_calls:
  fixes h :: "unit host"
  shows "\<exists>d. session_list_devices (account_net up) (session_new () ACCOUNT_TOKEN) h = (Inr [d], h) \<and>
      dm_device_label d = ''Olivia'' @ [CHR 0x27] @ ''s PC''"
    and "\<exists>d. session_register_device (account_net up) (session_new () ACCOUNT_TOKEN) device h = (Inr d, h) \<and>
      dm_device_label d = de_device_label device"
    and "session_change_password (account_net up) (session_new () ACCOUNT_TOKEN) req h = (Inr (), h)"
    and "bootstrap_call (account_net up) () breq h = (Inr account_session_msg, h)"
proof -
  have sel: "rpc_register_device (account_net up) = account_register_device"
    "rpc_change_password (account_net up) = account_change_password"
    "rpc_bootstrap (account_net up) = account_bootstrap"
    by (simp_all add: account_net_def)
  show "session_change_password (account_net up) (session_new () ACCOUNT_TOKEN) req h = (Inr (), h)"
    "bootstrap_call (account_net up) () breq h = (Inr account_session_msg, h)"
    by (simp_all add: account_authed sel authenticated_accepts account_change_password_def account_bootstrap_def
        session_change_password_def bootstrap_call_def and_then_Inr_iff ret_eq del: append.append_Cons)
  show "\<exists>d. session_list_devices (account_net up) (session_new () ACCOUNT_TOKEN) h = (Inr [d], h) \<and>
      dm_device_label d = ''Olivia'' @ [CHR 0x27] @ ''s PC''"
    "\<exists>d. session_register_device (account_net up) (session_new () ACCOUNT_TOKEN) device h = (Inr d, h) \<and>
      dm_device_label d = de_device_label device"
    by (simp_all add: account_authed sel account_net_selects authenticated_accepts account_list_my_devices_def
        account_register_device_def session_list_devices_def session_register_device_def Let_def del: append.append_Cons)
qed

lemma connects_flow: "connect_endpoints (flow_net panicked) [addr] h = (Inr (), h)"
  by (simp add: connect_endpoints_def and_then_Inr_iff with_net_def flow_net_def ret_eq)

lemma connects_account: "connect_endpoints (account_net [addr]) [addr] h = (Inr (), h)"
  by (simp add: connect_endpoints_def and_then_Inr_iff with_net_def account_net_def ret_eq)

lemma spawn_flow_Inr_iff [simp]:
  "spawn_flow mock panicked addr h = (Inr c, h') \<longleftrightarrow> h' = h\<lparr>host_net := mock\<rparr>"
  by (auto simp: spawn_flow_def and_then_Inr_iff modify_state_eq connects_flow)

lemma transport_tests:
  assumes "addr \<noteq> ''127.0.0.1:1''"
  shows "passes (connect_fails_over_then_bootstrap_and_authed_round_trips addr) h"
    and "passes (missing_token_is_rejected_by_the_server addr) h"
    and "passes (connect_with_no_endpoints_errors W) h'"
proof -
  obtain d1 where d1: "session_list_devices (account_net [addr]) (session_new () ACCOUNT_TOKEN) h = (Inr [d1], h)"
    "dm_device_label d1 = ''Olivia'' @ [CHR 0x27] @ ''s PC''"
    using more_authed_calls(1) by blast
  let ?dev = "\<lparr>de_device_label = ''Laptop'', de_platform = ''windows'', de_device_public_key = replicate 32 7,
      de_machine_label = ''Family-PC''\<rparr>"
  obtain d2 where d2: "session_register_device (account_net [addr]) (session_new () ACCOUNT_TOKEN) ?dev h = (Inr d2, h)"
    "dm_device_label d2 = ''Laptop''"
    using more_authed_calls(2) [of "[addr]" ?dev h] by auto
  have "sm_token account_session_msg = ACCOUNT_TOKEN" by (simp add: account_session_msg_def)
  moreover have "km_master_key_wrapped account_key_material = replicate 72 5" by (simp add: account_key_material_def)
  moreover have "pm_display_name account_profile = ''Olivia''" "pm_instance_role account_profile = ''owner''"
    by (simp_all add: account_profile_def)
  ultimately show "passes (connect_fails_over_then_bootstrap_and_authed_round_trips addr) h"
    using assms d1 d2
    by (simp add: connect_fails_over_then_bootstrap_and_authed_round_trips_def Let_def test_steps fails_over
        more_authed_calls(3,4) authed_calls)
  show "passes (missing_token_is_rejected_by_the_server addr) h"
    by (simp add: missing_token_is_rejected_by_the_server_def Let_def passes_step [OF unwrap_Inr_iff [THEN iffD2, OF connects_account]]
        passes_attempt empty_token_rejected)
  show "passes (connect_with_no_endpoints_errors W) h'"
    by (simp add: connect_with_no_endpoints_errors_def passes_attempt connect_endpoints_def throw_eq)
qed

lemma enroll_test:
  assumes "lib_good L"
  shows "passes (enroll_new_owner_generates_material_and_returns_secret_key L panicked addr) h \<longleftrightarrow>
    x25519_public L (map (\<lambda>i. host_rng h (i + 204)) [0..<KEY_LEN]) \<noteq> replicate 32 0"
proof -
  obtain boot where boot: "bootstrap_identity_with_params L ''correct horse'' fast (host_rng h) =
      (Inr boot, \<lambda>i. host_rng h (i + 204))"
    using assms by (rule bootstrap_run)
  have wf: "wf_sk (bo_secret_key boot)" by (rule bootstrap_unfold [OF boot])
  let ?m = "\<lparr>fm_token = ''tok-1'', fm_key_material = dummy_key_material, fm_require_mfa = False\<rparr>"
  have req: "rpc_bootstrap (flow_net panicked) () None (owner_request owner boot device) ?m = (Inr (flow_session ?m), ?m)"
    if "no_password owner = ''correct horse''" for owner device
    using that by (simp add: flow_net_def flow_bootstrap_def owner_request_def)
  show ?thesis
    using display_groups [OF wf]
    by (simp add: enroll_new_owner_generates_material_and_returns_secret_key_def Let_def passes_then enroll_Inr_iff
        boot keypair_runs req) (simp add: flow_session_def)
qed

lemma login_tests:
  assumes "lib_good L"
  shows "passes (login_unlocks_the_master_key L panicked addr) h"
    and "passes (login_surfaces_mfa_required L panicked addr) h"
proof -
  obtain boot where boot: "bootstrap_identity_with_params L ''hunter2'' fast (host_rng h) =
      (Inr boot, \<lambda>i. host_rng h (i + 204))"
    using assms by (rule bootstrap_run)
  let ?h = "h\<lparr>host_rng := \<lambda>i. host_rng h (i + 204), host_net :=
      \<lparr>fm_token = ''tok-2'', fm_key_material = bundle_to_key_material (bo_bundle boot), fm_require_mfa = False\<rparr>\<rparr>"
  obtain li h' where "login L (flow_net panicked) () ''owner@example.com'' ''hunter2'' (bo_secret_key boot) ?h = (Inr li, h')"
    "li_user_id li = ''u-1''" "li_identity li = bo_identity boot"
    using login_unlocks_on_flow_server [OF lib_goodD(1) [OF assms] boot, of ?h "''tok-2''" panicked "''owner@example.com''"]
    by auto
  then show "passes (login_unlocks_the_master_key L panicked addr) h"
    by (simp add: login_unlocks_the_master_key_def Let_def passes_then boot)
  have "login L (flow_net panicked) () ''owner@example.com'' ''pw'' sk h2 = (Inl Mfa_Needed, h2)"
    if "host_net h2 = \<lparr>fm_token = ''tok-4'', fm_key_material = dummy_key_material, fm_require_mfa = True\<rparr>" for sk and h2 :: "flow_mock host"
    using that by (intro login_needs_mfa) simp
  then show "passes (login_surfaces_mfa_required L panicked addr) h"
    by (simp add: login_surfaces_mfa_required_def Let_def passes_then sk_generate_run)
qed

lemma wrong_key_test:
  assumes "lib_good L"
    and "bootstrap_identity_with_params L ''pw'' fast (host_rng h) = (Inr boot, r)"
  shows "passes (login_with_wrong_secret_key_fails_to_unlock L panicked addr) h \<longleftrightarrow>
    isl (unlock_identity L (bo_bundle boot) ''pw'' (SecretKey (map r [0..<20])))"
proof -
  let ?m = "\<lparr>fm_token = ''tok-3'', fm_key_material = bundle_to_key_material (bo_bundle boot), fm_require_mfa = False\<rparr>"
  have login: "\<exists>n'. login L (flow_net panicked) () ''owner@example.com'' ''pw'' sk h2 =
      (map_sum Crypto_Failed
         (\<lambda>ident. \<lparr>li_account = session_new () ''tok-3'', li_user_id = ''u-1'', li_identity = ident\<rparr>)
         (unlock_identity L (bo_bundle boot) ''pw'' sk), h2\<lparr>host_net := n'\<rparr>)"
    if "host_net h2 = ?m" for sk and h2 :: "flow_mock host"
  proof -
    have "rpc_login (flow_net panicked) () None
        \<lparr>lr_email = ''owner@example.com'', lr_password = ''pw'', lr_mfa_challenge_token = [], lr_mfa_response = []\<rparr>
        (host_net h2) = (Inr (Some (Session (flow_session ?m))), ?m)"
      using that by (simp add: flow_net_def flow_login_def)
    from flow_server.login_run [OF this] that show ?thesis by (auto simp: flow_session_def)
  qed
  let ?h = "h\<lparr>host_net := ?m, host_rng := \<lambda>i. r (i + 20)\<rparr>"
  obtain n' where "login L (flow_net panicked) () ''owner@example.com'' ''pw'' (SecretKey (map r [0..<20])) ?h =
      (map_sum Crypto_Failed
         (\<lambda>ident. \<lparr>li_account = session_new () ''tok-3'', li_user_id = ''u-1'', li_identity = ident\<rparr>)
         (unlock_identity L (bo_bundle boot) ''pw'' (SecretKey (map r [0..<20]))), ?h\<lparr>host_net := n'\<rparr>)"
    using login [of ?h] by auto
  then show ?thesis
    by (cases "unlock_identity L (bo_bundle boot) ''pw'' (SecretKey (map r [0..<20]))")
       (simp_all add: login_with_wrong_secret_key_fails_to_unlock_def Let_def passes_then assms(2) sk_generate_run)
qed

section \<open>Properties\<close>

text \<open>
  The transport and flow tests pass against their servers, for every sound library:
  connecting skips the dead endpoint, the token that was issued opens every authenticated call and
  an empty one none, a login with the right factors unlocks the very master key of the bootstrap,
  and a demanded second factor is reported as such.
\<close>

lemma server_tests_pass:
  assumes "lib_good L" and "addr \<noteq> ''127.0.0.1:1''"
  shows "passes (connect_fails_over_then_bootstrap_and_authed_round_trips addr) h \<and>
    passes (missing_token_is_rejected_by_the_server addr) h \<and> passes (connect_with_no_endpoints_errors W) h2 \<and>
    passes (login_unlocks_the_master_key L panicked addr) h3 \<and> passes (login_surfaces_mfa_required L panicked addr) h3"
  by (intro conjI transport_tests [OF assms(2)] login_tests [OF assms(1)])

end
