(* ===== verification/Test_Client.thy ===== *)
theory Test_Client
  imports Client_Account Test_Storage
begin

text \<open>
  The tests of \<open>src/client.rs\<close>: the facade on an in-memory store against the server of
  \<open>Mock_Server\<close>. Their state is the client's; spawning the server puts its state in place of the
  network's, and a new client starts with an empty store and no connection.
\<close>

type_synonym test_client = "(mock, memory, unit) client"

definition no_http :: "string \<Rightarrow> mock \<Rightarrow> (nat \<times> bytes option) option \<times> mock" where
  "no_http url m = (None, m)"

definition test_env :: "crypto_lib \<Rightarrow> discovery_lib \<Rightarrow> vault_lib \<Rightarrow> string \<Rightarrow> (mock, memory, unit) env" where
  "test_env L D J os =
     \<lparr>env_crypto = L, env_discovery = D, env_vault = J, env_net = mock_net no_http,
      env_store = boxed memory_store, env_os = os\<rparr>"

definition default_key_material :: key_material where
  "default_key_material =
     \<lparr>km_x25519_public = [], km_ed25519_public = [], km_x25519_private_wrapped = [],
      km_ed25519_private_wrapped = [], km_master_key_wrapped = [], km_kdf_salt = [], km_kdf_params = []\<rparr>"

definition spawn_mock :: "key_material \<Rightarrow> (test_client, panic, unit) exec" where
  "spawn_mock km = modify_state (host_net_update (\<lambda>_. \<lparr>mo_key_material = km, mo_avatar = None\<rparr>))"

definition new_client :: "(test_client, panic, unit) exec" where
  "new_client = modify_state (\<lambda>s. s\<lparr>cl_store := memory_new, cl_inner := inner_default\<rparr>)"

definition mock_server :: verified_server where
  "mock_server = \<lparr>identity_public = replicate 32 7, vs_name = ''Mock'', vs_server_version = ''0'', vs_grpc_port = 50051\<rparr>"

definition inject :: "(mock, memory, unit) env \<Rightarrow> string \<Rightarrow> (test_client, panic, unit) exec" where
  "inject E addr =
     and_then (unwrap (connect_endpoints (env_net E) [addr])) (\<lambda>channel.
     unwrap (set_inner (\<lambda>inner. inner\<lparr>in_channel := Some channel, in_verified := Some mock_server,
       in_endpoints := [addr]\<rparr>)))"

text \<open>The tests' own conversion of a bundle to the message.\<close>

definition test_key_material :: "key_bundle \<Rightarrow> key_material" where
  "test_key_material bundle =
     \<lparr>km_x25519_public = kb_x25519_public bundle,
      km_ed25519_public = kb_ed25519_public bundle,
      km_x25519_private_wrapped = kb_x25519_private_wrapped bundle,
      km_ed25519_private_wrapped = kb_ed25519_private_wrapped bundle,
      km_master_key_wrapped = kb_master_key_wrapped bundle,
      km_kdf_salt = kb_kdf_salt bundle,
      km_kdf_params = kb_kdf_params bundle\<rparr>"

definition PC_LABEL :: string where
  "PC_LABEL = ''Olivia'' @ [CHR 0x27] @ ''s PC''"

definition create_owner_caches_state_and_manages_devices ::
  "(mock, memory, unit) env \<Rightarrow> string \<Rightarrow> (test_client, panic, unit) exec" where
  "create_owner_caches_state_and_manages_devices E addr =
     (let S = env_store E; J = env_vault E in
     and_then (spawn_mock default_key_material) (\<lambda>_.
     and_then new_client (\<lambda>_.
     and_then (inject E addr) (\<lambda>_.
     and_then (unwrap (create_owner E ''o@x'' ''Olivia'' ''pw'' PC_LABEL)) (\<lambda>enrollment.
     and_then (assert_that (en_user_id enrollment = ''u-1'')) (\<lambda>_.
     and_then (assert_that (length (split_on CHR ''-'' (en_secret_key enrollment)) = 8)) (\<lambda>_.
     and_then (unwrap (on_store (vault_master_key S))) (\<lambda>x.
     and_then (assert_that (x \<noteq> None)) (\<lambda>_.
     and_then (unwrap (on_store (vault_secret_key S))) (\<lambda>x.
     and_then (assert_that (x \<noteq> None)) (\<lambda>_.
     and_then (unwrap (on_store (vault_device_secret S))) (\<lambda>x.
     and_then (assert_that (x \<noteq> None)) (\<lambda>_.
     and_then (unwrap (on_store (vault_session_token S))) (\<lambda>x.
     and_then (assert_that (x = Some MOCK_TOKEN)) (\<lambda>_.
     and_then (unwrap (on_store (vault_server_profile J S))) (\<lambda>x.
     and_then (assert_that (x \<noteq> None)) (\<lambda>_.
     and_then (unwrap (list_devices E)) (\<lambda>devices.
     and_then (assert_that (length devices = 1)) (\<lambda>_.
     and_then (assert_that (di_label (devices ! 0) = PC_LABEL)) (\<lambda>_.
     and_then (unwrap (enroll_this_device E ''Laptop'')) (\<lambda>added.
     and_then (assert_that (di_label added = ''Laptop'')) (\<lambda>_.
     and_then (unwrap (revoke_device E ''dev-1'')) (\<lambda>_.
     and_then (unwrap (sign_out E)) (\<lambda>_.
     and_then (unwrap (on_store (vault_master_key S))) (\<lambda>x.
     and_then (assert_that (x = None)) (\<lambda>_.
     and_then (unwrap (on_store (vault_session_token S))) (\<lambda>x.
     and_then (assert_that (x = None)) (\<lambda>_.
     and_then (unwrap (on_store (vault_secret_key S))) (\<lambda>x.
     and_then (assert_that (x \<noteq> None)) (\<lambda>_.
     and_then (unwrap (on_store (vault_server_profile J S))) (\<lambda>x.
     and_then (assert_that (x \<noteq> None)) (\<lambda>_.
     and_then (unwrap (forget_server E)) (\<lambda>_.
     and_then (unwrap (on_store (vault_secret_key S))) (\<lambda>x.
     and_then (assert_that (x = None)) (\<lambda>_.
     and_then (unwrap (on_store (vault_server_profile J S))) (\<lambda>x.
     assert_that (x = None)))))))))))))))))))))))))))))))))))))"

text \<open>The beginning the next tests share: a bundle of a bootstrap, the server that serves it, a connected client.\<close>

definition bootstrapped_client ::
  "(mock, memory, unit) env \<Rightarrow> string \<Rightarrow> (test_client, panic, bootstrap_output) exec" where
  "bootstrapped_client E addr =
     and_then (unwrap (with_rng (bootstrap_identity_with_params (env_crypto E) ''pw'' fast))) (\<lambda>boot.
     and_then (spawn_mock (test_key_material (bo_bundle boot))) (\<lambda>_.
     and_then new_client (\<lambda>_.
     and_then (inject E addr) (\<lambda>_.
     ret boot))))"

definition sign_in_unlocks_and_caches :: "(mock, memory, unit) env \<Rightarrow> string \<Rightarrow> (test_client, panic, unit) exec" where
  "sign_in_unlocks_and_caches E addr =
     and_then (bootstrapped_client E addr) (\<lambda>boot.
     and_then (unwrap (sign_in E ''o@x'' ''pw'' (Some (sk_display (bo_secret_key boot))))) (\<lambda>outcome.
     and_then (assert_that (case outcome of Success user \<Rightarrow> True | MfaRequired \<Rightarrow> False)) (\<lambda>_.
     and_then (unwrap (on_store (vault_secret_key (env_store E)))) (\<lambda>x.
     and_then (assert_that (x \<noteq> None)) (\<lambda>_.
     and_then (unwrap (on_store (vault_session_token (env_store E)))) (\<lambda>x.
     assert_that (x = Some MOCK_TOKEN)))))))"

definition TEST_PNG :: bytes where
  "TEST_PNG = 0x89 # str_bytes ''PNG'' @ [0x0D, 0x0A, 0x1A, 0x0A] @ str_bytes '' fake avatar bytes''"

definition avatar_seals_round_trips_and_decrypts ::
  "(mock, memory, unit) env \<Rightarrow> string \<Rightarrow> (test_client, panic, unit) exec" where
  "avatar_seals_round_trips_and_decrypts E addr =
     and_then (bootstrapped_client E addr) (\<lambda>boot.
     and_then (unwrap (sign_in E ''o@x'' ''pw'' (Some (sk_display (bo_secret_key boot))))) (\<lambda>_.
     and_then (unwrap (get_avatar E)) (\<lambda>x.
     and_then (assert_that (x = None)) (\<lambda>_.
     and_then (unwrap (set_avatar E TEST_PNG)) (\<lambda>_.
     and_then (unwrap (get_avatar E)) (\<lambda>got.
     assert_that (got = Some TEST_PNG)))))))"

definition change_password_rewraps_and_calls_the_server ::
  "(mock, memory, unit) env \<Rightarrow> string \<Rightarrow> (test_client, panic, unit) exec" where
  "change_password_rewraps_and_calls_the_server E addr =
     and_then (bootstrapped_client E addr) (\<lambda>boot.
     and_then (unwrap (sign_in E ''o@x'' ''pw'' (Some (sk_display (bo_secret_key boot))))) (\<lambda>_.
     and_then (unwrap (change_password E ''pw'' ''new-pw'')) (\<lambda>_.
     and_then (attempt (change_password E ''wrong'' ''new-pw'')) (\<lambda>r.
     assert_that (r = Inl CryptoFailed)))))"

definition sign_in_wrong_secret_key_fails ::
  "(mock, memory, unit) env \<Rightarrow> string \<Rightarrow> (test_client, panic, unit) exec" where
  "sign_in_wrong_secret_key_fails E addr =
     and_then (bootstrapped_client E addr) (\<lambda>boot.
     and_then (with_rng sk_generate) (\<lambda>other.
     and_then (attempt (sign_in E ''o@x'' ''pw'' (Some (sk_display other)))) (\<lambda>result.
     assert_that (result = Inl CryptoFailed))))"

definition restore_without_enrollment_is_none :: "(mock, memory, unit) env \<Rightarrow> (test_client, panic, unit) exec" where
  "restore_without_enrollment_is_none E =
     and_then new_client (\<lambda>_.
     and_then (unwrap (restore E)) (\<lambda>x. assert_that (x = None)))"

definition calls_before_connect_or_signin_are_rejected ::
  "(mock, memory, unit) env \<Rightarrow> (test_client, panic, unit) exec" where
  "calls_before_connect_or_signin_are_rejected E =
     and_then new_client (\<lambda>_.
     and_then (attempt (create_owner E ''o@x'' ''O'' ''pw'' ''PC'')) (\<lambda>r.
     and_then (assert_that (r = Inl NotConnected)) (\<lambda>_.
     and_then (attempt (list_devices E)) (\<lambda>r.
     assert_that (r = Inl NotSignedIn)))))"

section \<open>Runs against the server\<close>

lemma test_env_simps [simp]:
  "env_crypto (test_env L D J os) = L" "env_vault (test_env L D J os) = J" "env_discovery (test_env L D J os) = D"
  "env_net (test_env L D J os) = mock_net no_http" "env_store (test_env L D J os) = memory_store"
  "env_os (test_env L D J os) = os"
  by (simp_all add: test_env_def boxed_same)

lemma mock_net_simps:
  "rpc_login (mock_net g) = mock_login" "rpc_bootstrap (mock_net g) = mock_bootstrap"
  "rpc_get_key_material (mock_net g) = mock_get_key_material"
  "rpc_list_my_devices (mock_net g) = mock_list_my_devices"
  "rpc_register_device (mock_net g) = mock_register_device"
  "rpc_revoke_device (mock_net g) = mock_revoke_device"
  "rpc_change_password (mock_net g) = mock_change_password"
  "rpc_get_avatar (mock_net g) = mock_get_avatar" "rpc_set_avatar (mock_net g) = mock_set_avatar"
  "metadata_ok (mock_net g) v"
  by (simp_all add: mock_net_def)

lemma mock_authed: "authed (mock_net g) (session_new c MOCK_TOKEN) = Some (''Bearer '' @ MOCK_TOKEN)"
  by (rule mock_service.authed_issued [OF refl])

lemma mock_token_ok: "require_token (Some (''Bearer '' @ MOCK_TOKEN)) = Inr ()"
  by (simp add: require_token_def)

lemma material_same: "key_material_to_bundle (test_key_material b) = b"
  by (simp add: key_material_to_bundle_def test_key_material_def)

lemma session_channel [simp]: "as_channel (session_new c t) = c" "as_token (session_new c t) = t"
  by (simp_all add: session_new_def)

lemma call_run: "f (host_net h) = (r, n) \<Longrightarrow> call f h = (map_sum Rpc id r, h\<lparr>host_net := n\<rparr>)"
  by (simp add: call_def and_then_def with_net_def lift_result_eq)

lemma mock_login_run:
  "login L (mock_net g) () email pw sk s =
     (map_sum Crypto_Failed
        (\<lambda>ident. \<lparr>li_account = session_new () MOCK_TOKEN, li_user_id = ''u-1'', li_identity = ident\<rparr>)
        (unlock_identity L (key_material_to_bundle (mo_key_material (host_net s))) pw sk), s)"
proof -
  have "session_key_material (mock_net g) (session_new () MOCK_TOKEN) s = (Inr (mo_key_material (host_net s)), s)"
    by (simp add: session_key_material_Inr_iff mock_net_simps mock_authed mock_get_key_material_def mock_token_ok
        del: append.append_Cons)
  moreover have "login_call (mock_net g) () req s = (Inr (Some (Session mock_session)), s)" for req
    by (simp add: login_call_def mock_net_simps mock_login_def)
  moreover have "sm_token mock_session = MOCK_TOKEN" "sm_user_id mock_session = ''u-1''"
    by (simp_all add: mock_session_def)
  ultimately show ?thesis
    by (cases "unlock_identity L (key_material_to_bundle (mo_key_material (host_net s))) pw sk")
       (simp_all add: login_def Let_def and_then_def map_error_def lift_result_eq ret_eq)
qed

text \<open>What caching writes into the in-memory store.\<close>

definition cached_memory :: "vault_lib \<Rightarrow> to_cache \<Rightarrow> memory \<Rightarrow> memory" where
  "cached_memory J data m =
     ((case tc_device_secret data of None \<Rightarrow> id | Some dev \<Rightarrow> (\<lambda>m. m(DEVICE_SECRET \<mapsto> dev)))
       (m(MASTER_KEY \<mapsto> mk_as_bytes (tc_master_key data), SECRET_KEY \<mapsto> sk_as_bytes (tc_secret_key data),
          SESSION_TOKEN \<mapsto> str_bytes (tc_token data))))
     (SERVER_PROFILE \<mapsto> the (profile_json_write J \<lparr>sp_endpoints = tc_endpoints data,
        sp_identity_public = tc_identity_public data, sp_user_id = tc_user_id data\<rparr>))"

lemma persist_memory:
  assumes "\<And>p. profile_json_write J p \<noteq> None"
  shows "persist (test_env L D J os) data s = (Inr (), s\<lparr>cl_store := cached_memory J data (cl_store s)\<rparr>)"
proof -
  obtain b where "profile_json_write J \<lparr>sp_endpoints = tc_endpoints data,
      sp_identity_public = tc_identity_public data, sp_user_id = tc_user_id data\<rparr> = Some b"
    using assms by blast
  then show ?thesis
    by (cases "tc_device_secret data") (simp_all add: persist_unfold memory_ops cached_memory_def)
qed

lemma sign_in_memory:
  assumes "\<And>p. profile_json_write J p \<noteq> None" and "wf_sk sk"
    and "in_channel (cl_inner s) = Some ()" and "in_verified (cl_inner s) = Some v"
  shows "sign_in (test_env L D J os) email pw (Some (sk_display sk)) s =
    (case unlock_identity L (key_material_to_bundle (mo_key_material (host_net s))) pw sk of
       Inl e \<Rightarrow> (Inl CryptoFailed, s)
     | Inr ident \<Rightarrow> (Inr (Success ''u-1''),
         s\<lparr>cl_store := cached_memory J \<lparr>tc_identity_public = identity_public v, tc_user_id = ''u-1'',
              tc_token = MOCK_TOKEN, tc_master_key = ui_master_key ident, tc_secret_key = sk,
              tc_device_secret = None, tc_endpoints = in_endpoints (cl_inner s)\<rparr> (cl_store s),
           cl_inner := (cl_inner s)\<lparr>in_session := Some (session_new () MOCK_TOKEN),
              in_identity := Some ident, in_secret_key := Some sk\<rparr>\<rparr>))"
proof -
  have parsed: "sk_parse (sk_display sk) = Inr sk" using sk_text.dec_enc [OF assms(2)] by simp
  show ?thesis
    using assms(3,4)
    by (cases "unlock_identity L (key_material_to_bundle (mo_key_material (host_net s))) pw sk")
       (simp_all add: sign_in_def resolve_secret_key_def parsed exec_steps get_inner_steps attempt_then
         mock_login_run throw_eq and_then_Inr [OF persist_memory [OF assms(1)]] set_inner_steps ret_eq)
qed

text \<open>The server's answers to an authenticated client; only setting the avatar changes its state.\<close>

lemma mock_calls:
  "session_list_devices (mock_net g) (session_new () MOCK_TOKEN) s = (Inr ds, s') \<longleftrightarrow>
     s' = s \<and> (\<exists>d. ds = [d] \<and> mock_list_my_devices () (Some (''Bearer '' @ MOCK_TOKEN)) () (host_net s) = (Inr [d], host_net s))"
  "session_register_device (mock_net g) (session_new () MOCK_TOKEN) dev s = (Inr d, s') \<longleftrightarrow>
     s' = s \<and> mock_register_device () (Some (''Bearer '' @ MOCK_TOKEN)) (Some dev) (host_net s) = (Inr d, host_net s)"
  "session_revoke_device (mock_net g) (session_new () MOCK_TOKEN) device s = (Inr (), s)"
  "session_key_material (mock_net g) (session_new () MOCK_TOKEN) s = (Inr (mo_key_material (host_net s)), s)"
  "session_change_password (mock_net g) (session_new () MOCK_TOKEN) req s = (Inr (), s) \<longleftrightarrow>
     cp_new_master_key_wrapped req \<noteq> [] \<and> cp_new_kdf_salt req \<noteq> []"
  "session_set_avatar (mock_net g) (session_new () MOCK_TOKEN) blob s =
     (Inr (), s\<lparr>host_net := (host_net s)\<lparr>mo_avatar := Some blob\<rparr>\<rparr>)"
  "session_get_avatar (mock_net g) (session_new () MOCK_TOKEN) s =
     (Inr (if mock_blob (host_net s) = [] then None else Some (mock_blob (host_net s))), s)"
  by (auto simp: session_list_devices_def session_register_device_def session_revoke_device_def
      session_key_material_Inr_iff session_change_password_def session_set_avatar_def session_get_avatar_def
      mock_net_simps mock_authed mock_token_ok mock_list_my_devices_def mock_register_device_def
      mock_revoke_device_def mock_get_key_material_def mock_change_password_def mock_set_avatar_def
      mock_get_avatar_def mock_blob_def and_then_Inr_iff ret_eq simp del: append.append_Cons split: if_splits)

lemma stored_master:
  "m MASTER_KEY = Some (mk_as_bytes mk) \<Longrightarrow> wf_mk mk \<Longrightarrow> vault_master_key memory_store m = (Inr (Some mk), m)"
  by (simp add: memory_getters array32_def wf_mk_def)

lemma stored_secret:
  "m SECRET_KEY = Some (sk_as_bytes sk) \<Longrightarrow> wf_sk sk \<Longrightarrow> vault_secret_key memory_store m = (Inr (Some sk), m)"
  using sk_raw.dec_enc [of sk] by (simp add: memory_getters)

lemma cached_entries:
  "cached_memory J data m MASTER_KEY = Some (mk_as_bytes (tc_master_key data))"
  "cached_memory J data m SECRET_KEY = Some (sk_as_bytes (tc_secret_key data))"
  "cached_memory J data m SESSION_TOKEN = Some (str_bytes (tc_token data))"
  "tc_device_secret data = Some dev \<Longrightarrow> cached_memory J data m DEVICE_SECRET = Some dev"
  "cached_memory J data m SERVER_PROFILE = Some (the (profile_json_write J
     \<lparr>sp_endpoints = tc_endpoints data, sp_identity_public = tc_identity_public data, sp_user_id = tc_user_id data\<rparr>))"
  by (cases "tc_device_secret data"; simp add: cached_memory_def entry_distinct_sym)+

lemma get_avatar_memory:
  assumes "cl_store s MASTER_KEY = Some (mk_as_bytes mk)" and "wf_mk mk"
    and "in_session (cl_inner s) = Some (session_new () MOCK_TOKEN)"
  shows "get_avatar (test_env L D J os) s =
    (if mock_blob (host_net s) = [] then (Inr None, s)
     else (map_sum (\<lambda>_. CryptoFailed) Some (open_with_master L mk (mock_blob (host_net s))), s))"
proof -
  have store: "on_store (vault_master_key memory_store) s = (Inr (Some mk), s)"
    using stored_master [where m = "cl_store s", OF assms(1,2)] by simp
  have session: "current_session s = (Inr (session_new () MOCK_TOKEN), s)" using assms(3) by simp
  have call: "server_call (session_get_avatar (mock_net no_http) (session_new () MOCK_TOKEN)) s =
      (Inr (if mock_blob (host_net s) = [] then None else Some (mock_blob (host_net s))), s)"
    by (simp add: mock_calls)
  show ?thesis
    by (cases "open_with_master L mk (mock_blob (host_net s))")
       (simp_all add: get_avatar_def and_then_def store session call exec_simps)
qed

lemma set_avatar_memory:
  assumes "cl_store s MASTER_KEY = Some (mk_as_bytes mk)" and "wf_mk mk"
    and "in_session (cl_inner s) = Some (session_new () MOCK_TOKEN)"
    and "seal L (mk_as_bytes mk) png (host_rng s) = (Inr blob, r)"
  shows "set_avatar (test_env L D J os) png s =
    (Inr (), s\<lparr>host_rng := r, host_net := (host_net s)\<lparr>mo_avatar := Some blob\<rparr>\<rparr>)"
proof -
  have store: "on_store (vault_master_key memory_store) s = (Inr (Some mk), s)"
    using stored_master [where m = "cl_store s", OF assms(1,2)] by simp
  have sealed: "map_error (\<lambda>_. CryptoFailed) (with_rng (seal_with_master L mk png)) s =
      (Inr blob, s\<lparr>host_rng := r\<rparr>)"
    using assms(4) by (simp add: seal_with_master_def)
  have session: "current_session (s\<lparr>host_rng := r\<rparr>) = (Inr (session_new () MOCK_TOKEN), s\<lparr>host_rng := r\<rparr>)"
    using assms(3) by simp
  have call: "server_call (session_set_avatar (mock_net no_http) (session_new () MOCK_TOKEN) blob) (s\<lparr>host_rng := r\<rparr>) =
      (Inr (), s\<lparr>host_rng := r, host_net := (host_net s)\<lparr>mo_avatar := Some blob\<rparr>\<rparr>)"
    by (simp add: mock_calls)
  show ?thesis
    by (simp add: set_avatar_def and_then_def store exec_simps sealed session call)
qed

text \<open>The common beginning.\<close>

lemma inject_Inr_iff [simp]:
  "inject (test_env L D J os) addr s = (Inr u, s') \<longleftrightarrow>
     s' = s\<lparr>cl_inner := (cl_inner s)\<lparr>in_channel := Some (), in_verified := Some mock_server, in_endpoints := [addr]\<rparr>\<rparr>"
proof -
  have "connect_endpoints (mock_net no_http) [addr] s = (Inr (), s)"
    by (simp add: connect_endpoints_def and_then_Inr_iff with_net_def mock_net_def ret_eq)
  then show ?thesis
    by (auto simp: inject_def and_then_Inr_iff set_inner_def modify_state_eq)
qed

lemma client_setup_Inr_iff [simp]:
  "spawn_mock km s = (Inr u, s') \<longleftrightarrow> s' = s\<lparr>host_net := \<lparr>mo_key_material = km, mo_avatar = None\<rparr>\<rparr>"
  "new_client s = (Inr v, s') \<longleftrightarrow> s' = s\<lparr>cl_store := Map.empty, cl_inner := inner_default\<rparr>"
  by (auto simp: spawn_mock_def new_client_def modify_state_eq memory_new_def)

section \<open>The tests pass\<close>

definition online :: "string \<Rightarrow> test_client \<Rightarrow> bool" where
  "online addr s \<longleftrightarrow> in_channel (cl_inner s) = Some () \<and> in_verified (cl_inner s) = Some mock_server \<and>
     in_endpoints (cl_inner s) = [addr] \<and> cl_store s = Map.empty \<and> mo_avatar (host_net s) = None"

lemma bootstrapped_run:
  assumes "lib_good L"
  obtains boot s1 where "bootstrapped_client (test_env L D J os) addr s = (Inr boot, s1)"
    and "online addr s1" and "mo_key_material (host_net s1) = test_key_material (bo_bundle boot)"
    and "unlock_identity L (bo_bundle boot) ''pw'' (bo_secret_key boot) = Inr (bo_identity boot)"
    and "wf_sk (bo_secret_key boot)" and "wf_mk (ui_master_key (bo_identity boot))"
proof -
  obtain boot where boot: "bootstrap_identity_with_params L ''pw'' fast (host_rng s) = (Inr boot, \<lambda>i. host_rng s (i + 204))"
    "unlock_identity L (bo_bundle boot) ''pw'' (bo_secret_key boot) = Inr (bo_identity boot)"
    using assms by (rule bootstrap_run)
  let ?s1 = "s\<lparr>host_rng := \<lambda>i. host_rng s (i + 204), host_net := \<lparr>mo_key_material = test_key_material (bo_bundle boot), mo_avatar = None\<rparr>,
      cl_store := Map.empty, cl_inner := inner_default\<lparr>in_channel := Some (), in_verified := Some mock_server, in_endpoints := [addr]\<rparr>\<rparr>"
  have run: "bootstrapped_client (test_env L D J os) addr s = (Inr boot, ?s1)"
    using boot(1) by (simp add: bootstrapped_client_def and_then_Inr_iff ret_eq)
  have wf: "wf_sk (bo_secret_key boot)" "wf_mk (ui_master_key (bo_identity boot))"
    by (rule bootstrap_unfold [OF boot(1)], simp add: wf_mk_def KEY_LEN_def)+
  show ?thesis
    by (rule that [OF run _ _ boot(2) wf]) (simp_all add: online_def)
qed

text \<open>Signed in with the bundle the server keeps serving.\<close>

definition signed_in_with :: "bootstrap_output \<Rightarrow> test_client \<Rightarrow> bool" where
  "signed_in_with boot s \<longleftrightarrow>
     in_session (cl_inner s) = Some (session_new () MOCK_TOKEN) \<and>
     cl_store s MASTER_KEY = Some (mk_as_bytes (ui_master_key (bo_identity boot))) \<and>
     cl_store s SECRET_KEY = Some (sk_as_bytes (bo_secret_key boot)) \<and>
     cl_store s SESSION_TOKEN = Some (str_bytes MOCK_TOKEN) \<and>
     mo_key_material (host_net s) = test_key_material (bo_bundle boot) \<and> mo_avatar (host_net s) = None"

lemma signed_in_run:
  assumes "\<And>p. profile_json_write J p \<noteq> None"
    and "online addr s" and "mo_key_material (host_net s) = test_key_material (bo_bundle boot)"
    and "unlock_identity L (bo_bundle boot) ''pw'' (bo_secret_key boot) = Inr (bo_identity boot)"
    and "wf_sk (bo_secret_key boot)"
  obtains s2 where "sign_in (test_env L D J os) ''o@x'' ''pw'' (Some (sk_display (bo_secret_key boot))) s =
      (Inr (Success ''u-1''), s2)"
    and "signed_in_with boot s2"
  using sign_in_memory [OF assms(1,5), of s mock_server L D os "''o@x''" "''pw''"] assms(2-4) that
  by (simp add: online_def material_same signed_in_with_def cached_entries)

lemma token_read: "string_from_utf8 (str_bytes MOCK_TOKEN) = Some MOCK_TOKEN"
  by code_simp

lemma sign_in_test:
  assumes "lib_good L" and "\<And>p. profile_json_write J p \<noteq> None"
  shows "passes (sign_in_unlocks_and_caches (test_env L D J os) addr) s"
proof -
  obtain boot s1 where b: "bootstrapped_client (test_env L D J os) addr s = (Inr boot, s1)"
    and on: "online addr s1" "mo_key_material (host_net s1) = test_key_material (bo_bundle boot)"
      "unlock_identity L (bo_bundle boot) ''pw'' (bo_secret_key boot) = Inr (bo_identity boot)"
      "wf_sk (bo_secret_key boot)"
    using assms(1) by (rule bootstrapped_run)
  obtain s2 where s2: "sign_in (test_env L D J os) ''o@x'' ''pw'' (Some (sk_display (bo_secret_key boot))) s1 =
      (Inr (Success ''u-1''), s2)" "signed_in_with boot s2"
    using assms(2) on by (rule signed_in_run)
  have "vault_secret_key memory_store (cl_store s2) = (Inr (Some (bo_secret_key boot)), cl_store s2)"
    "vault_session_token memory_store (cl_store s2) = (Inr (Some MOCK_TOKEN), cl_store s2)"
    using s2(2) on(4) stored_secret [where m = "cl_store s2"] by (simp_all add: signed_in_with_def memory_getters token_read)
  then show ?thesis
    by (simp add: sign_in_unlocks_and_caches_def passes_then b s2(1))
qed

lemma avatar_test:
  assumes "lib_good L" and "\<And>p. profile_json_write J p \<noteq> None"
  shows "passes (avatar_seals_round_trips_and_decrypts (test_env L D J os) addr) s"
proof -
  obtain boot s1 where b: "bootstrapped_client (test_env L D J os) addr s = (Inr boot, s1)"
    and on: "online addr s1" "mo_key_material (host_net s1) = test_key_material (bo_bundle boot)"
      "unlock_identity L (bo_bundle boot) ''pw'' (bo_secret_key boot) = Inr (bo_identity boot)"
      "wf_sk (bo_secret_key boot)" and mk: "wf_mk (ui_master_key (bo_identity boot))"
    using assms(1) by (rule bootstrapped_run)
  obtain s2 where s2: "sign_in (test_env L D J os) ''o@x'' ''pw'' (Some (sk_display (bo_secret_key boot))) s1 =
      (Inr (Success ''u-1''), s2)" "signed_in_with boot s2"
    using assms(2) on by (rule signed_in_run)
  let ?mk = "ui_master_key (bo_identity boot)"
  obtain blob where blob: "seal L (mk_as_bytes ?mk) TEST_PNG (host_rng s2) = (Inr blob, \<lambda>i. host_rng s2 (i + NONCE_LEN))"
    "open_blob L (mk_as_bytes ?mk) blob = Inr TEST_PNG" "length blob = NONCE_LEN + length TEST_PNG + 16"
    by (rule seal_run [OF assms(1), of "mk_as_bytes ?mk" TEST_PNG "host_rng s2"]) (use mk in \<open>simp_all add: wf_mk_def KEY_LEN_def TEST_PNG_def\<close>)
  then have full: "blob \<noteq> []" by auto
  note st = s2(2) [unfolded signed_in_with_def]
  have none: "get_avatar (test_env L D J os) s2 = (Inr None, s2)"
    using get_avatar_memory [of s2 ?mk L D J os] st mk by (simp add: mock_blob_def)
  have set: "set_avatar (test_env L D J os) TEST_PNG s2 = (Inr (), s2\<lparr>host_rng := \<lambda>i. host_rng s2 (i + NONCE_LEN),
      host_net := (host_net s2)\<lparr>mo_avatar := Some blob\<rparr>\<rparr>)" (is "_ = (_, ?s3)")
    using set_avatar_memory [OF _ mk _ blob(1)] st by blast
  have got: "get_avatar (test_env L D J os) ?s3 = (Inr (Some TEST_PNG), ?s3)"
    using get_avatar_memory [of ?s3 ?mk L D J os] st mk full blob(2) by (simp add: mock_blob_def open_with_master_def)
  show ?thesis
    by (simp add: avatar_seals_round_trips_and_decrypts_def passes_then b s2(1) none set got)
qed

text \<open>
  Changing the password succeeds; with a wrong current password it fails locally exactly when that
  password does not open the bundle.
\<close>

lemma change_password_memory:
  assumes "lib_total L default_kdf_params" and "signed_in_with boot s" and "wf_sk (bo_secret_key boot)"
    and "unlock_identity L (bo_bundle boot) ''pw'' (bo_secret_key boot) = Inr (bo_identity boot)"
    and "wf_mk (ui_master_key (bo_identity boot))"
  obtains r where "change_password (test_env L D J os) ''pw'' new s = (Inr (), s\<lparr>host_rng := r\<rparr>)"
proof -
  note st = assms(2) [unfolded signed_in_with_def]
  have sk: "vault_secret_key memory_store (cl_store s) = (Inr (Some (bo_secret_key boot)), cl_store s)"
    using st assms(3) by (intro stored_secret) simp_all
  obtain rw r where rw: "rewrap_master_key L (ui_master_key (bo_identity boot)) (bo_secret_key boot) new
      default_kdf_params (host_rng s) = (Inr rw, r)"
    using rewrap_total [OF assms(1)] assms(5) unfolding wf_mk_def KEY_LEN_def by metis
  have "mock_change_password () (Some (''Bearer '' @ MOCK_TOKEN))
      \<lparr>cp_current_password = ''pw'', cp_new_password = new, cp_new_master_key_wrapped = rw_master_key_wrapped rw,
       cp_new_kdf_salt = rw_kdf_salt rw, cp_new_kdf_params = rw_kdf_params rw\<rparr> m = (Inr (), m)" for m
    using rewrap_nonempty [OF rw] by (simp add: mock_change_password_def mock_token_ok del: append.append_Cons)
  then have "change_password (test_env L D J os) ''pw'' new s = (Inr (), s\<lparr>host_rng := r\<rparr>)"
    using st sk rw assms(4)
    by (simp add: change_password_Inr_iff mock_net_simps mock_authed mock_get_key_material_def mock_token_ok
        material_same del: append.append_Cons)
  then show ?thesis by (rule that)
qed

lemma change_password_refused:
  assumes "signed_in_with boot s" and "wf_sk (bo_secret_key boot)"
    and "unlock_identity L (bo_bundle boot) old (bo_secret_key boot) = Inl e"
  shows "change_password (test_env L D J os) old new s = (Inl CryptoFailed, s)"
proof -
  note st = assms(1) [unfolded signed_in_with_def]
  have store: "on_store (vault_secret_key memory_store) s = (Inr (Some (bo_secret_key boot)), s)"
    using st assms(2) stored_secret [where m = "cl_store s" and sk = "bo_secret_key boot"] by simp
  have session: "current_session s = (Inr (session_new () MOCK_TOKEN), s)" using st by simp
  have call: "server_call (session_key_material (mock_net no_http) (session_new () MOCK_TOKEN)) s =
      (Inr (mo_key_material (host_net s)), s)"
    by (simp add: mock_calls)
  show ?thesis
    using assms(3) st
    by (simp add: change_password_def and_then_def store session call exec_simps material_to_bundle_eq material_same Let_def)
qed

lemma change_password_test:
  assumes "lib_good L" and "lib_total L default_kdf_params" and "\<And>p. profile_json_write J p \<noteq> None"
    and "\<And>boot s1. bootstrapped_client (test_env L D J os) addr s = (Inr boot, s1) \<Longrightarrow>
      isl (unlock_identity L (bo_bundle boot) ''wrong'' (bo_secret_key boot))"
  shows "passes (change_password_rewraps_and_calls_the_server (test_env L D J os) addr) s"
proof -
  obtain boot s1 where b: "bootstrapped_client (test_env L D J os) addr s = (Inr boot, s1)"
    and on: "online addr s1" "mo_key_material (host_net s1) = test_key_material (bo_bundle boot)"
      "unlock_identity L (bo_bundle boot) ''pw'' (bo_secret_key boot) = Inr (bo_identity boot)"
      "wf_sk (bo_secret_key boot)" and mk: "wf_mk (ui_master_key (bo_identity boot))"
    using assms(1) by (rule bootstrapped_run)
  obtain s2 where s2: "sign_in (test_env L D J os) ''o@x'' ''pw'' (Some (sk_display (bo_secret_key boot))) s1 =
      (Inr (Success ''u-1''), s2)" "signed_in_with boot s2"
    using assms(3) on by (rule signed_in_run)
  obtain r where r: "change_password (test_env L D J os) ''pw'' ''new-pw'' s2 = (Inr (), s2\<lparr>host_rng := r\<rparr>)"
    using assms(2) s2(2) on(4) on(3) mk by (rule change_password_memory)
  obtain e where e: "unlock_identity L (bo_bundle boot) ''wrong'' (bo_secret_key boot) = Inl e"
    using assms(4) [OF b] by (auto simp: isl_def)
  have "signed_in_with boot (s2\<lparr>host_rng := r\<rparr>)" using s2(2) by (simp add: signed_in_with_def)
  from change_password_refused [OF this on(4) e] show ?thesis
    by (simp add: change_password_rewraps_and_calls_the_server_def passes_then b s2(1) r)
qed

lemma wrong_secret_key_test:
  assumes "lib_good L" and "\<And>p. profile_json_write J p \<noteq> None"
    and "bootstrapped_client (test_env L D J os) addr s = (Inr boot, s1)"
  shows "passes (sign_in_wrong_secret_key_fails (test_env L D J os) addr) s \<longleftrightarrow>
    isl (unlock_identity L (bo_bundle boot) ''pw'' (SecretKey (map (host_rng s1) [0..<20])))"
proof -
  have on: "online addr s1 \<and> mo_key_material (host_net s1) = test_key_material (bo_bundle boot)"
    using bootstrapped_run [OF assms(1), of D J os addr s] assms(3) by auto
  let ?s = "s1\<lparr>host_rng := \<lambda>i. host_rng s1 (i + 20)\<rparr>" and ?sk = "SecretKey (map (host_rng s1) [0..<20])"
  have inner: "in_channel (cl_inner ?s) = Some ()" "in_verified (cl_inner ?s) = Some mock_server"
    using on by (simp_all add: online_def)
  note run = sign_in_memory [OF assms(2) generated_wf inner, of L D os "''o@x''" "''pw''" "host_rng s1"]
  have drawn: "sk_generate (host_rng s1) = (Inr ?sk, \<lambda>i. host_rng s1 (i + 20))" by (rule sk_generate_run)
  show ?thesis
    using run on
    by (cases "unlock_identity L (bo_bundle boot) ''pw'' ?sk")
       (simp_all add: sign_in_wrong_secret_key_fails_def passes_then assms(3) drawn material_same del: upt_rec_numeral)
qed

lemma unconnected_tests:
  "passes (restore_without_enrollment_is_none (test_env L D J os)) s"
  "passes (calls_before_connect_or_signin_are_rejected (test_env L D J os)) s"
proof -
  let ?s = "s\<lparr>cl_store := Map.empty, cl_inner := inner_default\<rparr>"
  have absent: "on_store (vault_server_profile J memory_store) ?s = (Inr None, ?s)"
    by (simp add: memory_getters)
  have "restore (test_env L D J os) ?s = (Inr None, ?s)"
    by (simp add: restore_def and_then_def absent ret_eq)
  then show "passes (restore_without_enrollment_is_none (test_env L D J os)) s"
    by (simp add: restore_without_enrollment_is_none_def passes_then)
  have "in_session (cl_inner ?s) = None" "in_channel (cl_inner ?s) = None" by (simp_all add: inner_default_def)
  then have "create_owner (test_env L D J os) e n p l ?s = (Inl NotConnected, ?s)"
    "list_devices (test_env L D J os) ?s = (Inl NotSignedIn, ?s)" for e n p l
    by (simp_all add: create_owner_def get_inner_steps exec_steps throw_eq list_devices_def and_then_Inl_iff)
  then show "passes (calls_before_connect_or_signin_are_rejected (test_env L D J os)) s"
    by (simp add: calls_before_connect_or_signin_are_rejected_def passes_then)
qed

lemma create_owner_memory:
  assumes "lib_total L default_kdf_params" and "\<And>p. profile_json_write J p \<noteq> None"
    and "in_channel (cl_inner s) = Some ()" and "in_verified (cl_inner s) = Some v"
  obtains sk data r s2 where
    "create_owner (test_env L D J os) email name pw label s =
       (Inr \<lparr>en_user_id = ''u-1'', en_secret_key = sk_display sk\<rparr>, s2)"
    and "wf_sk sk" and "wf_mk (tc_master_key data)" and "tc_secret_key data = sk" and "tc_token data = MOCK_TOKEN"
    and "tc_device_secret data = Some (map r [0..<KEY_LEN])"
    and "cl_store s2 = cached_memory J data (cl_store s)"
    and "in_session (cl_inner s2) = Some (session_new () MOCK_TOKEN)"
proof -
  obtain boot where boot: "bootstrap_identity_with_params L pw default_kdf_params (host_rng s) = (Inr boot, \<lambda>i. host_rng s (i + 204))"
    using bootstrap_total [OF assms(1)] by blast
  let ?r = "\<lambda>i. host_rng s (i + 204)"
  have wf: "wf_sk (bo_secret_key boot)" "wf_mk (ui_master_key (bo_identity boot))"
    by (rule bootstrap_unfold [OF boot], simp add: wf_mk_def KEY_LEN_def)+
  let ?data = "\<lparr>tc_identity_public = identity_public v, tc_user_id = ''u-1'', tc_token = MOCK_TOKEN,
     tc_master_key = ui_master_key (bo_identity boot), tc_secret_key = bo_secret_key boot,
     tc_device_secret = Some (map ?r [0..<KEY_LEN]), tc_endpoints = in_endpoints (cl_inner s)\<rparr>"
  let ?s1 = "s\<lparr>host_rng := \<lambda>i. ?r (i + KEY_LEN), host_net := host_net s\<rparr>"
  let ?s2 = "?s1\<lparr>cl_store := cached_memory J ?data (cl_store s), cl_inner := (cl_inner s)
     \<lparr>in_session := Some (session_new () MOCK_TOKEN), in_identity := Some (bo_identity boot),
      in_secret_key := Some (bo_secret_key boot)\<rparr>\<rparr>"
  have tok: "sm_token mock_session = MOCK_TOKEN" "sm_user_id mock_session = ''u-1''" by (simp_all add: mock_session_def)
  have rpc: "rpc_bootstrap (mock_net no_http) () None req m = (Inr mock_session, m)" for req m
    by (simp add: mock_net_simps mock_bootstrap_def)
  have en: "enroll_new_owner L (mock_net no_http) () owner s =
      (Inr \<lparr>eo_account = session_new () MOCK_TOKEN, eo_user_id = ''u-1'', eo_secret_key = bo_secret_key boot,
         eo_identity = bo_identity boot, eo_device_public = x25519_public L (map ?r [0..<KEY_LEN]),
         eo_device_secret = map ?r [0..<KEY_LEN]\<rparr>, ?s1)" if "no_password owner = pw" for owner
    by (simp add: enroll_new_owner_def enroll_Inr_iff that boot keypair_runs rpc tok)
  have run: "create_owner (test_env L D J os) email name pw label s =
      (Inr \<lparr>en_user_id = ''u-1'', en_secret_key = sk_display (bo_secret_key boot)\<rparr>, ?s2)"
    using assms(3,4) by (simp add: create_owner_Inr_iff en persist_memory [OF assms(2)])
  show ?thesis
    by (rule that [OF run wf(1), where data = ?data and r = ?r]) (simp_all add: wf)
qed

lemma device_runs:
  assumes "in_session (cl_inner s) = Some (session_new () MOCK_TOKEN)"
  shows "\<exists>d. list_devices (test_env L D J os) s = (Inr [d], s) \<and> di_label d = PC_LABEL"
    and "\<exists>d. enroll_this_device (test_env L D J os) label s =
      (Inr d, s\<lparr>host_rng := \<lambda>i. host_rng s (i + KEY_LEN), cl_store := (cl_store s)(DEVICE_SECRET \<mapsto> map (host_rng s) [0..<KEY_LEN])\<rparr>) \<and> di_label d = label"
    and "revoke_device (test_env L D J os) device s = (Inr (), s)"
proof -
  show "\<exists>d. list_devices (test_env L D J os) s = (Inr [d], s) \<and> di_label d = PC_LABEL"
    using assms by (simp add: list_devices_def and_then_Inr_iff ret_eq mock_calls mock_list_my_devices_def mock_token_ok
        to_device_info_def PC_LABEL_def del: append.append_Cons)
  show "\<exists>d. enroll_this_device (test_env L D J os) label s =
      (Inr d, s\<lparr>host_rng := \<lambda>i. host_rng s (i + KEY_LEN), cl_store := (cl_store s)(DEVICE_SECRET \<mapsto> map (host_rng s) [0..<KEY_LEN])\<rparr>) \<and> di_label d = label"
    using assms by (simp add: enroll_this_device_def and_then_Inr_iff ret_eq mock_calls mock_register_device_def
        mock_token_ok to_device_info_def keypair_runs memory_ops del: append.append_Cons)
  show "revoke_device (test_env L D J os) device s = (Inr (), s)"
    using assms by (simp add: revoke_device_def and_then_Inr_iff ret_eq mock_calls)
qed

lemma leave_runs:
  "sign_out (test_env L D J os) s =
     (Inr (), s\<lparr>cl_store := (cl_store s)(SESSION_TOKEN := None, MASTER_KEY := None), cl_inner := inner_default\<rparr>)"
  "forget_server (test_env L D J os) s =
     (Inr (), s\<lparr>cl_store := (cl_store s)(MASTER_KEY := None, SECRET_KEY := None, DEVICE_SECRET := None,
        SESSION_TOKEN := None, SERVER_PROFILE := None), cl_inner := inner_default\<rparr>)"
  by (simp_all add: sign_out_def forget_server_def and_then_Inr_iff ret_eq memory_ops set_inner_def modify_state_eq)

lemma create_owner_test:
  assumes "lib_total L default_kdf_params" and "profile_json_sound J" and "\<And>p. profile_json_write J p \<noteq> None"
  shows "passes (create_owner_caches_state_and_manages_devices (test_env L D J os) addr) s"
proof -
  let ?s0 = "s\<lparr>host_net := \<lparr>mo_key_material = default_key_material, mo_avatar = None\<rparr>, cl_store := Map.empty,
     cl_inner := inner_default\<lparr>in_channel := Some (), in_verified := Some mock_server, in_endpoints := [addr]\<rparr>\<rparr>"
  have on: "in_channel (cl_inner ?s0) = Some ()" "in_verified (cl_inner ?s0) = Some mock_server" by simp_all
  obtain sk data r s2 where c: "create_owner (test_env L D J os) ''o@x'' ''Olivia'' ''pw'' PC_LABEL ?s0 =
       (Inr \<lparr>en_user_id = ''u-1'', en_secret_key = sk_display sk\<rparr>, s2)"
    and sk: "wf_sk sk" and mk: "wf_mk (tc_master_key data)" and data: "tc_secret_key data = sk"
      "tc_token data = MOCK_TOKEN" "tc_device_secret data = Some (map r [0..<KEY_LEN])"
    and st: "cl_store s2 = cached_memory J data (cl_store ?s0)"
    and ses: "in_session (cl_inner s2) = Some (session_new () MOCK_TOKEN)"
    using assms(1,3) on by (rule create_owner_memory)
  let ?m = "cached_memory J data (cl_store ?s0)"
  note entries = cached_entries(1-3,5) [of J data "cl_store ?s0"] cached_entries(4) [OF data(3), of J "cl_store ?s0"]
  obtain b prof where prof: "?m SERVER_PROFILE = Some b" "profile_json_read J b = Some prof"
    using entries(4) assms(2,3) unfolding profile_json_sound_def by (metis option.exhaust_sel option.sel)
  have reads: "vault_master_key memory_store ?m = (Inr (Some (tc_master_key data)), ?m)"
    "vault_secret_key memory_store ?m = (Inr (Some sk), ?m)"
    "vault_session_token memory_store ?m = (Inr (Some MOCK_TOKEN), ?m)"
    "vault_device_secret memory_store ?m = (Inr (Some (map r [0..<KEY_LEN])), ?m)"
    "vault_server_profile J memory_store ?m = (Inr (Some prof), ?m)"
    using entries prof mk sk data stored_master [where m = ?m] stored_secret [where m = ?m]
    by (simp_all add: memory_getters token_read array32_def KEY_LEN_def del: upt_rec_numeral)
  obtain d where d: "list_devices (test_env L D J os) s2 = (Inr [d], s2)" "di_label d = PC_LABEL"
    using device_runs(1) [OF ses] by blast
  obtain d2 s3 where d2: "enroll_this_device (test_env L D J os) ''Laptop'' s2 = (Inr d2, s3)" "di_label d2 = ''Laptop''"
    and s3: "cl_store s3 = ?m(DEVICE_SECRET \<mapsto> map (host_rng s2) [0..<KEY_LEN])" "cl_inner s3 = cl_inner s2"
    using device_runs(2) [OF ses] st by fastforce
  have revoked: "revoke_device (test_env L D J os) ''dev-1'' s3 = (Inr (), s3)"
    using device_runs(3) ses s3(2) by simp
  obtain s4 where s4: "sign_out (test_env L D J os) s3 = (Inr (), s4)"
    "cl_store s4 = (cl_store s3)(SESSION_TOKEN := None, MASTER_KEY := None)"
    using leave_runs(1) by force
  have out: "vault_master_key memory_store (cl_store s4) = (Inr None, cl_store s4)"
    "vault_session_token memory_store (cl_store s4) = (Inr None, cl_store s4)"
    "vault_secret_key memory_store (cl_store s4) = (Inr (Some sk), cl_store s4)"
    "vault_server_profile J memory_store (cl_store s4) = (Inr (Some prof), cl_store s4)"
    using entries prof sk data stored_secret [where m = "cl_store s4"] s3 s4(2)
    by (simp_all add: memory_getters entry_distinct_sym)
  obtain s5 where s5: "forget_server (test_env L D J os) s4 = (Inr (), s5)"
    "cl_store s5 SECRET_KEY = None" "cl_store s5 SERVER_PROFILE = None"
    using leave_runs(2) [of L D J os s4] by (force simp: entry_distinct_sym)
  have wiped: "vault_secret_key memory_store (cl_store s5) = (Inr None, cl_store s5)"
    "vault_server_profile J memory_store (cl_store s5) = (Inr None, cl_store s5)"
    using s5 by (simp_all add: memory_getters)
  have stays: "on_store (vault_master_key memory_store) s2 = (Inr (Some (tc_master_key data)), s2)"
    "on_store (vault_secret_key memory_store) s2 = (Inr (Some sk), s2)"
    "on_store (vault_session_token memory_store) s2 = (Inr (Some MOCK_TOKEN), s2)"
    "on_store (vault_device_secret memory_store) s2 = (Inr (Some (map r [0..<KEY_LEN])), s2)"
    "on_store (vault_server_profile J memory_store) s2 = (Inr (Some prof), s2)"
    "on_store (vault_master_key memory_store) s4 = (Inr None, s4)"
    "on_store (vault_session_token memory_store) s4 = (Inr None, s4)"
    "on_store (vault_secret_key memory_store) s4 = (Inr (Some sk), s4)"
    "on_store (vault_server_profile J memory_store) s4 = (Inr (Some prof), s4)"
    "on_store (vault_secret_key memory_store) s5 = (Inr None, s5)"
    "on_store (vault_server_profile J memory_store) s5 = (Inr None, s5)"
    using reads [folded st] out wiped by (simp_all del: upt_rec_numeral)
  show ?thesis
    using display_groups [OF sk]
    by (simp add: create_owner_caches_state_and_manages_devices_def Let_def passes_then c stays d d2
        revoked s4(1) s5(1) del: on_store_Inr_iff)
qed

text \<open>
  Property C26: the facade tests pass against their server, for every sound library: creating an owner
  caches every item and gives a session with which devices are listed, added and revoked, signing out
  and forgetting take the items they should; signing in unlocks and caches; the avatar round-trips
  sealed; without an enrollment nothing is restored, and calls before connecting or signing in are refused.
\<close>

theorem facade_tests_pass:
  assumes "lib_good L" and "lib_total L default_kdf_params" and "profile_json_sound J"
    and "\<And>p. profile_json_write J p \<noteq> None"
  shows "passes (create_owner_caches_state_and_manages_devices (test_env L D J os) addr) s \<and>
    passes (sign_in_unlocks_and_caches (test_env L D J os) addr) s \<and>
    passes (avatar_seals_round_trips_and_decrypts (test_env L D J os) addr) s \<and>
    passes (restore_without_enrollment_is_none (test_env L D J os)) s \<and>
    passes (calls_before_connect_or_signin_are_rejected (test_env L D J os)) s"
  by (intro conjI create_owner_test [OF assms(2-4)] sign_in_test [OF assms(1,4)] avatar_test [OF assms(1,4)]
      unconnected_tests)

theorem facade_tests_pass_witness:
  "passes (create_owner_caches_state_and_manages_devices (test_env sample_lib sample_discovery total_profiles ''linux'')
      ''http://127.0.0.1:50051'')
     \<lparr>host_rng = of_nat, host_net = \<lparr>mo_key_material = default_key_material, mo_avatar = None\<rparr>,
      cl_store = Map.empty, cl_inner = inner_default\<rparr>"
  using facade_tests_pass [OF sample_lib_good sample_lib_total total_profiles_sound]
  by (simp add: total_profiles_def)

end
