(* ===== verification/Sync_Proto.thy ===== *)
theory Sync_Proto
  imports Prelude "HOL-Library.AList"
begin

text \<open>
  \<open>src/bin/sync-proto.rs\<close>: the tool that copies the protocol files of the server's checkout over the
  crate's. A directory is the list of its entries in the order the system lists them. A copy fails
  where a file and a directory of one name meet; other failures of the file system and symbolic links
  are not modelled, and the two directories are not inside one another.
\<close>

datatype node = File bytes | Dir "(string \<times> node) list"

type_synonym entries = "(string \<times> node) list"

datatype io_error = Is_A_Directory | Not_A_Directory

datatype sync_error = Source_Missing | Io io_error

text \<open>\<open>create_dir_all\<close> on what is at the target's place, and \<open>fs::copy\<close> into a directory.\<close>

definition create_dir_all :: "node option \<Rightarrow> io_error + entries" where
  "create_dir_all target =
     (case target of
        None \<Rightarrow> Inr []
      | Some (Dir es) \<Rightarrow> Inr es
      | Some (File _) \<Rightarrow> Inl Not_A_Directory)"

definition copy_file :: "bytes \<Rightarrow> string \<Rightarrow> entries \<Rightarrow> io_error + entries" where
  "copy_file contents name target =
     (case map_of target name of
        Some (Dir _) \<Rightarrow> Inl Is_A_Directory
      | _ \<Rightarrow> Inr (AList.update name (File contents) target))"

text \<open>
  The loop of \<open>copy_dir\<close> on the entries of the source; the result is the target directory as it is
  left, with the error that ended the copy if any.
\<close>

fun copy_entries :: "entries \<Rightarrow> entries \<Rightarrow> io_error option \<times> entries" where
  "copy_entries [] target = (None, target)"
| "copy_entries ((name, File contents) # rest) target =
     (case copy_file contents name target of
        Inl e \<Rightarrow> (Some e, target)
      | Inr target' \<Rightarrow> copy_entries rest target')"
| "copy_entries ((name, Dir sub) # rest) target =
     (case create_dir_all (map_of target name) of
        Inl e \<Rightarrow> (Some e, target)
      | Inr inside \<Rightarrow>
          (case copy_entries sub inside of
             (Some e, inside') \<Rightarrow> (Some e, AList.update name (Dir inside') target)
           | (None, inside') \<Rightarrow> copy_entries rest (AList.update name (Dir inside') target)))"

text \<open>The tool: the source must be a directory; the target is created when it is missing.\<close>

definition sync_main :: "node option \<Rightarrow> node option \<Rightarrow> (sync_error option) \<times> node option" where
  "sync_main source target =
     (case source of
        Some (Dir es) \<Rightarrow>
          (case create_dir_all target of
             Inl e \<Rightarrow> (Some (Io e), target)
           | Inr inside \<Rightarrow>
               (case copy_entries es inside of (r, inside') \<Rightarrow> (map_option Io r, Some (Dir inside'))))
      | _ \<Rightarrow> (Some Source_Missing, target))"

section \<open>The copy merges\<close>

text \<open>Directories have one entry of a name.\<close>

fun one_of_each :: "entries \<Rightarrow> bool" where
  "one_of_each [] = True"
| "one_of_each ((name, File contents) # rest) = (name \<notin> fst ` set rest \<and> one_of_each rest)"
| "one_of_each ((name, Dir sub) # rest) = (name \<notin> fst ` set rest \<and> one_of_each sub \<and> one_of_each rest)"

text \<open>The contents of the file at a path.\<close>

fun file_at :: "entries \<Rightarrow> string list \<Rightarrow> bytes option" where
  "file_at es [] = None"
| "file_at es (name # path) =
     (case map_of es name of
        None \<Rightarrow> None
      | Some (File contents) \<Rightarrow> (if path = [] then Some contents else None)
      | Some (Dir sub) \<Rightarrow> file_at sub path)"

lemma file_at_update:
  "file_at (AList.update name x target) (n # path) = (if n = name then file_at [(name, x)] (n # path) else file_at target (n # path))"
  by (simp add: update_conv)

lemma file_at_Cons:
  "name \<notin> fst ` set rest \<Longrightarrow>
     file_at ((name, x) # rest) (n # path) = (if n = name then file_at [(name, x)] (n # path) else file_at rest (n # path))"
  by simp

lemma file_at_absent: "name \<notin> fst ` set rest \<Longrightarrow> file_at rest (name # path) = None"
  by (simp add: map_of_eq_None_iff [THEN iffD2])

lemma file_at_Nil: "file_at [] path = None"
  by (cases path) simp_all

lemma file_at_created:
  "create_dir_all (map_of target name) = Inr inside \<Longrightarrow> file_at target (name # path) = file_at inside path"
  by (auto simp: create_dir_all_def file_at_Nil split: option.splits node.splits)

lemma file_at_no_dir:
  "\<nexists>sub. map_of target name = Some (Dir sub) \<Longrightarrow> path \<noteq> [] \<Longrightarrow> file_at target (name # path) = None"
  by (auto split: option.split node.split)

text \<open>One step of the copy: what a merge of the rest gives is a merge of the whole.\<close>

lemma merge_file:
  assumes "copy_file contents name target = Inr t" and absent: "name \<notin> fst ` set rest"
    and "\<And>path. file_at target' path = (case file_at rest path of None \<Rightarrow> file_at t path | Some c \<Rightarrow> Some c)"
  shows "file_at target' path =
    (case file_at ((name, File contents) # rest) path of None \<Rightarrow> file_at target path | Some c \<Rightarrow> Some c)"
proof (cases path)
  case (Cons n p)
  have t: "t = AList.update name (File contents) target" and no_dir: "\<nexists>sub. map_of target name = Some (Dir sub)"
    using assms(1) by (auto simp: copy_file_def split: option.split_asm node.split_asm)
  show ?thesis
  proof (cases "n = name")
    case True
    then have path: "path = name # p" using Cons by simp
    have "file_at ((name, File contents) # rest) (name # p) = (if p = [] then Some contents else None)"
      and "file_at t (name # p) = (if p = [] then Some contents else None)"
      by (simp_all add: t update_conv)
    then show ?thesis
      unfolding path using assms(3) [of path] file_at_absent [OF absent, of p] file_at_no_dir [OF no_dir, of p]
      by (cases "p = []") (simp_all add: path del: file_at.simps(2))
  qed (simp add: assms(3) Cons t file_at_update file_at_Cons [OF absent] del: file_at.simps(2) cong: option.case_cong)
qed (simp add: assms(3))

lemma merge_dir:
  assumes "create_dir_all (map_of target name) = Inr inside" and absent: "name \<notin> fst ` set rest"
    and "\<And>path. file_at inside' path = (case file_at sub path of None \<Rightarrow> file_at inside path | Some c \<Rightarrow> Some c)"
    and "\<And>path. file_at target' path =
      (case file_at rest path of None \<Rightarrow> file_at (AList.update name (Dir inside') target) path | Some c \<Rightarrow> Some c)"
  shows "file_at target' path =
    (case file_at ((name, Dir sub) # rest) path of None \<Rightarrow> file_at target path | Some c \<Rightarrow> Some c)"
proof (cases path)
  case (Cons n p)
  show ?thesis
  proof (cases "n = name")
    case True
    have "file_at [(name, Dir es)] (name # p) = file_at es p" for es by simp
    with True show ?thesis
      using assms(4) [of path] file_at_absent [OF absent, of p] file_at_created [OF assms(1), of p] assms(3) [of p]
      by (simp add: Cons file_at_update file_at_Cons [OF absent] del: file_at.simps(2) cong: option.case_cong)
  qed (simp add: assms(4) Cons file_at_update file_at_Cons [OF absent] del: file_at.simps(2) cong: option.case_cong)
qed (simp add: assms(4))

text \<open>
  A copy that succeeds has every file of the source, and leaves every other file of the target.
\<close>

lemma copy_merges:
  assumes "copy_entries source target = (None, target')" and "one_of_each source"
  shows "file_at target' path = (case file_at source path of None \<Rightarrow> file_at target path | Some c \<Rightarrow> Some c)"
  using assms
proof (induction source target arbitrary: target' path rule: copy_entries.induct)
  case (1 target)
  then show ?case by (simp add: file_at_Nil)
next
  case (2 name contents rest target)
  obtain t where t: "copy_file contents name target = Inr t"
    using 2(2) by (auto split: sum.split_asm)
  then show ?case by (rule merge_file) (use 2 t in simp_all)
next
  case (3 name sub rest target)
  obtain inside where inside: "create_dir_all (map_of target name) = Inr inside"
    using 3(3) by (auto split: sum.split_asm)
  obtain inside' where inner: "copy_entries sub inside = (None, inside')"
    using 3(3) inside by (auto split: prod.split_asm option.split_asm)
  have "copy_entries rest (AList.update name (Dir inside') target) = (None, target')"
    using 3(3) inside inner by simp
  with inside show ?case
    using 3(1) [OF inside inner] 3(2) [OF inside inner [symmetric] refl] 3(4) by (intro merge_dir) simp_all
qed

text \<open>Syncing twice is syncing once: the second copy changes no file.\<close>

lemma copy_again:
  assumes "copy_entries source target = (None, target')" and "copy_entries source target' = (None, target'')"
    and "one_of_each source"
  shows "file_at target'' path = file_at target' path"
  using copy_merges [OF assms(1,3), of path] copy_merges [OF assms(2,3), of path]
  by (simp split: option.split)

end
