(* ===== verification/Gen_Bindings.thy ===== *)
theory Gen_Bindings
  imports Prelude "HOL-Library.Sublist"
begin

text \<open>
  \<open>src/bin/gen-bindings.rs\<close>: the tool that builds the native library, has \<open>uniffi-bindgen-cs\<close> write the
  C# bindings and copies the library beside them. The operating system (processes, the file system,
  the terminal) is the record \<open>system\<close>; paths are Unix paths. Arguments that are not Unicode are not
  modelled.
\<close>

section \<open>Paths, commands and the operating system\<close>

type_synonym path = string

text \<open>\<open>PathBuf::join\<close>: an absolute path replaces, any other is appended after a separator.\<close>

definition path_join :: "path \<Rightarrow> path \<Rightarrow> path" where
  "path_join p q =
     (if q \<noteq> [] \<and> hd q = CHR ''/'' then q
      else if p \<noteq> [] \<and> last p \<noteq> CHR ''/'' then p @ CHR ''/'' # q
      else p @ q)"

text \<open>\<open>std::process::Command\<close> and \<open>ExitStatus\<close>.\<close>

record command =
  cmd_program :: string
  cmd_args :: "string list"
  cmd_current_dir :: "path option"

datatype exit_status = Exited int | Signalled int

fun success :: "exit_status \<Rightarrow> bool" where
  "success (Exited code) = (code = 0)"
| "success (Signalled _) = False"

definition command_new :: "string \<Rightarrow> command" where
  "command_new program = \<lparr>cmd_program = program, cmd_args = [], cmd_current_dir = None\<rparr>"

definition cmd_with :: "string list \<Rightarrow> command \<Rightarrow> command" where
  "cmd_with extra cmd = cmd\<lparr>cmd_args := cmd_args cmd @ extra\<rparr>"

record ('w, 'i) system =
  sys_output :: "command \<Rightarrow> ('w, 'i, exit_status) exec"
  sys_status :: "command \<Rightarrow> ('w, 'i, exit_status) exec"
  sys_exists :: "path \<Rightarrow> 'w \<Rightarrow> bool \<times> 'w"
  sys_create_dir_all :: "path \<Rightarrow> ('w, 'i, unit) exec"
  sys_copy :: "path \<Rightarrow> path \<Rightarrow> ('w, 'i, unit) exec"
  sys_println :: "string \<Rightarrow> 'w \<Rightarrow> 'w"

datatype 'i gen_error =
    Needs_Value
  | Unknown_Argument string
  | Tool_Not_Found
  | Command_Failed exit_status command
  | Library_Not_Found path
  | Gen_Io 'i

section \<open>The tool\<close>

definition println :: "('w, 'i) system \<Rightarrow> string \<Rightarrow> ('w, 'i gen_error, unit) exec" where
  "println S line = modify_state (sys_println S line)"

text \<open>The loop over the arguments.\<close>

fun gen_args :: "string list \<Rightarrow> path \<Rightarrow> bool \<Rightarrow> 'i gen_error + path \<times> bool" where
  "gen_args [] out_dir release = Inr (out_dir, release)"
| "gen_args (arg # args) out_dir release =
     (if arg = ''--out-dir'' then
        (case args of
           [] \<Rightarrow> Inl Needs_Value
         | value # rest \<Rightarrow> gen_args rest value release)
      else if arg = ''--release'' then gen_args args out_dir True
      else Inl (Unknown_Argument arg))"

definition ensure_tool :: "('w, 'i) system \<Rightarrow> ('w, 'i gen_error, unit) exec" where
  "ensure_tool S =
     and_then (attempt (sys_output S (cmd_with [''--version''] (command_new ''uniffi-bindgen-cs'')))) (\<lambda>r.
     if isl r then throw Tool_Not_Found else ret ())"

definition run_command :: "('w, 'i) system \<Rightarrow> command \<Rightarrow> ('w, 'i gen_error, unit) exec" where
  "run_command S cmd =
     and_then (map_error Gen_Io (sys_status S cmd)) (\<lambda>status.
     if \<not> success status then throw (Command_Failed status cmd) else ret ())"

definition default_out_dir :: "path \<Rightarrow> path" where
  "default_out_dir crate_dir =
     path_join (path_join (path_join (path_join crate_dir ''..'') ''sylva-client'') ''bindings'') ''csharp''"

definition profile_name :: "bool \<Rightarrow> string" where
  "profile_name release = (if release then ''release'' else ''debug'')"

definition build_command :: "path \<Rightarrow> bool \<Rightarrow> command" where
  "build_command crate_dir release =
     (let build = cmd_with [''build'', ''--features'', ''ffi'', ''--lib'']
                    ((command_new ''cargo'')\<lparr>cmd_current_dir := Some crate_dir\<rparr>)
      in if release then cmd_with [''--release''] build else build)"

definition lib_path :: "path \<Rightarrow> bool \<Rightarrow> string \<Rightarrow> path" where
  "lib_path crate_dir release lib_name =
     path_join (path_join (path_join crate_dir ''target'') (profile_name release)) lib_name"

definition require_library :: "('w, 'i) system \<Rightarrow> path \<Rightarrow> ('w, 'i gen_error, unit) exec" where
  "require_library S lib w =
     (case sys_exists S lib w of
        (there, w') \<Rightarrow> if \<not> there then throw (Library_Not_Found lib) w' else ret () w')"

definition bindgen_command :: "path \<Rightarrow> path \<Rightarrow> command" where
  "bindgen_command lib out_dir =
     cmd_with [out_dir] (cmd_with [''--out-dir''] (cmd_with [lib] (cmd_with [''--library'']
       (command_new ''uniffi-bindgen-cs''))))"

definition gen_main ::
  "('w, 'i) system \<Rightarrow> path \<Rightarrow> string \<Rightarrow> string \<Rightarrow> string list \<Rightarrow> ('w, 'i gen_error, unit) exec" where
  "gen_main S crate_dir dll_prefix dll_suffix argv =
     and_then (lift_result (gen_args (drop 1 argv) (default_out_dir crate_dir) False)) (\<lambda>(out_dir, release).
     and_then (ensure_tool S) (\<lambda>_.
     and_then (println S (''Building sylva-sdk cdylib ('' @ profile_name release @ '')...'')) (\<lambda>_.
     and_then (run_command S (build_command crate_dir release)) (\<lambda>_.
       (let lib_name = dll_prefix @ ''sylva_sdk'' @ dll_suffix;
            lib = lib_path crate_dir release lib_name in
     and_then (require_library S lib) (\<lambda>_.
     and_then (map_error Gen_Io (sys_create_dir_all S out_dir)) (\<lambda>_.
     and_then (println S (''Generating C# bindings -> '' @ out_dir)) (\<lambda>_.
     and_then (run_command S (bindgen_command lib out_dir)) (\<lambda>_.
     and_then (map_error Gen_Io (sys_copy S lib (path_join out_dir lib_name))) (\<lambda>_.
     println S (''Done: sylva_sdk.cs + '' @ lib_name @ '' in '' @ out_dir)))))))))))"

section \<open>The arguments\<close>

datatype option_given = Out_Dir path | Release

fun written :: "option_given \<Rightarrow> string list" where
  "written (Out_Dir d) = [''--out-dir'', d]"
| "written Release = [''--release'']"

text \<open>The last directory counts.\<close>

fun chosen_dir :: "option_given list \<Rightarrow> path \<Rightarrow> path" where
  "chosen_dir [] d = d"
| "chosen_dir (Out_Dir d' # os) d = chosen_dir os d'"
| "chosen_dir (Release # os) d = chosen_dir os d"

lemma gen_args_written:
  "gen_args (concat (map written os)) d r = Inr (chosen_dir os d, r \<or> Release \<in> set os)"
  by (induction os d arbitrary: r rule: chosen_dir.induct) auto

text \<open>Exactly the written options are accepted.\<close>

lemma gen_args_accepts:
  "gen_args args d r = Inr (out, rel) \<longleftrightarrow>
     (\<exists>os. args = concat (map written os) \<and> out = chosen_dir os d \<and> (rel \<longleftrightarrow> r \<or> Release \<in> set os))"
  (is "?parsed args d r \<longleftrightarrow> ?given args d r")
proof
  show "?parsed args d r \<Longrightarrow> ?given args d r"
  proof (induction args d r rule: gen_args.induct)
    case (1 d r)
    then show ?case by (auto intro: exI [of _ "[]"])
  next
    case (2 arg args d r)
    then consider (dir) v rest where "arg = ''--out-dir''" "args = v # rest" "?parsed rest v r"
      | (rel) "arg = ''--release''" "?parsed args d True"
      by (auto split: list.split_asm if_split_asm)
    then show ?case
    proof cases
      case (dir v rest)
      with 2(1) obtain os where "rest = concat (map written os)" "out = chosen_dir os v"
        "rel \<longleftrightarrow> r \<or> Release \<in> set os" by blast
      with dir show ?thesis by (intro exI [of _ "Out_Dir v # os"]) simp
    next
      case rel
      with 2(2) obtain os where "args = concat (map written os)" "out = chosen_dir os d"
        "rel \<longleftrightarrow> True \<or> Release \<in> set os" by auto
      with rel show ?thesis by (intro exI [of _ "Release # os"]) simp
    qed
  qed
qed (auto simp: gen_args_written)

section \<open>The order of the actions\<close>

text \<open>
  What a run did: every action on the operating system, and whether it succeeded. The same tool runs
  on a system that keeps this record beside its state.
\<close>

datatype action =
    Asked command
  | Ran command
  | Looked_For path
  | Made_Dir path
  | Copied path path
  | Printed string

type_synonym log = "(action \<times> bool) list"

definition logged :: "action \<Rightarrow> ('r \<Rightarrow> bool) \<Rightarrow> ('w \<Rightarrow> 'r \<times> 'w) \<Rightarrow> 'w \<times> log \<Rightarrow> 'r \<times> ('w \<times> log)" where
  "logged a good m = (\<lambda>(w, l). case m w of (r, w') \<Rightarrow> (r, (w', l @ [(a, good r)])))"

fun succeeded :: "'i + exit_status \<Rightarrow> bool" where
  "succeeded (Inl _) = False"
| "succeeded (Inr status) = success status"

definition logging :: "('w, 'i) system \<Rightarrow> ('w \<times> log, 'i) system" where
  "logging S =
     \<lparr>sys_output = (\<lambda>c. logged (Asked c) (\<lambda>r. \<not> isl r) (sys_output S c)),
      sys_status = (\<lambda>c. logged (Ran c) succeeded (sys_status S c)),
      sys_exists = (\<lambda>p. logged (Looked_For p) (\<lambda>there. there) (sys_exists S p)),
      sys_create_dir_all = (\<lambda>p. logged (Made_Dir p) (\<lambda>r. \<not> isl r) (sys_create_dir_all S p)),
      sys_copy = (\<lambda>p q. logged (Copied p q) (\<lambda>r. \<not> isl r) (sys_copy S p q)),
      sys_println = (\<lambda>line (w, l). (sys_println S line w, l @ [(Printed line, True)]))\<rparr>"

definition gen_plan :: "path \<Rightarrow> string \<Rightarrow> string \<Rightarrow> path \<Rightarrow> bool \<Rightarrow> action list" where
  "gen_plan crate_dir dll_prefix dll_suffix out_dir release =
     (let lib_name = dll_prefix @ ''sylva_sdk'' @ dll_suffix; lib = lib_path crate_dir release lib_name in
      [Asked (cmd_with [''--version''] (command_new ''uniffi-bindgen-cs'')),
       Printed (''Building sylva-sdk cdylib ('' @ profile_name release @ '')...''),
       Ran (build_command crate_dir release),
       Looked_For lib,
       Made_Dir out_dir,
       Printed (''Generating C# bindings -> '' @ out_dir),
       Ran (bindgen_command lib out_dir),
       Copied lib (path_join out_dir lib_name),
       Printed (''Done: sylva_sdk.cs + '' @ lib_name @ '' in '' @ out_dir)])"

text \<open>
  A log of a run that was to take these actions: all of them with success, or a beginning of them that
  ends in the first failure.
\<close>

definition completed :: "action list \<Rightarrow> log \<Rightarrow> bool" where
  "completed plan l \<longleftrightarrow> l = map (\<lambda>a. (a, True)) plan"

definition broken_off :: "action list \<Rightarrow> log \<Rightarrow> bool" where
  "broken_off plan l \<longleftrightarrow>
     (\<exists>done a rest. plan = done @ a # rest \<and> l = map (\<lambda>a. (a, True)) done @ [(a, False)])"

definition follows :: "action list \<Rightarrow> ('w \<times> log, 'e, 'a) exec \<Rightarrow> bool" where
  "follows plan m \<longleftrightarrow>
     (\<forall>w l r w' l'. m (w, l) = (r, (w', l')) \<longrightarrow>
        (\<exists>new. l' = l @ new \<and> (if isl r then broken_off plan new else completed plan new)))"

lemma followsD:
  "follows plan m \<Longrightarrow> m (w, l) = (r, (w', l')) \<Longrightarrow>
     \<exists>new. l' = l @ new \<and> (if isl r then broken_off plan new else completed plan new)"
  by (simp add: follows_def)

lemma broken_off_append: "broken_off p l \<Longrightarrow> broken_off (p @ q) l"
  unfolding broken_off_def by fastforce

lemma completed_broken_off: "completed p l \<Longrightarrow> broken_off q l' \<Longrightarrow> broken_off (p @ q) (l @ l')"
  unfolding completed_def broken_off_def by (metis append.assoc map_append)

lemma completed_append: "completed p l \<Longrightarrow> completed q l' \<Longrightarrow> completed (p @ q) (l @ l')"
  by (simp add: completed_def)

lemma follows_and_then:
  assumes "follows p m" and "\<And>x. follows q (f x)"
  shows "follows (p @ q) (and_then m f)"
  unfolding follows_def
proof (intro allI impI)
  fix w l r w' l'
  assume run: "and_then m f (w, l) = (r, (w', l'))"
  obtain v u k where m: "m (w, l) = (v, (u, k))" by (metis prod.exhaust)
  then obtain new where new: "k = l @ new" "if isl v then broken_off p new else completed p new"
    using followsD [OF assms(1)] by blast
  show "\<exists>new. l' = l @ new \<and> (if isl r then broken_off (p @ q) new else completed (p @ q) new)"
  proof (cases v)
    case (Inl e)
    then show ?thesis using new m run by (auto simp: and_then_def intro: broken_off_append)
  next
    case (Inr x)
    then have "f x (u, k) = (r, (w', l'))" using m run by (simp add: and_then_def)
    then obtain later where "l' = k @ later" "if isl r then broken_off q later else completed q later"
      using followsD [OF assms(2)] by blast
    then show ?thesis
      using new Inr by (auto intro: completed_append completed_broken_off split: if_splits)
  qed
qed

lemma follows_single:
  assumes "\<And>w l. \<exists>r w' ok. m (w, l) = (r, (w', l @ [(a, ok)])) \<and> ok = (\<not> isl r)"
  shows "follows [a] m"
  unfolding follows_def
proof (intro allI impI)
  fix w l r w' l'
  assume "m (w, l) = (r, (w', l'))"
  with assms [of w l] have "l' = l @ [(a, \<not> isl r)]" by auto
  then show "\<exists>new. l' = l @ new \<and> (if isl r then broken_off [a] new else completed [a] new)"
    by (auto simp: broken_off_def completed_def)
qed

lemma isl_map_sum [simp]: "isl (map_sum f g r) = isl r"
  by (cases r) simp_all

lemma tool_steps:
  "follows [Asked (cmd_with [''--version''] (command_new ''uniffi-bindgen-cs''))] (ensure_tool (logging S))"
  "follows [Ran c] (run_command (logging S) c)"
  "follows [Looked_For p] (require_library (logging S) p)"
  "follows [Made_Dir p] (map_error Gen_Io (sys_create_dir_all (logging S) p))"
  "follows [Copied p q] (map_error Gen_Io (sys_copy (logging S) p q))"
  "follows [Printed t] (println (logging S) t)"
  by (rule follows_single; auto simp: ensure_tool_def run_command_def require_library_def println_def logging_def
      logged_def and_then_def map_error_def attempt_def modify_state_def throw_def ret_def
      split: prod.split sum.split)+

text \<open>Keeping the log changes nothing else.\<close>

definition shadows :: "('w, 'e, 'a) exec \<Rightarrow> ('w \<times> log, 'e, 'a) exec \<Rightarrow> bool" where
  "shadows m n \<longleftrightarrow> (\<forall>w l. \<exists>l'. n (w, l) = (fst (m w), (snd (m w), l')))"

lemma shadows_and_then:
  assumes "shadows m m'" and "\<And>x. shadows (f x) (f' x)"
  shows "shadows (and_then m f) (and_then m' f')"
  unfolding shadows_def
proof (intro allI)
  fix w l
  obtain v u where m: "m w = (v, u)" by (cases "m w")
  moreover obtain k where "m' (w, l) = (fst (m w), (snd (m w), k))"
    using assms(1) unfolding shadows_def by blast
  ultimately have m': "m' (w, l) = (v, (u, k))" by simp
  show "\<exists>l'. and_then m' f' (w, l) = (fst (and_then m f w), (snd (and_then m f w), l'))"
  proof (cases v)
    case (Inl e)
    then show ?thesis by (simp add: and_then_def m m')
  next
    case (Inr x)
    obtain l' where "f' x (u, k) = (fst (f x u), (snd (f x u), l'))"
      using assms(2) unfolding shadows_def by blast
    with Inr show ?thesis by (simp add: and_then_def m m')
  qed
qed

lemma tool_shadows:
  "shadows (ensure_tool S) (ensure_tool (logging S))"
  "shadows (run_command S c) (run_command (logging S) c)"
  "shadows (require_library S p) (require_library (logging S) p)"
  "shadows (map_error Gen_Io (sys_create_dir_all S p)) (map_error Gen_Io (sys_create_dir_all (logging S) p))"
  "shadows (map_error Gen_Io (sys_copy S p q)) (map_error Gen_Io (sys_copy (logging S) p q))"
  "shadows (println S t) (println (logging S) t)"
  by (auto simp: shadows_def ensure_tool_def run_command_def require_library_def println_def logging_def
      logged_def and_then_def map_error_def attempt_def modify_state_def throw_def ret_def
      split: prod.split sum.split)

lemma gen_main_parsed:
  fixes S :: "('w, 'i) system"
  assumes "gen_args (drop 1 argv) (default_out_dir crate) False = (Inr (out, rel) :: 'i gen_error + path \<times> bool)"
  shows "follows (gen_plan crate pre suf out rel) (gen_main (logging S) crate pre suf argv)"
    and "shadows (gen_main S crate pre suf argv) (gen_main (logging S) crate pre suf argv)"
proof -
  have plan: "[a] @ [b] @ [c] @ [d] @ [e] @ [f] @ [g] @ [h] @ [i] = [a, b, c, d, e, f, g, h, i]"
    for a b c d e f g h i :: action by simp
  show "follows (gen_plan crate pre suf out rel) (gen_main (logging S) crate pre suf argv)"
    unfolding gen_main_def gen_plan_def Let_def assms lift_Inr and_then_ret split_conv
    by (subst plan [symmetric]) (intro follows_and_then tool_steps)
  show "shadows (gen_main S crate pre suf argv) (gen_main (logging S) crate pre suf argv)"
    unfolding gen_main_def Let_def assms lift_Inr and_then_ret split_conv
    by (intro shadows_and_then tool_shadows)
qed

text \<open>
  Property C38: the bindings tool stops at the first failure: a wrong command line touches nothing, and
  any other run either does every action of its plan with success (look for the generator, build, look
  for the library, make the directory, generate, copy) or ends with an error right after the first
  action that failed, so that nothing is generated from a library whose build failed.
\<close>

theorem gen_stops_at_first_failure:
  fixes S :: "('w, 'i) system"
  shows
  "(case gen_args (drop 1 argv) (default_out_dir crate) False of
      Inl e \<Rightarrow> gen_main (logging S) crate pre suf argv (w, []) = (Inl e, (w, []))
    | Inr (out, rel) \<Rightarrow>
        (\<exists>r w' l. gen_main S crate pre suf argv w = (r, w') \<and>
           gen_main (logging S) crate pre suf argv (w, []) = (r, (w', l)) \<and>
           (if isl r then broken_off (gen_plan crate pre suf out rel) l
            else completed (gen_plan crate pre suf out rel) l)))"
proof (cases "gen_args (drop 1 argv) (default_out_dir crate) False :: 'i gen_error + path \<times> bool")
  case (Inl e)
  then show ?thesis by (simp add: gen_main_def lift_Inl and_then_throw throw_eq)
next
  case (Inr opts)
  then obtain out rel where opts: "gen_args (drop 1 argv) (default_out_dir crate) False = (Inr (out, rel) :: 'i gen_error + _)"
    by (cases opts) auto
  obtain r w' l where run: "gen_main S crate pre suf argv w = (r, w')"
    "gen_main (logging S) crate pre suf argv (w, []) = (r, (w', l))"
    using gen_main_parsed(2) [OF opts, of S pre suf] unfolding shadows_def by (metis fst_conv prod.collapse snd_conv)
  then show ?thesis
    using followsD [OF gen_main_parsed(1) [OF opts] run(2)] opts by auto
qed

end
