(* ===== verification/Procs.thy ===== *)
theory Procs
  imports Prelude
begin

text \<open>
  Computations that can be interrupted. A \<open>proc\<close> is a computation as the sequence of its atomic steps:
  it has finished, or it makes one step on the shared state and goes on from there. Running all steps
  without interruption gives back the \<open>exec\<close> it stands for. What a \<open>proc\<close> does while others change the
  state between its steps is stated as a rely and a guarantee.
\<close>

section \<open>Atomic steps\<close>

datatype ('s, 'e, 'a) proc =
    Finished "'e + 'a"
  | Step "'s \<Rightarrow> ('s, 'e, 'a) proc \<times> 's"

definition pure :: "'a \<Rightarrow> ('s, 'e, 'a) proc" where
  "pure x = Finished (Inr x)"

definition fail :: "'e \<Rightarrow> ('s, 'e, 'a) proc" where
  "fail e = Finished (Inl e)"

definition from_result :: "'e + 'a \<Rightarrow> ('s, 'e, 'a) proc" where
  "from_result r = Finished r"

definition atom :: "('s, 'e, 'a) exec \<Rightarrow> ('s, 'e, 'a) proc" where
  "atom m = Step (\<lambda>s. case m s of (r, s') \<Rightarrow> (Finished r, s'))"

primrec and_next :: "('s, 'e, 'a) proc \<Rightarrow> ('a \<Rightarrow> ('s, 'e, 'b) proc) \<Rightarrow> ('s, 'e, 'b) proc" where
  "and_next (Finished r) f = (case r of Inl e \<Rightarrow> Finished (Inl e) | Inr x \<Rightarrow> f x)"
| "and_next (Step k) f = Step (\<lambda>s. map_prod (\<lambda>p. and_next p f) id (k s))"

text \<open>The result of every run, converted.\<close>

primrec on_result :: "('e + 'a \<Rightarrow> 'f + 'b) \<Rightarrow> ('s, 'e, 'a) proc \<Rightarrow> ('s, 'f, 'b) proc" where
  "on_result g (Finished r) = Finished (g r)"
| "on_result g (Step k) = Step (\<lambda>s. map_prod (on_result g) id (k s))"

definition error_to :: "('e \<Rightarrow> 'f) \<Rightarrow> ('s, 'e, 'a) proc \<Rightarrow> ('s, 'f, 'a) proc" where
  "error_to g = on_result (map_sum g id)"

definition matched :: "('s, 'e, 'a) proc \<Rightarrow> ('s, 'f, 'e + 'a) proc" where
  "matched = on_result Inr"

section \<open>Uninterrupted runs\<close>

primrec run_all :: "('s, 'e, 'a) proc \<Rightarrow> ('s, 'e, 'a) exec" where
  "run_all (Finished r) = (\<lambda>s. (r, s))"
| "run_all (Step k) = (\<lambda>s. case map_prod run_all id (k s) of (m, s') \<Rightarrow> m s')"

lemma run_atom [simp]: "run_all (atom m) = m"
  by (auto simp: fun_eq_iff atom_def split: prod.split)

lemma run_pure [simp]: "run_all (pure x) = ret x" and run_fail [simp]: "run_all (fail e) = throw e"
  by (simp_all add: fun_eq_iff pure_def fail_def ret_def throw_def)

lemma run_lift [simp]: "run_all (from_result r) = lift_result r"
  by (simp add: fun_eq_iff from_result_def lift_result_def)

lemma run_and_next_at: "run_all (and_next p f) s = and_then (run_all p) (\<lambda>x. run_all (f x)) s"
proof (induction p arbitrary: s)
  case (Finished r)
  then show ?case by (cases r) (simp_all add: lift_result_def and_then_def)
next
  case (Step k)
  obtain p t where k: "k s = (p, t)" by (cases "k s")
  then have "run_all (and_next p f) t = and_then (run_all p) (\<lambda>x. run_all (f x)) t"
    using Step [of "k s" p t] rangeI [of k s] by (simp add: fsts.simps)
  then show ?case by (simp add: k and_then_def)
qed

lemma run_and_next [simp]: "run_all (and_next p f) = and_then (run_all p) (\<lambda>x. run_all (f x))"
  by (rule ext) (rule run_and_next_at)

lemma run_on_result: "run_all (on_result g p) s = map_prod g id (run_all p s)"
proof (induction p arbitrary: s)
  case (Step k)
  obtain p t where k: "k s = (p, t)" by (cases "k s")
  then have "run_all (on_result g p) t = map_prod g id (run_all p t)"
    using Step [of "k s" p t] rangeI [of k s] by (simp add: fsts.simps id_def)
  then show ?case by (simp add: k id_def)
qed (simp add: lift_result_def)

lemma run_error_to [simp]: "run_all (error_to g p) = map_error g (run_all p)"
  by (auto simp: fun_eq_iff error_to_def run_on_result map_error_def split: prod.split)

lemma run_matched [simp]: "run_all (matched p) = attempt (run_all p)"
  by (auto simp: fun_eq_iff matched_def run_on_result attempt_def split: prod.split)

section \<open>Rely and guarantee\<close>

text \<open>
  \<open>assures R G Q p P\<close>: started where \<open>P\<close> holds, while between its steps others change the state only as
  \<open>R\<close> allows, every step of \<open>p\<close> changes the state as \<open>G\<close> allows, and its result satisfies \<open>Q\<close>.
\<close>

definition undisturbed :: "('s \<Rightarrow> 's \<Rightarrow> bool) \<Rightarrow> ('s \<Rightarrow> bool) \<Rightarrow> bool" where
  "undisturbed R P \<longleftrightarrow> (\<forall>s s'. P s \<longrightarrow> R s s' \<longrightarrow> P s')"

primrec assures ::
  "('s \<Rightarrow> 's \<Rightarrow> bool) \<Rightarrow> ('s \<Rightarrow> 's \<Rightarrow> bool) \<Rightarrow> ('e + 'a \<Rightarrow> 's \<Rightarrow> bool) \<Rightarrow> ('s, 'e, 'a) proc \<Rightarrow> ('s \<Rightarrow> bool) \<Rightarrow> bool" where
  "assures R G Q (Finished r) = (\<lambda>P. \<forall>s. P s \<longrightarrow> Q r s)"
| "assures R G Q (Step k) = (\<lambda>P. \<forall>s. P s \<longrightarrow>
     (case map_prod (assures R G Q) id (k s) of
        (rest, s') \<Rightarrow> G s s' \<and> (\<exists>P'. undisturbed R P' \<and> P' s' \<and> rest P')))"

lemma undisturbedD: "undisturbed R P \<Longrightarrow> P s \<Longrightarrow> R s s' \<Longrightarrow> P s'"
  by (simp add: undisturbed_def)

lemma assures_Step:
  "assures R G Q (Step k) P \<longleftrightarrow>
     (\<forall>s p s'. P s \<longrightarrow> k s = (p, s') \<longrightarrow> G s s' \<and> (\<exists>P'. undisturbed R P' \<and> P' s' \<and> assures R G Q p P'))"
  by (simp add: case_prod_unfold) (metis fst_conv snd_conv prod.collapse)

lemma assures_pre: "assures R G Q p P \<Longrightarrow> (\<And>s. P' s \<Longrightarrow> P s) \<Longrightarrow> assures R G Q p P'"
  by (cases p) (auto simp: assures_Step simp del: assures.simps(2))

lemma assures_post:
  "assures R G Q p P \<Longrightarrow> (\<And>r s. Q r s \<Longrightarrow> Q' r s) \<Longrightarrow> (\<And>s s'. G s s' \<Longrightarrow> G' s s') \<Longrightarrow> assures R G' Q' p P"
proof (induction p arbitrary: P)
  case (Step k)
  have "G' s s' \<and> (\<exists>P'. undisturbed R P' \<and> P' s' \<and> assures R G' Q' q P')" if a: "P s" and b: "k s = (q, s')" for s q s'
  proof -
    obtain P' where P': "G s s'" "undisturbed R P'" "P' s'" "assures R G Q q P'"
      using Step(2) [unfolded assures_Step] a b by blast
    have "assures R G' Q' q P'"
      using Step(1) [of "k s" q] b P'(4) Step(3,4) by (auto intro: fsts.intros range_eqI [of _ k s, OF sym])
    with P' Step(4) show ?thesis by blast
  qed
  then show ?case by (auto simp: assures_Step simp del: assures.simps(2))
qed auto

lemma assures_atom:
  assumes "\<And>s r s'. P s \<Longrightarrow> m s = (r, s') \<Longrightarrow> G s s' \<and> Q r s'" and "\<And>r. undisturbed R (Q r)"
  shows "assures R G Q (atom m) P"
  using assms by (fastforce simp: atom_def assures_Step simp del: assures.simps(2) split: prod.split_asm)

lemma assures_and_next:
  assumes "assures R G Q' p P" and "\<And>x. assures R G Q (f x) (Q' (Inr x))" and "\<And>e s. Q' (Inl e) s \<Longrightarrow> Q (Inl e) s"
  shows "assures R G Q (and_next p f) P"
  using assms(1)
proof (induction p arbitrary: P)
  case (Finished r)
  then show ?case
    using assms(2,3) by (cases r) (auto intro: assures_pre)
next
  case (Step k)
  have "G s s' \<and> (\<exists>P'. undisturbed R P' \<and> P' s' \<and> assures R G Q q P')"
    if a: "P s" and b: "map_prod (\<lambda>p. and_next p f) id (k s) = (q, s')" for s q s'
  proof -
    obtain p where p: "k s = (p, s')" "q = and_next p f" using b by (cases "k s") auto
    then obtain P' where P': "G s s'" "undisturbed R P'" "P' s'" "assures R G Q' p P'"
      using Step(2) [unfolded assures_Step] a by blast
    have "assures R G Q (and_next p f) P'"
      using Step(1) [of "k s" p] p(1) P'(4) by (auto intro: fsts.intros range_eqI [of _ k s, OF sym])
    with P' p(2) show ?thesis by blast
  qed
  then show ?case by (auto simp: assures_Step simp del: assures.simps(2))
qed

lemma assures_on_result:
  "assures R G (\<lambda>r. Q (g r)) p P \<Longrightarrow> assures R G Q (on_result g p) P"
proof (induction p arbitrary: P)
  case (Step k)
  have "G s s' \<and> (\<exists>P'. undisturbed R P' \<and> P' s' \<and> assures R G Q q P')"
    if a: "P s" and b: "map_prod (on_result g) id (k s) = (q, s')" for s q s'
  proof -
    obtain p where p: "k s = (p, s')" "q = on_result g p" using b by (cases "k s") auto
    then obtain P' where P': "G s s'" "undisturbed R P'" "P' s'" "assures R G (\<lambda>r. Q (g r)) p P'"
      using Step(2) [unfolded assures_Step] a by blast
    have "assures R G Q (on_result g p) P'"
      using Step(1) [of "k s" p] p(1) P'(4) by (auto intro: fsts.intros range_eqI [of _ k s, OF sym])
    with P' p(2) show ?thesis by blast
  qed
  then show ?case by (auto simp: assures_Step simp del: assures.simps(2))
qed auto

end
