(* ===== verification/Client_Steps.thy ===== *)
theory Client_Steps
  imports Client_Tasks Procs
begin

text \<open>
  Operations of one client that run at the same time, at the grain of their steps. Each method of
  \<open>src/client.rs\<close> is the sequence of the steps that other threads can come between: every operation of
  the secret store, every request to a server, every dial, every draw of random bytes, every access to
  the in-memory part. The steps after the lock is taken exclude those of other lock holders, and no
  others: a store operation of one task may fall into the remote call of another.
\<close>

section \<open>The steps of the flows\<close>

text \<open>\<open>fetch_and_verify\<close> and \<open>discover_and_connect\<close>: draw a nonce, ask, and dial the one address.\<close>

definition fetch_steps ::
  "discovery_lib \<Rightarrow> ('n, 'y) http_scheme \<Rightarrow> string \<Rightarrow> (('n, 'z) host_scheme, discovery_error, verified_server) proc" where
  "fetch_steps D W base_url =
     and_next (atom (with_rng random_nonce)) (\<lambda>nonce.
     and_next (atom (with_net (http_get W (discovery_url base_url nonce)))) (\<lambda>response.
       (case response of
          None \<Rightarrow> fail Fetch
        | Some (status, body) \<Rightarrow>
            if \<not> is_success status then fail Fetch
            else (case body of
                    None \<Rightarrow> fail Fetch
                  | Some bs \<Rightarrow> from_result (parse_and_verify D bs nonce)))))"

definition discover_steps ::
  "discovery_lib \<Rightarrow> ('n, 'c, 'y) net_scheme \<Rightarrow> string \<Rightarrow> u16 \<Rightarrow> bytes option \<Rightarrow>
     (('n, 'z) host_scheme, connect_error, 'c \<times> verified_server \<times> trust_decision) proc" where
  "discover_steps D W host discovery_port pinned =
     and_next (error_to Discovery (fetch_steps D W (http_url (host_port host discovery_port)))) (\<lambda>verified.
       (let decision = check_pin verified pinned in
        if decision = Mismatch then fail Identity_Mismatch
        else and_next (atom (map_error Connect_Failed (connect_endpoints W [host_port host (vs_grpc_port verified)])))
               (\<lambda>channel. pure (channel, verified, decision))))"

text \<open>\<open>login\<close>: two requests, then the unlocking.\<close>

definition login_steps ::
  "crypto_lib \<Rightarrow> ('n, 'c, 'y) net_scheme \<Rightarrow> 'c \<Rightarrow> string \<Rightarrow> string \<Rightarrow> secret_key \<Rightarrow>
     (('n, 'z) host_scheme, enroll_error, 'c logged_in) proc" where
  "login_steps L W channel email password sk =
     and_next (atom (map_error Transport_Failed (login_call W channel
        \<lparr>lr_email = email, lr_password = password, lr_mfa_challenge_token = [], lr_mfa_response = []\<rparr>))) (\<lambda>response.
       (case response of
          Some (Session session) \<Rightarrow>
            (let account = session_new channel (sm_token session) in
     and_next (atom (map_error Transport_Failed (session_key_material W account))) (\<lambda>key_material.
     and_next (from_result (map_sum Crypto_Failed id
                 (unlock_identity L (key_material_to_bundle key_material) password sk))) (\<lambda>identity.
     pure \<lparr>li_account = account, li_user_id = sm_user_id session, li_identity = identity\<rparr>)))
        | Some (Mfa_Required _) \<Rightarrow> fail Mfa_Needed
        | None \<Rightarrow> fail EmptyLogin))"

text \<open>The key generation of an enrollment and of a password change: every draw is a step.\<close>

definition draw :: "nat \<Rightarrow> (('n, 'z) host_scheme, 'e, bytes) proc" where
  "draw n = atom (with_rng (fill_bytes n))"

definition seal_steps ::
  "crypto_lib \<Rightarrow> bytes \<Rightarrow> bytes \<Rightarrow> (('n, 'z) host_scheme, crypto_error, bytes) proc" where
  "seal_steps L key plaintext =
     and_next (draw NONCE_LEN) (\<lambda>nonce.
     and_next (from_result (ok_or (aead_encrypt L key nonce plaintext)
                              (Malformed ''plaintext too large to encrypt''))) (\<lambda>ciphertext.
     pure (nonce @ ciphertext)))"

definition bootstrap_steps ::
  "crypto_lib \<Rightarrow> string \<Rightarrow> kdf_params \<Rightarrow> (('n, 'z) host_scheme, crypto_error, bootstrap_output) proc" where
  "bootstrap_steps L password params =
     and_next (atom (with_rng sk_generate)) (\<lambda>sk.
     and_next (atom (with_rng mk_random)) (\<lambda>master_key.
     and_next (draw KEY_LEN) (\<lambda>user_x_secret.
     and_next (draw KEY_LEN) (\<lambda>user_ed.
     and_next (draw SALT_LEN) (\<lambda>salt.
     and_next (from_result (derive_kek L (str_bytes password) sk salt params)) (\<lambda>kek.
     and_next (seal_steps L kek (mk_as_bytes master_key)) (\<lambda>master_key_wrapped.
     and_next (seal_steps L (mk_as_bytes master_key) user_x_secret) (\<lambda>x25519_private_wrapped.
     and_next (seal_steps L (mk_as_bytes master_key) user_ed) (\<lambda>ed25519_private_wrapped.
     and_next (from_result (to_json L params)) (\<lambda>params_json.
     pure \<lparr>bo_bundle =
            \<lparr>kb_x25519_public = x25519_public L user_x_secret,
             kb_ed25519_public = ed25519_public L user_ed,
             kb_x25519_private_wrapped = x25519_private_wrapped,
             kb_ed25519_private_wrapped = ed25519_private_wrapped,
             kb_master_key_wrapped = master_key_wrapped,
             kb_kdf_salt = salt,
             kb_kdf_params = params_json\<rparr>,
          bo_secret_key = sk,
          bo_identity =
            \<lparr>ui_master_key = master_key,
             ui_x25519_secret = user_x_secret,
             ui_ed25519_secret = user_ed\<rparr>\<rparr>))))))))))"

definition rewrap_steps ::
  "crypto_lib \<Rightarrow> master_key \<Rightarrow> secret_key \<Rightarrow> string \<Rightarrow> kdf_params \<Rightarrow>
     (('n, 'z) host_scheme, crypto_error, rewrapped_master) proc" where
  "rewrap_steps L master_key sk new_password params =
     and_next (draw SALT_LEN) (\<lambda>salt.
     and_next (from_result (derive_kek L (str_bytes new_password) sk salt params)) (\<lambda>kek.
     and_next (seal_steps L kek (mk_as_bytes master_key)) (\<lambda>master_key_wrapped.
     and_next (from_result (to_json L params)) (\<lambda>params_json.
     pure \<lparr>rw_master_key_wrapped = master_key_wrapped,
          rw_kdf_salt = salt,
          rw_kdf_params = params_json\<rparr>))))"

definition enroll_steps ::
  "crypto_lib \<Rightarrow> ('n, 'c, 'y) net_scheme \<Rightarrow> 'c \<Rightarrow> new_owner \<Rightarrow>
     (('n, 'z) host_scheme, enroll_error, 'c enrolled_owner) proc" where
  "enroll_steps L W channel owner =
     and_next (error_to Crypto_Failed (bootstrap_steps L (no_password owner) default_kdf_params)) (\<lambda>boot.
     and_next (atom (with_rng (generate_device_keypair L))) (\<lambda>device.
     and_next (atom (map_error Transport_Failed (bootstrap_call W channel (owner_request owner boot device)))) (\<lambda>session.
     pure \<lparr>eo_account = session_new channel (sm_token session),
          eo_user_id = sm_user_id session,
          eo_secret_key = bo_secret_key boot,
          eo_identity = bo_identity boot,
          eo_device_public = dk_public device,
          eo_device_secret = dk_secret device\<rparr>)))"

lemma run_fetch [simp]: "run_all (fetch_steps D W url) = fetch_and_verify D W url"
  unfolding fetch_steps_def fetch_and_verify_def
  by (auto simp: fun_eq_iff and_then_def split: prod.split sum.split option.split)

lemma run_discover [simp]:
  "run_all (discover_steps D W host port pinned) = discover_and_connect D W host port pinned"
  unfolding discover_steps_def discover_and_connect_def Let_def
  by (auto simp: fun_eq_iff and_then_def split: prod.split sum.split option.split)

lemma run_login [simp]: "run_all (login_steps L W c email pw sk) = login L W c email pw sk"
  unfolding login_steps_def login_def Let_def
  by (auto simp: fun_eq_iff and_then_def exec_simps split: prod.split sum.split option.split login_outcome.split)

text \<open>The random source through a sequence of steps.\<close>

lemma with_rng_then: "with_rng (and_then m f) = and_then (with_rng m) (\<lambda>x. with_rng (f x))"
  by (auto simp: fun_eq_iff with_rng_def on_part_def and_then_def split: prod.split sum.split)

lemma with_rng_result: "with_rng (lift_result r) = lift_result r" and with_rng_ret: "with_rng (ret x) = ret x"
  by (simp_all add: fun_eq_iff with_rng_def on_part_def lift_result_def ret_def)

lemmas rng_steps = with_rng_then with_rng_result with_rng_ret

lemma run_draw [simp]: "run_all (draw n) = with_rng (fill_bytes n)"
  by (simp add: draw_def)

lemma run_seal [simp]: "run_all (seal_steps L k p) = with_rng (seal L k p)"
  by (simp add: seal_steps_def seal_def rng_steps)

lemma run_bootstrap [simp]: "run_all (bootstrap_steps L pw prm) = with_rng (bootstrap_identity_with_params L pw prm)"
  by (simp add: bootstrap_steps_def bootstrap_identity_with_params_def rng_steps)

lemma run_rewrap [simp]: "run_all (rewrap_steps L mk sk pw prm) = with_rng (rewrap_master_key L mk sk pw prm)"
  by (simp add: rewrap_steps_def rewrap_master_key_def rng_steps)

lemma run_enroll [simp]: "run_all (enroll_steps L W c owner) = enroll_new_owner L W c owner"
  unfolding enroll_steps_def enroll_new_owner_def enroll_new_owner_with_params_def by simp

section \<open>The steps of the vault\<close>

fun delete_steps :: "('n, 's, 'c) env \<Rightarrow> string list \<Rightarrow> (('n, 's, 'c) client, client_error, unit) proc" where
  "delete_steps E [] = pure ()"
| "delete_steps E (key # keys) =
     and_next (atom (on_store (store_delete (env_store E) key))) (\<lambda>_. delete_steps E keys)"

definition persist_steps :: "('n, 's, 'c) env \<Rightarrow> to_cache \<Rightarrow> (('n, 's, 'c) client, client_error, unit) proc" where
  "persist_steps E data =
     (let S = env_store E in
     and_next (atom (on_store (vault_set_master_key S (tc_master_key data)))) (\<lambda>_.
     and_next (atom (on_store (vault_set_secret_key S (tc_secret_key data)))) (\<lambda>_.
     and_next (atom (on_store (vault_set_session_token S (tc_token data)))) (\<lambda>_.
     and_next (case tc_device_secret data of
                 Some secret \<Rightarrow> atom (on_store (vault_set_device_secret S secret))
               | None \<Rightarrow> pure ()) (\<lambda>_.
     atom (on_store (vault_set_server_profile (env_vault E) S
                 \<lparr>sp_endpoints = tc_endpoints data,
                  sp_identity_public = tc_identity_public data,
                  sp_user_id = tc_user_id data\<rparr>)))))))"

lemma on_store_ret: "on_store (ret x) = ret x"
  by (simp add: fun_eq_iff on_store_def on_part_def map_error_def ret_def)

lemma on_store_then: "on_store (and_then m f) = and_then (on_store m) (\<lambda>x. on_store (f x))"
  by (auto simp: fun_eq_iff on_store_def on_part_def map_error_def and_then_def split: prod.split sum.split)

lemma run_deletes [simp]: "run_all (delete_steps E keys) = on_store (delete_all (env_store E) keys)"
  by (induction keys) (simp_all add: on_store_ret on_store_then)

lemma run_persist [simp]: "run_all (persist_steps E data) = persist E data"
  by (cases "tc_device_secret data") (simp_all add: persist_steps_def persist_def Let_def and_then_ret_right)

section \<open>The steps before the lock\<close>

definition resolve_steps ::
  "('n, 's, 'c) env \<Rightarrow> string option \<Rightarrow> (('n, 's, 'c) client, client_error, secret_key) proc" where
  "resolve_steps E entered =
     (case entered of
        Some s \<Rightarrow> from_result (map_sum (\<lambda>_. CryptoFailed) id (sk_parse s))
      | None \<Rightarrow>
          and_next (atom (on_store (vault_secret_key (env_store E)))) (\<lambda>cached.
          from_result (ok_or cached SecretKeyRequired)))"

definition resume_steps ::
  "('n, 's, 'c) env \<Rightarrow> (('n, 's, 'c) client, client_error, 'c pending option) proc" where
  "resume_steps E =
     and_next (atom (on_store (vault_server_profile (env_vault E) (env_store E)))) (\<lambda>stored.
       (case stored of
          None \<Rightarrow> pure None
        | Some profile \<Rightarrow>
     and_next (atom (on_store (vault_session_token (env_store E)))) (\<lambda>cached.
       (case cached of
          None \<Rightarrow> pure None
        | Some token \<Rightarrow>
       (case sp_endpoints profile of
          [] \<Rightarrow> pure None
        | endpoint # _ \<Rightarrow>
       (case rsplit_once (CHR '':'') endpoint of
          None \<Rightarrow> pure None
        | Some (host, port) \<Rightarrow>
       (case parse_u16 port of
          None \<Rightarrow> pure None
        | Some discovery_port \<Rightarrow>
     and_next (matched (discover_steps (env_discovery E) (env_net E) host discovery_port
         (Some (sp_identity_public profile)))) (\<lambda>result.
       (case result of
          Inl e \<Rightarrow> pure None
        | Inr (channel, verified, decision) \<Rightarrow> pure (Some (Resuming profile token channel verified)))))))))))"

fun before_steps ::
  "('n, 's, 'c) env \<Rightarrow> client_op \<Rightarrow> (('n, 's, 'c) client, client_error, 'c pending option) proc" where
  "before_steps E (Op_Connect host port) =
     and_next (atom (on_store (vault_server_profile (env_vault E) (env_store E)))) (\<lambda>stored.
     and_next (error_to map_connect_err (discover_steps (env_discovery E) (env_net E) host port
         (map_option sp_identity_public stored))) (\<lambda>(channel, verified, _).
     pure (Some (Connecting host port channel verified))))"
| "before_steps E (Op_Sign_In email pw entered) =
     and_next (resolve_steps E entered) (\<lambda>sk. pure (Some (Signing_In email pw sk)))"
| "before_steps E (Op_Change_Password old new) =
     and_next (atom (on_store (vault_secret_key (env_store E)))) (\<lambda>cached.
     and_next (from_result (ok_or cached SecretKeyRequired)) (\<lambda>sk. pure (Some (Changing_Password old new sk))))"
| "before_steps E Op_Get_Avatar =
     and_next (atom (on_store (vault_master_key (env_store E)))) (\<lambda>cached.
     and_next (from_result (ok_or cached NotSignedIn)) (\<lambda>master. pure (Some (Fetching_Avatar master))))"
| "before_steps E (Op_Set_Avatar png) =
     and_next (atom (on_store (vault_master_key (env_store E)))) (\<lambda>cached.
     and_next (from_result (ok_or cached NotSignedIn)) (\<lambda>master.
     and_next (error_to (\<lambda>_. CryptoFailed) (seal_steps (env_crypto E) (mk_as_bytes master) png)) (\<lambda>sealed.
     pure (Some (Storing_Avatar sealed)))))"
| "before_steps E Op_Sign_Out =
     and_next (delete_steps E [SESSION_TOKEN, MASTER_KEY]) (\<lambda>_. pure (Some Leaving))"
| "before_steps E Op_Forget_Server =
     and_next (delete_steps E [MASTER_KEY, SECRET_KEY, DEVICE_SECRET, SESSION_TOKEN, SERVER_PROFILE])
       (\<lambda>_. pure (Some Leaving))"
| "before_steps E Op_Restore = resume_steps E"
| "before_steps E op = pure (Some (Locked op))"

lemma run_resolve [simp]: "run_all (resolve_steps E entered) = resolve_secret_key E entered"
  by (cases entered) (simp_all add: resolve_steps_def resolve_secret_key_def)

lemma run_resume: "run_all (resume_steps E) = first_part E Op_Restore"
  unfolding resume_steps_def first_part.simps restore_lookup_def
  by (simp add: monad_laws and_then_cases case_prod_unfold
      if_distrib [of run_all] option.case_distrib [of run_all] list.case_distrib [of run_all] sum.case_distrib [of run_all]
      cong: option.case_cong list.case_cong sum.case_cong)

lemma run_before [simp]: "run_all (before_steps E op) = first_part E op"
  by (cases op) (simp_all add: connect_lookup_def monad_laws case_prod_unfold vault_clear_def vault_clear_session_keys
      seal_with_master_def run_resume del: first_part.simps(8) delete_all.simps delete_steps.simps)

section \<open>The steps under the lock\<close>

definition session_steps :: "(('n, 's, 'c) client, client_error, 'c account_session) proc" where
  "session_steps = atom current_session"

text \<open>The operations that are one request in the session.\<close>

definition request_steps ::
  "('c account_session \<Rightarrow> (('n, 's, 'c) client, transport_error, 'a) exec) \<Rightarrow> (('n, 's, 'c) client, client_error, unit) proc" where
  "request_steps request =
     and_next session_steps (\<lambda>session. and_next (atom (server_call (request session))) (\<lambda>_. pure ()))"

definition create_owner_steps ::
  "('n, 's, 'c) env \<Rightarrow> string \<Rightarrow> string \<Rightarrow> string \<Rightarrow> string \<Rightarrow> (('n, 's, 'c) client, client_error, unit) proc" where
  "create_owner_steps E email display_name password device_label =
     and_next (atom get_inner) (\<lambda>inner.
     and_next (from_result (ok_or (in_channel inner) NotConnected)) (\<lambda>channel.
     and_next (from_result (ok_or (in_verified inner) NotConnected)) (\<lambda>verified.
     and_next (error_to map_enroll_err (enroll_steps (env_crypto E) (env_net E) channel
         \<lparr>no_email = email, no_display_name = display_name, no_password = password,
          no_device_label = device_label, no_platform = env_os E, no_machine_label = device_label\<rparr>))
         (\<lambda>enrolled.
     and_next (persist_steps E
         \<lparr>tc_identity_public = identity_public verified,
          tc_user_id = eo_user_id enrolled,
          tc_token = as_token (eo_account enrolled),
          tc_master_key = ui_master_key (eo_identity enrolled),
          tc_secret_key = eo_secret_key enrolled,
          tc_device_secret = Some (eo_device_secret enrolled),
          tc_endpoints = in_endpoints inner\<rparr>) (\<lambda>_.
     atom (set_inner (\<lambda>inner. inner\<lparr>in_session := Some (eo_account enrolled),
                 in_identity := Some (eo_identity enrolled),
                 in_secret_key := Some (eo_secret_key enrolled)\<rparr>)))))))"

definition signed_in_steps ::
  "('n, 's, 'c) env \<Rightarrow> verified_server \<Rightarrow> string list \<Rightarrow> secret_key \<Rightarrow> enroll_error + 'c logged_in \<Rightarrow>
     (('n, 's, 'c) client, client_error, unit) proc" where
  "signed_in_steps E verified endpoints resolved result =
       (case result of
          Inr logged_in \<Rightarrow>
            and_next (persist_steps E
               \<lparr>tc_identity_public = identity_public verified,
                tc_user_id = li_user_id logged_in,
                tc_token = as_token (li_account logged_in),
                tc_master_key = ui_master_key (li_identity logged_in),
                tc_secret_key = resolved,
                tc_device_secret = None,
                tc_endpoints = endpoints\<rparr>) (\<lambda>_.
            atom (set_inner (\<lambda>inner. inner\<lparr>in_session := Some (li_account logged_in),
                        in_identity := Some (li_identity logged_in),
                        in_secret_key := Some resolved\<rparr>)))
        | Inl Mfa_Needed \<Rightarrow> pure ()
        | Inl (Crypto_Failed e) \<Rightarrow> fail CryptoFailed
        | Inl other \<Rightarrow> fail (map_enroll_err other))"

definition sign_in_steps ::
  "('n, 's, 'c) env \<Rightarrow> string \<Rightarrow> string \<Rightarrow> secret_key \<Rightarrow> (('n, 's, 'c) client, client_error, unit) proc" where
  "sign_in_steps E email password resolved =
     and_next (atom get_inner) (\<lambda>inner.
     and_next (from_result (ok_or (in_channel inner) NotConnected)) (\<lambda>channel.
     and_next (from_result (ok_or (in_verified inner) NotConnected)) (\<lambda>verified.
     and_next (matched (login_steps (env_crypto E) (env_net E) channel email password resolved))
       (signed_in_steps E verified (in_endpoints inner) resolved))))"

definition enroll_device_steps ::
  "('n, 's, 'c) env \<Rightarrow> string \<Rightarrow> (('n, 's, 'c) client, client_error, unit) proc" where
  "enroll_device_steps E label =
     and_next session_steps (\<lambda>session.
     and_next (atom (with_rng (generate_device_keypair (env_crypto E)))) (\<lambda>device.
     and_next (atom (server_call (session_register_device (env_net E) session
         \<lparr>de_device_label = label, de_platform = env_os E, de_device_public_key = dk_public device,
          de_machine_label = label\<rparr>))) (\<lambda>_.
     atom (on_store (vault_set_device_secret (env_store E) (dk_secret device))))))"

definition change_password_steps ::
  "('n, 's, 'c) env \<Rightarrow> string \<Rightarrow> string \<Rightarrow> secret_key \<Rightarrow> (('n, 's, 'c) client, client_error, unit) proc" where
  "change_password_steps E current_password new_password sk =
     and_next session_steps (\<lambda>session.
     and_next (atom (server_call (session_key_material (env_net E) session))) (\<lambda>material.
     and_next (from_result (map_sum (\<lambda>_. CryptoFailed) id
         (unlock_identity (env_crypto E) (material_to_bundle material) current_password sk))) (\<lambda>unlocked.
     and_next (error_to (\<lambda>_. CryptoFailed) (rewrap_steps (env_crypto E)
         (ui_master_key unlocked) sk new_password default_kdf_params)) (\<lambda>rewrapped.
     atom (map_error map_change_password_err (session_change_password (env_net E) session
         \<lparr>cp_current_password = current_password,
          cp_new_password = new_password,
          cp_new_master_key_wrapped = rw_master_key_wrapped rewrapped,
          cp_new_kdf_salt = rw_kdf_salt rewrapped,
          cp_new_kdf_params = rw_kdf_params rewrapped\<rparr>))))))"

definition get_avatar_steps :: "('n, 's, 'c) env \<Rightarrow> master_key \<Rightarrow> (('n, 's, 'c) client, client_error, unit) proc" where
  "get_avatar_steps E master =
     and_next session_steps (\<lambda>session.
     and_next (atom (server_call (session_get_avatar (env_net E) session))) (\<lambda>blob.
       (case blob of
          Some b \<Rightarrow>
            and_next (from_result (map_sum (\<lambda>_. CryptoFailed) id (open_with_master (env_crypto E) master b)))
              (\<lambda>_. pure ())
        | None \<Rightarrow> pure ())))"

text \<open>An operation that takes the lock first.\<close>

fun locked_op_steps :: "('n, 's, 'c) env \<Rightarrow> client_op \<Rightarrow> (('n, 's, 'c) client, client_error, unit) proc" where
  "locked_op_steps E (Op_Create_Owner email name pw label) = create_owner_steps E email name pw label"
| "locked_op_steps E (Op_Enroll_This_Device label) = enroll_device_steps E label"
| "locked_op_steps E Op_List_Devices = request_steps (session_list_devices (env_net E))"
| "locked_op_steps E (Op_Revoke_Device d) = request_steps (\<lambda>session. session_revoke_device (env_net E) session d)"
| "locked_op_steps E Op_Get_Profile = request_steps (session_get_profile (env_net E))"
| "locked_op_steps E (Op_Update_Display_Name name) =
     request_steps (\<lambda>session. session_update_display_name (env_net E) session name)"
| "locked_op_steps E (Op_Update_Email email pw) =
     request_steps (\<lambda>session. session_update_email (env_net E) session email pw)"
| "locked_op_steps E op = pure ()"

fun locked_steps :: "('n, 's, 'c) env \<Rightarrow> 'c pending \<Rightarrow> (('n, 's, 'c) client, client_error, unit) proc" where
  "locked_steps E (Locked op) = locked_op_steps E op"
| "locked_steps E (Connecting host port channel verified) = atom (connect_finish host port channel verified)"
| "locked_steps E (Signing_In email pw sk) = sign_in_steps E email pw sk"
| "locked_steps E (Changing_Password old new sk) = change_password_steps E old new sk"
| "locked_steps E (Fetching_Avatar master) = get_avatar_steps E master"
| "locked_steps E (Storing_Avatar sealed) =
     request_steps (\<lambda>session. session_set_avatar (env_net E) session sealed)"
| "locked_steps E Leaving = atom (set_inner (\<lambda>_. inner_default))"
| "locked_steps E (Resuming profile token channel verified) = atom (restore_finish profile token channel verified)"

text \<open>A pending operation that has nothing before the lock is one that \<open>Locked\<close> holds.\<close>

fun lock_first :: "client_op \<Rightarrow> bool" where
  "lock_first (Op_Create_Owner _ _ _ _) = True"
| "lock_first (Op_Enroll_This_Device _) = True"
| "lock_first Op_List_Devices = True"
| "lock_first (Op_Revoke_Device _) = True"
| "lock_first Op_Get_Profile = True"
| "lock_first (Op_Update_Display_Name _) = True"
| "lock_first (Op_Update_Email _ _) = True"
| "lock_first _ = False"

lemma run_session [simp]: "run_all session_steps = current_session"
  by (simp add: session_steps_def)

lemma run_request [simp]:
  "run_all (request_steps f) = and_then current_session (\<lambda>session. and_then (server_call (f session)) (\<lambda>_. ret ()))"
  by (simp add: request_steps_def)

lemma run_signed_in [simp]:
  "run_all (signed_in_steps E v es sk result) = and_then (signed_in E v es sk result) (\<lambda>_. ret ())"
  by (simp add: signed_in_steps_def signed_in_def monad_laws split: sum.split enroll_error.split)

lemma run_sign_in: "run_all (sign_in_steps E email pw sk) = silent (sign_in_locked E email pw sk)"
  by (simp add: sign_in_steps_def sign_in_locked_def silent_def monad_laws)

lemma run_get_avatar: "run_all (get_avatar_steps E master) = silent (get_avatar_locked E master)"
  by (simp add: get_avatar_steps_def get_avatar_locked_def silent_def monad_laws and_then_cases
      option.case_distrib [of run_all] cong: option.case_cong)

lemma run_locked_op: "lock_first op \<Longrightarrow> run_all (locked_op_steps E op) = exec_op E op"
  by (cases op) (simp_all add: silent_def monad_laws create_owner_steps_def create_owner_def enroll_device_steps_def
      enroll_this_device_def list_devices_def revoke_device_def get_profile_def update_display_name_def update_email_def)

lemma run_locked:
  assumes "case p of Locked op \<Rightarrow> lock_first op | _ \<Rightarrow> True"
  shows "run_all (locked_steps E p) = second_part E p"
  using assms
  by (cases p) (auto simp: silent_def monad_laws run_locked_op run_sign_in run_get_avatar set_avatar_locked_def
      change_password_steps_def change_password_locked_def)

section \<open>Workers\<close>

text \<open>
  The schedules the theorems quantify over (no code of the crate: tokio's executor and mutex). A worker
  runs one operation: not yet started, in its steps before the lock, waiting for the lock,
  holding it, over. One call of \<open>work\<close> is one step.
\<close>

datatype ('n, 's, 'c) worker =
    Idle client_op
  | Before client_op "(('n, 's, 'c) client, client_error, 'c pending option) proc"
  | Blocked "'c pending"
  | Holding "'c pending" "(('n, 's, 'c) client, client_error, unit) proc"
  | Over "client_error option"

fun after_before :: "client_error + 'c pending option \<Rightarrow> ('n, 's, 'c) worker" where
  "after_before (Inl e) = Over (Some e)"
| "after_before (Inr None) = Over None"
| "after_before (Inr (Some p)) = Blocked p"

fun work ::
  "('n, 's, 'c) env \<Rightarrow> ('n, 's, 'c) worker \<Rightarrow> ('n, 's, 'c) client \<Rightarrow> ('n, 's, 'c) worker \<times> ('n, 's, 'c) client" where
  "work E (Idle op) s = (Before op (before_steps E op), s)"
| "work E (Before op (Finished r)) s = (after_before r, s)"
| "work E (Before op (Step k)) s = (case k s of (p, s') \<Rightarrow> (Before op p, s'))"
| "work E (Blocked p) s = (Holding p (locked_steps E p), s)"
| "work E (Holding p (Finished r)) s = (Over (outcome r), s)"
| "work E (Holding p (Step k)) s = (case k s of (q, s') \<Rightarrow> (Holding p q, s'))"
| "work E (Over r) s = (Over r, s)"

fun holds :: "('n, 's, 'c) worker \<Rightarrow> bool" where
  "holds (Holding _ _) = True"
| "holds _ = False"

fun takes_lock :: "('n, 's, 'c) worker \<Rightarrow> bool" where
  "takes_lock (Blocked _) = True"
| "takes_lock _ = False"

text \<open>
  Any number of workers, in any order that \<open>admitted\<close> allows; the lock is taken only when nobody holds it.
\<close>

inductive works ::
  "('n, 's, 'c) env \<Rightarrow> (('n, 's, 'c) worker list \<Rightarrow> nat \<Rightarrow> bool) \<Rightarrow> ('n, 's, 'c) worker list \<Rightarrow> ('n, 's, 'c) client \<Rightarrow>
     ('n, 's, 'c) worker list \<Rightarrow> ('n, 's, 'c) client \<Rightarrow> bool"
  for E admitted ws0 s0 where
  stop: "works E admitted ws0 s0 ws0 s0"
| spawn: "works E admitted ws0 s0 ws s \<Longrightarrow> works E admitted ws0 s0 (ws @ [Idle op]) s"
| step: "works E admitted ws0 s0 ws s \<Longrightarrow> i < length ws \<Longrightarrow> takes_lock (ws ! i) \<longrightarrow> (\<forall>w \<in> set ws. \<not> holds w) \<Longrightarrow>
    admitted ws i \<Longrightarrow> work E (ws ! i) s = (w, s') \<Longrightarrow> works E admitted ws0 s0 (ws[i := w]) s'"

end
