(* ===== verification/Client_Assures.thy ===== *)
theory Client_Assures
  imports Client_Steps
begin

text \<open>
  What the steps of an operation do to trust while others step in between: before the lock they keep or
  drop the pin, under it they enter a server or pin the one there is. Stated as a rely and a guarantee
  on the abstract trust state, and proved by one rule per way of composing steps.
\<close>

section \<open>Who may change trust, and how\<close>

fun connects :: "client_op \<Rightarrow> bool" where
  "connects (Op_Connect _ _) = True"
| "connects Op_Restore = True"
| "connects _ = False"

fun pins :: "'c pending \<Rightarrow> bool" where
  "pins (Signing_In _ _ _) = True"
| "pins (Locked (Op_Create_Owner _ _ _ _)) = True"
| "pins _ = False"

text \<open>A connection attempt in flight, and an enrollment or sign-in that holds the lock.\<close>

fun linking :: "('n, 's, 'c) worker \<Rightarrow> bool" where
  "linking (Before op _) = connects op"
| "linking (Blocked p) = (met (Waiting p) \<noteq> None)"
| "linking (Holding p _) = (met (Waiting p) \<noteq> None)"
| "linking _ = False"

fun pinning :: "('n, 's, 'c) worker \<Rightarrow> bool" where
  "pinning (Holding p _) = pins p"
| "pinning _ = False"

text \<open>The two do not overlap.\<close>

definition apart :: "('n, 's, 'c) worker list \<Rightarrow> nat \<Rightarrow> bool" where
  "apart ws i \<longleftrightarrow>
     (case ws ! i of
        Idle op \<Rightarrow> connects op \<longrightarrow> (\<forall>w \<in> set ws. \<not> pinning w)
      | Blocked p \<Rightarrow> pins p \<longrightarrow> (\<forall>w \<in> set ws. \<not> linking w)
      | _ \<Rightarrow> True)"

text \<open>What a step may do to trust: keep or drop the pin; enter a server; pin the server there is.\<close>

definition pin_kept :: "trust \<Rightarrow> trust \<Rightarrow> bool" where
  "pin_kept T T' \<longleftrightarrow> ts_pin T' = ts_pin T \<or> ts_pin T' = None"

definition server_kept :: "trust \<Rightarrow> trust \<Rightarrow> bool" where
  "server_kept T T' \<longleftrightarrow> ts_server T' = ts_server T"

definition free :: "trust \<Rightarrow> trust \<Rightarrow> bool" where
  "free T T' \<longleftrightarrow> server_kept T T' \<and> pin_kept T T'"

definition enters_server :: "trust \<Rightarrow> trust \<Rightarrow> bool" where
  "enters_server T T' \<longleftrightarrow> pin_kept T T' \<and> (trust_ok T \<longrightarrow> trust_ok T')"

definition pins_server :: "trust \<Rightarrow> trust \<Rightarrow> bool" where
  "pins_server T T' \<longleftrightarrow> server_kept T T' \<and> (pin_kept T T' \<or> ts_pin T' = ts_server T)"

lemmas trust_moves = pin_kept_def server_kept_def free_def enters_server_def pins_server_def

lemma trust_moves_refl [simp]: "pin_kept T T" "server_kept T T" "free T T" "enters_server T T" "pins_server T T"
  by (simp_all add: trust_moves)

lemma trust_moves_ok: "free T T' \<or> enters_server T T' \<or> pins_server T T' \<Longrightarrow> trust_ok T \<Longrightarrow> trust_ok T'"
  by (auto simp: trust_moves trust_ok_def)

text \<open>As relations of client states.\<close>

definition on_trust ::
  "('n, 's, 'c) env \<Rightarrow> ('s \<Rightarrow> string \<Rightarrow> bytes option) \<Rightarrow> (trust \<Rightarrow> trust \<Rightarrow> bool) \<Rightarrow>
     ('n, 's, 'c) client \<Rightarrow> ('n, 's, 'c) client \<Rightarrow> bool" where
  "on_trust E view X s s' \<longleftrightarrow> X (trust_of E view s) (trust_of E view s')"

definition at_trust ::
  "('n, 's, 'c) env \<Rightarrow> ('s \<Rightarrow> string \<Rightarrow> bytes option) \<Rightarrow> (trust \<Rightarrow> bool) \<Rightarrow> ('n, 's, 'c) client \<Rightarrow> bool" where
  "at_trust E view A s \<longleftrightarrow> A (trust_of E view s)"

text \<open>A step that leaves trust as it is.\<close>

definition trust_quiet ::
  "('n, 's, 'c) env \<Rightarrow> ('s \<Rightarrow> string \<Rightarrow> bytes option) \<Rightarrow> (('n, 's, 'c) client, 'e, 'a) exec \<Rightarrow> bool" where
  "trust_quiet E view m \<longleftrightarrow> (\<forall>s r s'. m s = (r, s') \<longrightarrow> trust_of E view s' = trust_of E view s)"

lemma trust_quietI:
  assumes "\<And>a v. keeps (quiet_at view a v) m"
  shows "trust_quiet E view m"
  unfolding trust_quiet_def using trust_of_quiet [OF assms, of E] by (metis snd_conv)

section \<open>Rules\<close>

lemma assures_pure: "(\<And>s. P s \<Longrightarrow> Q (Inr x) s) \<Longrightarrow> assures R G Q (pure x) P"
  by (simp add: pure_def)

lemma assures_fail: "(\<And>s. P s \<Longrightarrow> Q (Inl e) s) \<Longrightarrow> assures R G Q (fail e) P"
  by (simp add: fail_def)

lemma assures_result: "(\<And>s. P s \<Longrightarrow> Q r s) \<Longrightarrow> assures R G Q (from_result r) P"
  by (simp add: from_result_def)

lemma assures_result_then:
  "(\<And>x. r = Inr x \<Longrightarrow> assures R G Q (f x) P) \<Longrightarrow> (\<And>e s. P s \<Longrightarrow> Q (Inl e) s) \<Longrightarrow>
     assures R G Q (and_next (from_result r) f) P"
  by (cases r) (auto simp: from_result_def)

lemma assures_error_to: "assures R G (\<lambda>r. Q (map_sum g id r)) p P \<Longrightarrow> assures R G Q (error_to g p) P"
  unfolding error_to_def by (rule assures_on_result)

lemma assures_matched: "assures R G (\<lambda>r. Q (Inr r)) p P \<Longrightarrow> assures R G Q (matched p) P"
  unfolding matched_def by (rule assures_on_result)

definition kept :: "(trust \<Rightarrow> trust \<Rightarrow> bool) \<Rightarrow> (trust \<Rightarrow> bool) \<Rightarrow> bool" where
  "kept Y A \<longleftrightarrow> (\<forall>T T'. A T \<longrightarrow> Y T T' \<longrightarrow> A T')"

definition allows_rest :: "(trust \<Rightarrow> trust \<Rightarrow> bool) \<Rightarrow> bool" where
  "allows_rest X \<longleftrightarrow> (\<forall>T. X T T)"

lemma undisturbed_at: "kept Y A \<Longrightarrow> undisturbed (on_trust E view Y) (at_trust E view A)"
  by (auto simp: kept_def undisturbed_def on_trust_def at_trust_def)

lemma assures_matched_then:
  assumes "assures R G Q1 p P" and "\<And>x. assures R G Q (f x) (Q1 x)"
  shows "assures R G Q (and_next (matched p) f) P"
proof (rule assures_and_next)
  show "assures R G (\<lambda>r. case r of Inl _ \<Rightarrow> \<lambda>_. False | Inr x \<Rightarrow> Q1 x) (matched p) P"
    by (rule assures_matched) (simp add: assms(1))
qed (simp_all add: assms(2))

lemma assures_error_then:
  assumes "assures R G Q1 p P" and "\<And>x. assures R G Q (f x) (Q1 (Inr x))"
    and "\<And>e s. Q1 (Inl e) s \<Longrightarrow> Q (Inl (g e)) s"
  shows "assures R G Q (and_next (error_to g p) f) P"
proof (rule assures_and_next)
  show "assures R G (\<lambda>r. case r of Inl e \<Rightarrow> Q (Inl e) | Inr x \<Rightarrow> Q1 (Inr x)) (error_to g p) P"
    by (rule assures_error_to, rule assures_post [OF assms(1)]) (auto simp: assms(3) split: sum.split)
qed (simp_all add: assms(2))

text \<open>Steps that leave trust alone keep every condition on trust that the others keep.\<close>

lemma assures_quiet:
  assumes "trust_quiet E view m" and "allows_rest X" and "kept Y A"
  shows "assures (on_trust E view Y) (on_trust E view X) (\<lambda>_. at_trust E view A) (atom m) (at_trust E view A)"
proof (rule assures_atom)
  show "on_trust E view X s s' \<and> at_trust E view A s'" if "at_trust E view A s" and "m s = (r, s')" for s r s'
    using assms(1,2) that by (simp add: trust_quiet_def on_trust_def at_trust_def allows_rest_def)
  show "undisturbed (on_trust E view Y) (at_trust E view A)" for r
    using assms(3) by (rule undisturbed_at)
qed

lemma assures_quiet_then:
  assumes "trust_quiet E view m" and "allows_rest X" and "kept Y A"
    and "\<And>x. assures (on_trust E view Y) (on_trust E view X) Q (f x) (at_trust E view A)"
    and "\<And>e s. at_trust E view A s \<Longrightarrow> Q (Inl e) s"
  shows "assures (on_trust E view Y) (on_trust E view X) Q (and_next (atom m) f) (at_trust E view A)"
  using assures_quiet [OF assms(1-3)] assms(4,5) by (rule assures_and_next)

text \<open>A step with which a condition on its result and the trust after it comes to hold.\<close>

lemma assures_learns:
  assumes "\<And>s r s'. at_trust E view A s \<Longrightarrow> m s = (r, s') \<Longrightarrow>
      X (trust_of E view s) (trust_of E view s') \<and> B r (trust_of E view s')"
    and "\<And>r. kept Y (B r)"
  shows "assures (on_trust E view Y) (on_trust E view X) (\<lambda>r. at_trust E view (B r)) (atom m) (at_trust E view A)"
proof (rule assures_atom)
  show "on_trust E view X s s' \<and> at_trust E view (B r) s'" if "at_trust E view A s" and "m s = (r, s')" for s r s'
    using assms(1) [OF that] by (simp add: on_trust_def at_trust_def)
  show "undisturbed (on_trust E view Y) (at_trust E view (B r))" for r
    using assms(2) by (rule undisturbed_at)
qed

section \<open>Before the lock\<close>

text \<open>What an operation has ready for the lock: a server that was met is one that the pin allows.\<close>

definition ready_ok :: "client_op \<Rightarrow> client_error + 'c pending option \<Rightarrow> trust \<Rightarrow> bool" where
  "ready_ok op r T \<longleftrightarrow>
     (\<forall>p k. r = Inr (Some p) \<longrightarrow> met (Waiting p) = Some k \<longrightarrow>
        connects op \<and> (ts_pin T = None \<or> ts_pin T = Some k))"

definition others_before :: "client_op \<Rightarrow> trust \<Rightarrow> trust \<Rightarrow> bool" where
  "others_before op T T' \<longleftrightarrow> (connects op \<longrightarrow> pin_kept T T')"

lemma ready_plain [simp]: "ready_ok op (Inl e) T" "ready_ok op (Inr None) T"
  by (simp_all add: ready_ok_def)

text \<open>The steps that leave trust alone.\<close>

lemma host_quiet:
  assumes "\<And>z. keeps (\<lambda>h. host.more h = z) m"
  shows "trust_quiet E view m" and "trust_quiet E view (map_error g m)"
  using assms by (auto intro!: trust_quietI quiet_host keeps_map_error)

lemma call_quiet:
  assumes "\<And>z. keeps (\<lambda>h. host.more h = z) m"
  shows "trust_quiet E view (server_call m)"
  unfolding server_call_def using assms by (rule host_quiet(2))

lemma keeps_rest_connect: "keeps (\<lambda>h. host.more h = z) (connect_endpoints W es)"
  unfolding connect_endpoints_def by (simp add: keeps_rest_connect_loop keeps_throw)

lemma keeps_rest_calls:
  "keeps (\<lambda>h. host.more h = z) (login_call W c req)" "keeps (\<lambda>h. host.more h = z) (bootstrap_call W c req')"
  by (simp_all add: login_call_def bootstrap_call_def keeps_rest_call)

lemmas rest_kept = keeps_rest_rng keeps_rest_net keeps_rest_connect keeps_rest_calls keeps_rest_session_key_material quiet_calls

lemma inner_quiet: "trust_quiet E view current_session" "trust_quiet E view get_inner"
  by (auto intro!: trust_quietI quiet_session simp: get_inner_def keeps_read_state)

lemma set_inner_quiet: "(\<And>i. in_verified (f i) = in_verified i) \<Longrightarrow> trust_quiet E view (set_inner f)"
  by (intro trust_quietI quiet_set_inner)

lemma store_quiet:
  assumes "secret_store (env_store E) view"
  shows "trust_quiet E view (on_store (vault_server_profile J (env_store E)))"
    and "trust_quiet E view (on_store (vault_master_key (env_store E)))"
    and "trust_quiet E view (on_store (vault_secret_key (env_store E)))"
    and "trust_quiet E view (on_store (vault_session_token (env_store E)))"
    and "trust_quiet E view (on_store (vault_set_master_key (env_store E) mk))"
    and "trust_quiet E view (on_store (vault_set_secret_key (env_store E) sk))"
    and "trust_quiet E view (on_store (vault_set_session_token (env_store E) tok))"
    and "trust_quiet E view (on_store (vault_set_device_secret (env_store E) dev))"
  by (intro trust_quietI secret_store.quiet_getters [OF assms] secret_store.quiet_setters [OF assms])+

lemmas quiet_steps = rest_kept [THEN host_quiet(1)] rest_kept [THEN host_quiet(2)] rest_kept [THEN call_quiet]
  inner_quiet set_inner_quiet

text \<open>The draws of the key generation.\<close>

lemma draws_assure:
  assumes "allows_rest X" and "kept Y A"
  shows "assures (on_trust E view Y) (on_trust E view X) (\<lambda>_. at_trust E view A) (seal_steps L key p) (at_trust E view A)"
    and "assures (on_trust E view Y) (on_trust E view X) (\<lambda>_. at_trust E view A) (bootstrap_steps L pw prm) (at_trust E view A)"
    and "assures (on_trust E view Y) (on_trust E view X) (\<lambda>_. at_trust E view A) (rewrap_steps L mk sk pw prm) (at_trust E view A)"
proof -
  note rules = assures_quiet_then [OF _ assms] quiet_steps assures_result_then assures_pure
  show seal: "assures (on_trust E view Y) (on_trust E view X) (\<lambda>_. at_trust E view A) (seal_steps L key p) (at_trust E view A)"
    for key p
    unfolding seal_steps_def draw_def by (auto intro!: rules)
  show "assures (on_trust E view Y) (on_trust E view X) (\<lambda>_. at_trust E view A) (bootstrap_steps L pw prm) (at_trust E view A)"
    unfolding bootstrap_steps_def draw_def by (intro rules assures_and_next [OF seal])
  show "assures (on_trust E view Y) (on_trust E view X) (\<lambda>_. at_trust E view A) (rewrap_steps L mk sk pw prm) (at_trust E view A)"
    unfolding rewrap_steps_def draw_def by (intro rules assures_and_next [OF seal])
qed

text \<open>Meeting a server: the flow does not touch trust, and the server it returns is the one asked for, if one was.\<close>

lemma check_pin_met: "check_pin v pinned \<noteq> Mismatch \<Longrightarrow> pinned = None \<or> pinned = Some (identity_public v)"
  by (auto simp: check_pin_def split: option.splits if_splits)

lemma discover_assures:
  assumes "allows_rest X" and "kept Y A"
  shows "assures (on_trust E view Y) (on_trust E view X)
    (\<lambda>r s. at_trust E view A s \<and> (\<forall>c v d. r = Inr (c, v, d) \<longrightarrow> pinned = None \<or> pinned = Some (identity_public v)))
    (discover_steps D W host port pinned) (at_trust E view A)"
proof -
  note quiet = assures_quiet_then [where X = X and A = A and Y = Y and E = E and view = view]
  have fetch: "assures (on_trust E view Y) (on_trust E view X) (\<lambda>_. at_trust E view A)
      (fetch_steps D W url) (at_trust E view A)" for url
    unfolding fetch_steps_def
    by (intro quiet quiet_steps assms) (auto intro!: assures_fail assures_result split: option.split)
  show ?thesis
    unfolding discover_steps_def Let_def
  proof (rule assures_and_next [OF assures_error_to [OF fetch]])
    show "assures (on_trust E view Y) (on_trust E view X)
        (\<lambda>r s. at_trust E view A s \<and> (\<forall>c v d. r = Inr (c, v, d) \<longrightarrow> pinned = None \<or> pinned = Some (identity_public v)))
        (if check_pin v pinned = Mismatch then fail Identity_Mismatch
         else and_next (atom (map_error Connect_Failed (connect_endpoints W [host_port host (vs_grpc_port v)])))
           (\<lambda>channel. pure (channel, v, check_pin v pinned))) (at_trust E view A)" for v
    proof (cases "check_pin v pinned = Mismatch")
      case False
      show ?thesis
        unfolding if_not_P [OF False]
        by (rule quiet, rule quiet_steps, rule assms(1), rule assms(2))
           (use check_pin_met [OF False] in \<open>auto intro: assures_pure\<close>)
    qed (simp add: assures_fail)
  qed simp
qed

lemma allows_rest_moves [simp]: "allows_rest free" "allows_rest enters_server" "allows_rest pins_server"
  by (simp_all add: allows_rest_def)

lemma kept_True [simp]: "kept Y (\<lambda>_. True)"
  by (simp add: kept_def)

lemma ready_quiet: "met (Waiting p) = None \<Longrightarrow> assures R G (\<lambda>r. at_trust E view (ready_ok op r)) (pure (Some p)) P"
  by (rule assures_pure) (simp add: at_trust_def ready_ok_def)

lemma delete_free:
  fixes E :: "('n, 's, 'c) env"
  assumes "atomic_store (env_store E) view"
  shows "assures (on_trust E view Y) (on_trust E view free) (\<lambda>_. at_trust E view (\<lambda>_. True))
    (delete_steps E keys) (at_trust E view (\<lambda>_. True))"
proof (induction keys)
  case Nil
  show ?case by (simp add: assures_pure)
next
  case (Cons key keys)
  have one: "assures (on_trust E view Y) (on_trust E view free) (\<lambda>_. at_trust E view (\<lambda>_. True))
      (atom (on_store (store_delete (env_store E) key))) (at_trust E view (\<lambda>_. True))"
  proof (rule assures_learns)
    fix s s' :: "('n, 's, 'c) client" and r
    assume run: "on_store (store_delete (env_store E) key) s = (r, s')"
    obtain q t where d: "store_delete (env_store E) key (cl_store s) = (q, t)"
      by (cases "store_delete (env_store E) key (cl_store s)")
    have s': "s' = s\<lparr>cl_store := t\<rparr>" using run d by (cases r) auto
    have "delete_all (env_store E) [key] (cl_store s) = (q, t)"
      using d by (cases q) (simp_all add: and_then_def ret_eq)
    then have "view t SERVER_PROFILE = view (cl_store s) SERVER_PROFILE \<or> view t SERVER_PROFILE = None"
      by (rule atomic_store.delete_all_entry [OF assms])
    then show "free (trust_of E view s) (trust_of E view s') \<and> True"
      by (auto simp: s' trust_moves trust_of_def stored_pin_def)
  qed simp
  then show ?case using Cons by (auto intro: assures_and_next)
qed

lemma met_assures:
  assumes "secret_store (env_store E) view" and "connects op"
    and "\<And>c v. met (Waiting (wrap c v)) = Some (identity_public v)"
  shows "assures (on_trust E view (others_before op)) (on_trust E view free) (\<lambda>r. at_trust E view (ready_ok op r))
    (and_next (matched (discover_steps (env_discovery E) (env_net E) host port pinned))
       (\<lambda>result. case result of Inl e \<Rightarrow> pure None | Inr (c, v, d) \<Rightarrow> pure (Some (wrap c v))))
    (at_trust E view (\<lambda>T. ts_pin T = None \<or> ts_pin T = pinned))"
proof -
  have kept: "kept (others_before op) (\<lambda>T. ts_pin T = None \<or> ts_pin T = pinned)"
    using assms(2) by (auto simp: kept_def others_before_def pin_kept_def)
  show ?thesis
    by (rule assures_matched_then [OF discover_assures [OF allows_rest_moves(1) kept]])
       (auto intro!: assures_pure simp: at_trust_def ready_ok_def assms(2,3) split: sum.split)
qed

text \<open>The pin that was read stays the pin, or is dropped.\<close>

definition pin_is :: "bytes option \<Rightarrow> trust \<Rightarrow> bool" where
  "pin_is pinned T \<longleftrightarrow> ts_pin T = None \<or> ts_pin T = pinned"

lemma kept_pin_is [simp]: "connects op \<Longrightarrow> kept (others_before op) (pin_is pinned)"
  by (auto simp: kept_def others_before_def pin_kept_def pin_is_def)

lemma read_pin_then:
  fixes E :: "('n, 's, 'c) env"
  assumes "secret_store (env_store E) view" and "connects op"
    and "\<And>stored. assures (on_trust E view (others_before op)) (on_trust E view free) Q (f stored)
      (at_trust E view (pin_is (map_option sp_identity_public stored)))"
    and "\<And>e s. Q (Inl e) s"
  shows "assures (on_trust E view (others_before op)) (on_trust E view free) Q
    (and_next (atom (on_store (vault_server_profile (env_vault E) (env_store E)))) f) (at_trust E view (\<lambda>_. True))"
proof (rule assures_and_next)
  let ?B = "\<lambda>r. case r of Inl e \<Rightarrow> \<lambda>_. True | Inr stored \<Rightarrow> pin_is (map_option sp_identity_public stored)"
  show "assures (on_trust E view (others_before op)) (on_trust E view free) (\<lambda>r. at_trust E view (?B r))
      (atom (on_store (vault_server_profile (env_vault E) (env_store E)))) (at_trust E view (\<lambda>_. True))"
  proof (rule assures_learns)
    fix s s' :: "('n, 's, 'c) client" and r
    assume run: "on_store (vault_server_profile (env_vault E) (env_store E)) s = (r, s')"
    have same: "trust_of E view s' = trust_of E view s"
      using store_quiet(1) [OF assms(1), of "env_vault E"] run unfolding trust_quiet_def by blast
    have "ts_pin (trust_of E view s) = map_option sp_identity_public stored" if r: "r = Inr stored" for stored
    proof -
      obtain t where "vault_server_profile (env_vault E) (env_store E) (cl_store s) = (Inr stored, t)"
        using run r by auto
      from vault_profile_read [OF assms(1) this] show ?thesis
        by (auto simp: trust_of_def stored_pin_def split: option.splits)
    qed
    then show "free (trust_of E view s) (trust_of E view s') \<and> ?B r (trust_of E view s')"
      by (simp add: same pin_is_def split: sum.split)
  qed (use assms(2) in \<open>simp split: sum.split\<close>)
qed (simp_all add: assms(3,4))

lemma connect_before:
  assumes "secret_store (env_store E) view"
  shows "assures (on_trust E view (others_before (Op_Connect host port))) (on_trust E view free)
    (\<lambda>r. at_trust E view (ready_ok (Op_Connect host port) r)) (before_steps E (Op_Connect host port))
    (at_trust E view (\<lambda>_. True))"
  unfolding before_steps.simps
  by (rule read_pin_then [OF assms], simp, rule assures_error_then [OF discover_assures])
     (auto intro!: assures_pure simp: at_trust_def ready_ok_def pin_is_def)

lemma resume_before:
  assumes "secret_store (env_store E) view"
  shows "assures (on_trust E view (others_before Op_Restore)) (on_trust E view free)
    (\<lambda>r. at_trust E view (ready_ok Op_Restore r)) (resume_steps E) (at_trust E view (\<lambda>_. True))"
  unfolding resume_steps_def
proof (rule read_pin_then [OF assms])
  let ?R = "on_trust E view (others_before Op_Restore)" and ?G = "on_trust E view free"
    and ?Q = "\<lambda>r. at_trust E view (ready_ok Op_Restore r)"
  have none: "assures ?R ?G ?Q (pure None) P" for P
    by (rule assures_pure) (simp add: at_trust_def)
  have found: "assures ?R ?G ?Q (and_next (matched (discover_steps (env_discovery E) (env_net E) host port pinned))
        (\<lambda>result. case result of Inl e \<Rightarrow> pure None | Inr (c, v, d) \<Rightarrow> pure (Some (Resuming profile token c v))))
      (at_trust E view (pin_is pinned))" for host port pinned profile token
    using met_assures [OF assms, of Op_Restore "Resuming profile token"] by (simp add: pin_is_def [abs_def])
  fix stored
  show "assures ?R ?G ?Q (case stored of
          None \<Rightarrow> pure None
        | Some profile \<Rightarrow>
     and_next (atom (on_store (vault_session_token (env_store E)))) (\<lambda>cached.
       (case cached of
          None \<Rightarrow> pure None
        | Some token \<Rightarrow>
       (case sp_endpoints profile of
          [] \<Rightarrow> pure None
        | endpoint # _ \<Rightarrow>
       (case rsplit_once (CHR '':'') endpoint of
          None \<Rightarrow> pure None
        | Some (host, port) \<Rightarrow>
       (case parse_u16 port of
          None \<Rightarrow> pure None
        | Some discovery_port \<Rightarrow>
     and_next (matched (discover_steps (env_discovery E) (env_net E) host discovery_port
         (Some (sp_identity_public profile)))) (\<lambda>result.
       (case result of
          Inl e \<Rightarrow> pure None
        | Inr (channel, verified, decision) \<Rightarrow> pure (Some (Resuming profile token channel verified)))))))))) 
    (at_trust E view (pin_is (map_option sp_identity_public stored)))"
    by (auto intro!: none found assures_quiet_then store_quiet [OF assms] simp: at_trust_def
        split: option.split list.split)
qed (simp_all add: at_trust_def)

lemma before_assures:
  assumes "atomic_store (env_store E) view"
  shows "assures (on_trust E view (others_before op)) (on_trust E view free) (\<lambda>r. at_trust E view (ready_ok op r))
    (before_steps E op) (at_trust E view (\<lambda>_. True))"
proof -
  note store = atomic_store.axioms(1) [OF assms]
  note rules = assures_quiet_then [OF _ allows_rest_moves(1) kept_True] assures_result_then ready_quiet quiet_steps
    store_quiet [OF store] assures_and_next [OF delete_free [OF assms]]
    assures_error_then [OF draws_assure(1) [OF allows_rest_moves(1) kept_True]]
  show ?thesis
  proof (cases op)
    case (Op_Sign_In email pw entered)
    show ?thesis
      unfolding Op_Sign_In before_steps.simps
      by (rule assures_and_next [where Q' = "\<lambda>_. at_trust E view (\<lambda>_. True)"])
         (auto simp: resolve_steps_def at_trust_def intro!: rules assures_result split: option.split)
  qed (use connect_before [OF store] resume_before [OF store] in
      \<open>auto simp: at_trust_def simp del: delete_steps.simps intro!: rules\<close>)
qed

section \<open>Under the lock\<close>

definition may_enter :: "'c pending \<Rightarrow> trust \<Rightarrow> bool" where
  "may_enter p T \<longleftrightarrow> (\<forall>k. met (Waiting p) = Some k \<longrightarrow> pin_is (Some k) T)"

lemma kept_may_enter [simp]: "kept pin_kept (may_enter p)"
  by (auto simp: kept_def may_enter_def pin_kept_def pin_is_def)

lemma assures_any: "assures R G (\<lambda>_ _. True) (pure x) P" "assures R G (\<lambda>_ _. True) (fail e) P"
  "assures R G (\<lambda>_ _. True) (from_result r) P"
  by (simp_all add: pure_def fail_def from_result_def)

lemma assures_last:
  assumes "\<And>s r s'. at_trust E view A s \<Longrightarrow> m s = (r, s') \<Longrightarrow> X (trust_of E view s) (trust_of E view s')"
  shows "assures (on_trust E view Y) (on_trust E view X) (\<lambda>_ _. True) (atom m) (at_trust E view A)"
proof (rule assures_post [OF assures_learns [where B = "\<lambda>_ _. True"]])
  show "X (trust_of E view s) (trust_of E view s') \<and> True" if "at_trust E view A s" "m s = (r, s')" for s r s'
    using assms [OF that] by simp
qed simp_all

lemma assures_quiet_last:
  "trust_quiet E view m \<Longrightarrow> allows_rest X \<Longrightarrow>
     assures (on_trust E view Y) (on_trust E view X) (\<lambda>_ _. True) (atom m) (at_trust E view A)"
  by (rule assures_last) (auto simp: trust_quiet_def allows_rest_def)

text \<open>The update of \<open>connect\<close> and of \<open>restore\<close>, and the reset.\<close>

lemma enter_assures:
  fixes E :: "('n, 's, 'c) env"
  assumes "\<And>i. map_option identity_public (in_verified (f i)) = k" and "\<And>x. k = Some x \<Longrightarrow> met (Waiting p) = Some x"
  shows "assures (on_trust E view Y) (on_trust E view enters_server) (\<lambda>_ _. True) (atom (set_inner f)) (at_trust E view (may_enter p))"
proof (rule assures_last)
  fix s s' :: "('n, 's, 'c) client" and r :: "client_error + unit"
  assume "at_trust E view (may_enter p) s" and "set_inner f s = (r, s')"
  then show "enters_server (trust_of E view s) (trust_of E view s')"
    using trust_of_set_inner [of E view f s] assms
    by (cases k) (auto simp: trust_moves at_trust_def may_enter_def pin_is_def trust_ok_def)
qed

lemma locked_quiet:
  assumes "secret_store (env_store E) view" and "\<not> pins p" and "met (Waiting p) = None" and "p \<noteq> Leaving"
  shows "assures (on_trust E view pin_kept) (on_trust E view enters_server) (\<lambda>_ _. True) (locked_steps E p)
    (at_trust E view (may_enter p))"
proof -
  note rules = assures_quiet_then [OF _ allows_rest_moves(2) kept_may_enter] assures_result_then assures_any
    assures_quiet_last [OF _ allows_rest_moves(2)] quiet_steps store_quiet [OF assms(1)]
    assures_error_then [OF draws_assure(3) [OF allows_rest_moves(2) kept_may_enter]]
  note steps = request_steps_def session_steps_def enroll_device_steps_def change_password_steps_def get_avatar_steps_def
  show ?thesis
  proof (cases p)
    case (Locked op)
    with assms(2) show ?thesis by (cases op) (auto simp: steps intro!: rules)
  qed (use assms(2-4) in \<open>auto simp: steps intro!: rules split: option.split\<close>)
qed

lemma locked_assures:
  assumes "secret_store (env_store E) view" and "\<not> pins p"
  shows "assures (on_trust E view pin_kept) (on_trust E view enters_server) (\<lambda>_ _. True) (locked_steps E p)
    (at_trust E view (may_enter p))"
proof (cases p)
  case (Connecting host port c v)
  then show ?thesis by (auto simp: connect_finish_def intro: enter_assures)
next
  case (Resuming prof tok c v)
  then show ?thesis by (auto simp: restore_finish_def intro: enter_assures)
next
  case Leaving
  then show ?thesis by (auto simp: inner_default_def intro: enter_assures)
qed (use assms in \<open>auto intro!: locked_quiet simp del: locked_steps.simps\<close>)

text \<open>An enrollment or sign-in: the server read at the start is the one that is pinned.\<close>

definition server_is :: "bytes \<Rightarrow> trust \<Rightarrow> bool" where
  "server_is k T \<longleftrightarrow> ts_server T = Some k"

lemma kept_server_is [simp]: "kept server_kept (server_is k)"
  by (simp add: kept_def server_is_def server_kept_def)

lemma profile_pins:
  fixes E :: "('n, 's, 'c) env"
  assumes "atomic_store (env_store E) view" and "profile_json_sound (env_vault E)"
  shows "assures (on_trust E view server_kept) (on_trust E view pins_server) (\<lambda>_. at_trust E view (server_is k))
    (atom (on_store (vault_set_server_profile (env_vault E) (env_store E)
       \<lparr>sp_endpoints = es, sp_identity_public = k, sp_user_id = uid\<rparr>))) (at_trust E view (server_is k))"
proof (rule assures_learns)
  let ?m = "on_store (vault_set_server_profile (env_vault E) (env_store E)
       \<lparr>sp_endpoints = es, sp_identity_public = k, sp_user_id = uid\<rparr>) :: ('n, 's, 'c, unit) client_exec"
  fix s s' :: "('n, 's, 'c) client" and r
  assume "at_trust E view (server_is k) s" and run: "?m s = (r, s')"
  then obtain v where v: "in_verified (cl_inner s) = Some v" "identity_public v = k"
    by (auto simp: at_trust_def server_is_def trust_of_def)
  then have "keeps (pins_at E view (stored_pin E view s) v) ?m"
    by (intro pins_profile [OF assms]) simp
  with v run have "trust_of E view s' = trust_of E view s \<or> trust_of E view s' = (trust_of E view s)\<lparr>ts_pin := Some k\<rparr>"
    using trust_of_pins [OF v(1), of E view ?m] by (metis snd_conv)
  moreover have "ts_server (trust_of E view s) = Some k" using v by (simp add: trust_of_def)
  ultimately show "pins_server (trust_of E view s) (trust_of E view s') \<and> server_is k (trust_of E view s')"
    by (auto simp: trust_moves server_is_def)
qed simp

lemma persist_pins:
  assumes "atomic_store (env_store E) view" and "profile_json_sound (env_vault E)" and "tc_identity_public data = k"
  shows "assures (on_trust E view server_kept) (on_trust E view pins_server) (\<lambda>_. at_trust E view (server_is k))
    (persist_steps E data) (at_trust E view (server_is k))"
proof -
  note store = atomic_store.axioms(1) [OF assms(1)]
  have device: "assures (on_trust E view server_kept) (on_trust E view pins_server) (\<lambda>_. at_trust E view (server_is k))
      (case dev of Some secret \<Rightarrow> atom (on_store (vault_set_device_secret (env_store E) secret)) | None \<Rightarrow> pure ())
      (at_trust E view (server_is k))" for dev
    by (cases dev) (auto intro!: assures_quiet store_quiet [OF store] assures_pure)
  show ?thesis
    unfolding persist_steps_def Let_def assms(3)
    by (intro assures_quiet_then store_quiet [OF store] assures_and_next [OF device] profile_pins [OF assms(1,2)]) simp_all
qed

lemma remembered_pins:
  assumes "atomic_store (env_store E) view" and "profile_json_sound (env_vault E)" and "tc_identity_public data = k"
    and "\<And>i. in_verified (f i) = in_verified i"
  shows "assures (on_trust E view server_kept) (on_trust E view pins_server) (\<lambda>_ _. True)
    (and_next (persist_steps E data) (\<lambda>_. atom (set_inner f))) (at_trust E view (server_is k))"
  by (rule assures_and_next [OF persist_pins [OF assms(1-3)]])
     (simp_all add: assures_quiet_last set_inner_quiet assms(4))

text \<open>What is read from memory under the lock stays true: nobody else changes it.\<close>

lemma connected_then:
  fixes E :: "('n, 's, 'c) env"
  assumes "\<And>inner channel verified. in_verified inner = Some verified \<Longrightarrow>
    assures (on_trust E view server_kept) (on_trust E view pins_server) (\<lambda>_ _. True) (f inner channel verified)
      (at_trust E view (server_is (identity_public verified)))"
  shows "assures (on_trust E view server_kept) (on_trust E view pins_server) (\<lambda>_ _. True)
    (and_next (atom get_inner) (\<lambda>inner.
     and_next (from_result (ok_or (in_channel inner) NotConnected)) (\<lambda>channel.
     and_next (from_result (ok_or (in_verified inner) NotConnected)) (f inner channel)))) (at_trust E view (\<lambda>_. True))"
proof (rule assures_and_next)
  let ?B = "\<lambda>r. case r of Inl e \<Rightarrow> \<lambda>_. True | Inr inner \<Rightarrow> (\<lambda>T. ts_server T = map_option identity_public (in_verified inner))"
  show "assures (on_trust E view server_kept) (on_trust E view pins_server) (\<lambda>r. at_trust E view (?B r))
      (atom get_inner) (at_trust E view (\<lambda>_. True))"
  proof (rule assures_learns)
    fix s s' :: "('n, 's, 'c) client" and r :: "client_error + 'c inner"
    assume "get_inner s = (r, s')"
    then show "pins_server (trust_of E view s) (trust_of E view s') \<and> ?B r (trust_of E view s')"
      by (auto simp: get_inner_def read_state_def trust_of_def)
  qed (simp add: kept_def server_kept_def split: sum.split)
next
  fix inner :: "'c inner"
  show "assures (on_trust E view server_kept) (on_trust E view pins_server) (\<lambda>_ _. True)
     (and_next (from_result (ok_or (in_channel inner) NotConnected)) (\<lambda>channel.
      and_next (from_result (ok_or (in_verified inner) NotConnected)) (f inner channel)))
     (at_trust E view (case Inr inner of Inl e \<Rightarrow> \<lambda>_. True | Inr inner \<Rightarrow> (\<lambda>T. ts_server T = map_option identity_public (in_verified inner))))"
    by (intro assures_result_then) (auto intro: assures_pre [OF assms] simp: at_trust_def server_is_def)
qed simp

lemma pinning_assures:
  assumes "atomic_store (env_store E) view" and "profile_json_sound (env_vault E)" and "pins p"
  shows "assures (on_trust E view server_kept) (on_trust E view pins_server) (\<lambda>_ _. True) (locked_steps E p)
    (at_trust E view (\<lambda>_. True))"
proof -
  note quiet = assures_quiet_then [OF _ allows_rest_moves(3) kept_server_is]
  have login: "assures (on_trust E view server_kept) (on_trust E view pins_server) (\<lambda>_. at_trust E view (server_is k))
      (login_steps (env_crypto E) (env_net E) c email pw sk) (at_trust E view (server_is k))" for k c email pw sk
    unfolding login_steps_def Let_def
    by (auto intro!: quiet quiet_steps assures_result_then assures_pure assures_fail split: option.split login_outcome.split)
  have enroll: "assures (on_trust E view server_kept) (on_trust E view pins_server) (\<lambda>_. at_trust E view (server_is k))
      (enroll_steps (env_crypto E) (env_net E) c owner) (at_trust E view (server_is k))" for k c owner
    unfolding enroll_steps_def
    by (auto intro!: assures_error_then [OF draws_assure(2)] quiet quiet_steps assures_pure)
  have signed: "assures (on_trust E view server_kept) (on_trust E view pins_server) (\<lambda>_ _. True)
      (signed_in_steps E v es sk result) (at_trust E view (server_is (identity_public v)))" for v es sk result
    unfolding signed_in_steps_def
    by (auto intro!: remembered_pins [OF assms(1,2)] assures_any split: sum.split enroll_error.split)
  show ?thesis
  proof (cases p)
    case (Signing_In email pw sk)
    show ?thesis
      unfolding Signing_In locked_steps.simps sign_in_steps_def
      by (rule connected_then, rule assures_matched_then [OF login signed])
  next
    case (Locked op)
    with assms(3) obtain email name pw label where op: "op = Op_Create_Owner email name pw label" by (cases op) auto
    show ?thesis
      unfolding Locked op locked_steps.simps locked_op_steps.simps create_owner_steps_def
      by (rule connected_then, rule assures_error_then [OF enroll]) (auto intro!: remembered_pins [OF assms(1,2)])
  qed (use assms(3) in simp_all)
qed

end
