(* ===== verification/Client_Crew.thy ===== *)
theory Client_Crew
  imports Client_Assures
begin

text \<open>
  A crew of operations of one client: the invariant of trust between any two of their steps, and the
  coarse schedules of \<open>Client_Tasks\<close> as interleavings.
\<close>

section \<open>The invariant\<close>

definition holder_relies :: "'c pending \<Rightarrow> trust \<Rightarrow> trust \<Rightarrow> bool" where
  "holder_relies p = (if pins p then server_kept else pin_kept)"

definition holder_keeps :: "'c pending \<Rightarrow> trust \<Rightarrow> trust \<Rightarrow> bool" where
  "holder_keeps p = (if pins p then pins_server else enters_server)"

definition assured ::
  "('n, 's, 'c) env \<Rightarrow> ('s \<Rightarrow> string \<Rightarrow> bytes option) \<Rightarrow> (trust \<Rightarrow> trust \<Rightarrow> bool) \<Rightarrow> (trust \<Rightarrow> trust \<Rightarrow> bool) \<Rightarrow>
     (client_error + 'a \<Rightarrow> ('n, 's, 'c) client \<Rightarrow> bool) \<Rightarrow> (('n, 's, 'c) client, client_error, 'a) proc \<Rightarrow>
     ('n, 's, 'c) client \<Rightarrow> bool" where
  "assured E view Y X Q p s \<longleftrightarrow>
     (\<exists>P. P s \<and> undisturbed (on_trust E view Y) P \<and> assures (on_trust E view Y) (on_trust E view X) Q p P)"

lemma assured_step:
  assumes "assured E view Y X Q (Step k) s" and "k s = (p, s')"
  shows "X (trust_of E view s) (trust_of E view s')" and "assured E view Y X Q p s'"
proof -
  obtain P where "P s" and p: "assures (on_trust E view Y) (on_trust E view X) Q (Step k) P"
    using assms(1) unfolding assured_def by blast
  with assms(2) have "on_trust E view X s s' \<and>
      (\<exists>P'. undisturbed (on_trust E view Y) P' \<and> P' s' \<and> assures (on_trust E view Y) (on_trust E view X) Q p P')"
    unfolding assures_Step by blast
  then show "X (trust_of E view s) (trust_of E view s')" and "assured E view Y X Q p s'"
    unfolding assured_def on_trust_def by blast+
qed

lemma assured_others:
  "assured E view Y X Q p s \<Longrightarrow> Y (trust_of E view s) (trust_of E view s') \<Longrightarrow> assured E view Y X Q p s'"
  unfolding assured_def undisturbed_def on_trust_def by blast

lemma assured_start:
  "assures (on_trust E view Y) (on_trust E view X) Q p (at_trust E view A) \<Longrightarrow> kept Y A \<Longrightarrow> A (trust_of E view s) \<Longrightarrow>
     assured E view Y X Q p s"
  unfolding assured_def at_trust_def using undisturbed_at [of Y A E view] by (auto simp: at_trust_def [abs_def])

fun worker_ok ::
  "('n, 's, 'c) env \<Rightarrow> ('s \<Rightarrow> string \<Rightarrow> bytes option) \<Rightarrow> ('n, 's, 'c) client \<Rightarrow> ('n, 's, 'c) worker \<Rightarrow> bool" where
  "worker_ok E view s (Before op p) \<longleftrightarrow>
     assured E view (others_before op) free (\<lambda>r. at_trust E view (ready_ok op r)) p s"
| "worker_ok E view s (Blocked p) \<longleftrightarrow> may_enter p (trust_of E view s)"
| "worker_ok E view s (Holding p q) \<longleftrightarrow> assured E view (holder_relies p) (holder_keeps p) (\<lambda>_ _. True) q s"
| "worker_ok E view s _ \<longleftrightarrow> True"

text \<open>What a step of a worker does to trust.\<close>

fun moves :: "('n, 's, 'c) worker \<Rightarrow> trust \<Rightarrow> trust \<Rightarrow> bool" where
  "moves (Before op p) = free"
| "moves (Holding p q) = holder_keeps p"
| "moves _ = (\<lambda>T T'. T' = T)"

lemma work_ok:
  assumes "atomic_store (env_store E) view" and "profile_json_sound (env_vault E)"
    and "worker_ok E view s w" and "work E w s = (w', s')"
  shows "moves w (trust_of E view s) (trust_of E view s')" and "worker_ok E view s' w'"
proof -
  have "moves w (trust_of E view s) (trust_of E view s') \<and> worker_ok E view s' w'"
  proof (cases w)
    case (Idle op)
    with assms(4) show ?thesis
      using assured_start [OF before_assures [OF assms(1)] kept_True] by auto
  next
    case (Before op p)
    show ?thesis
    proof (cases p)
      case (Finished r)
      then have "ready_ok op r (trust_of E view s)"
        using assms(3) Before by (auto simp: assured_def at_trust_def)
      then show ?thesis
        using assms(4) Before Finished by (cases r rule: after_before.cases) (auto simp: ready_ok_def may_enter_def pin_is_def)
    next
      case (Step k)
      obtain q where k: "k s = (q, s')" "w' = Before op q" using assms(4) Before Step by (auto split: prod.split_asm)
      show ?thesis using assured_step [where k = k and s = s, OF _ k(1)] assms(3) k(2) Before Step by auto
    qed
  next
    case (Blocked p)
    have "worker_ok E view s (Holding p (locked_steps E p))"
    proof (cases "pins p")
      case True
      then show ?thesis
        using assured_start [OF pinning_assures [OF assms(1,2) True] kept_True]
        by (simp add: holder_relies_def holder_keeps_def)
    next
      case False
      then show ?thesis
        using assured_start [OF locked_assures [OF atomic_store.axioms(1) [OF assms(1)] False] kept_may_enter] assms(3) Blocked
        by (simp add: holder_relies_def holder_keeps_def)
    qed
    with assms(4) Blocked show ?thesis by auto
  next
    case (Holding p q)
    show ?thesis
    proof (cases q)
      case (Step k)
      obtain q' where k: "k s = (q', s')" "w' = Holding p q'" using assms(4) Holding Step by (auto split: prod.split_asm)
      show ?thesis using assured_step [where k = k and s = s, OF _ k(1)] assms(3) k(2) Holding Step by auto
    qed (use assms(4) Holding in \<open>auto simp: holder_keeps_def\<close>)
  qed (use assms(4) in auto)
  then show "moves w (trust_of E view s) (trust_of E view s')" and "worker_ok E view s' w'" by blast+
qed

text \<open>What the others see of it.\<close>

definition tolerates :: "('n, 's, 'c) worker \<Rightarrow> trust \<Rightarrow> trust \<Rightarrow> bool" where
  "tolerates w T T' \<longleftrightarrow>
     (linking w \<or> holds w \<and> \<not> pinning w \<longrightarrow> pin_kept T T') \<and> (pinning w \<longrightarrow> server_kept T T')"

lemma worker_ok_others:
  "worker_ok E view s w \<Longrightarrow> tolerates w (trust_of E view s) (trust_of E view s') \<Longrightarrow> worker_ok E view s' w"
  by (cases w) (auto simp: tolerates_def others_before_def holder_relies_def may_enter_def pin_is_def pin_kept_def
      elim!: assured_others)

lemma pinning_holds: "pinning w \<Longrightarrow> holds w"
  by (cases w) simp_all

lemma pinning_not_linking: "pinning w \<Longrightarrow> \<not> linking w"
  by (cases w rule: pinning.cases) (auto elim!: pins.elims)

text \<open>One holder at most; no connection attempt while an enrollment or sign-in holds the lock.\<close>

definition crew_ok :: "('n, 's, 'c) env \<Rightarrow> ('s \<Rightarrow> string \<Rightarrow> bytes option) \<Rightarrow> ('n, 's, 'c) worker list \<Rightarrow> ('n, 's, 'c) client \<Rightarrow> bool" where
  "crew_ok E view ws s \<longleftrightarrow>
     trust_ok (trust_of E view s) \<and> (\<forall>w \<in> set ws. worker_ok E view s w) \<and>
     (\<forall>i < length ws. \<forall>j < length ws. holds (ws ! i) \<longrightarrow> holds (ws ! j) \<longrightarrow> i = j) \<and>
     (\<forall>w \<in> set ws. pinning w \<longrightarrow> (\<forall>u \<in> set ws. \<not> linking u))"

lemma work_kind:
  assumes "worker_ok E view s w" and "work E w s = (w', s')"
  shows "holds w' \<Longrightarrow> holds w \<or> takes_lock w"
    and "linking w' \<Longrightarrow> linking w \<or> (\<exists>op. w = Idle op \<and> connects op)"
    and "pinning w' \<Longrightarrow> pinning w \<or> (\<exists>p. w = Blocked p \<and> pins p)"
proof -
  have "(holds w' \<longrightarrow> holds w \<or> takes_lock w) \<and> (linking w' \<longrightarrow> linking w \<or> (\<exists>op. w = Idle op \<and> connects op)) \<and>
      (pinning w' \<longrightarrow> pinning w \<or> (\<exists>p. w = Blocked p \<and> pins p))"
  proof (cases w)
    case (Before op p)
    show ?thesis
    proof (cases p)
      case (Finished r)
      then have "ready_ok op r (trust_of E view s)"
        using assms(1) Before by (auto simp: assured_def at_trust_def)
      then show ?thesis
        using assms(2) Before Finished by (cases r rule: after_before.cases) (auto simp: ready_ok_def)
    qed (use assms(2) Before in \<open>auto split: prod.split_asm\<close>)
  next
    case (Holding p q)
    then show ?thesis using assms(2) by (cases q) (auto split: prod.split_asm)
  qed (use assms(2) in auto)
  then show "holds w' \<Longrightarrow> holds w \<or> takes_lock w"
    and "linking w' \<Longrightarrow> linking w \<or> (\<exists>op. w = Idle op \<and> connects op)"
    and "pinning w' \<Longrightarrow> pinning w \<or> (\<exists>p. w = Blocked p \<and> pins p)" by blast+
qed

lemma moves_tolerated:
  assumes "moves w T T'" and "holds w \<longrightarrow> \<not> holds u" and "pinning w \<longrightarrow> \<not> linking u"
  shows "tolerates u T T'"
  using assms pinning_holds [of u] pinning_not_linking [of u]
  by (cases w) (auto simp: tolerates_def holder_keeps_def trust_moves split: if_split_asm)

lemma moves_ok: "moves w T T' \<Longrightarrow> trust_ok T \<Longrightarrow> trust_ok T'"
  by (cases w) (auto simp: holder_keeps_def intro: trust_moves_ok split: if_split_asm)

lemma crew_step:
  assumes "atomic_store (env_store E) view" and "profile_json_sound (env_vault E)"
    and ok: "crew_ok E view ws s" and i: "i < length ws" and lock: "takes_lock (ws ! i) \<longrightarrow> (\<forall>w \<in> set ws. \<not> holds w)"
    and apart: "apart ws i" and run: "work E (ws ! i) s = (w', s')"
  shows "crew_ok E view (ws[i := w']) s'"
proof -
  let ?T = "trust_of E view s" and ?T' = "trust_of E view s'"
  have all: "\<And>w. w \<in> set ws \<Longrightarrow> worker_ok E view s w" and mem: "ws ! i \<in> set ws"
    and one: "\<And>j k. j < length ws \<Longrightarrow> k < length ws \<Longrightarrow> holds (ws ! j) \<Longrightarrow> holds (ws ! k) \<Longrightarrow> j = k"
    and no_link: "\<And>w u. w \<in> set ws \<Longrightarrow> pinning w \<Longrightarrow> u \<in> set ws \<Longrightarrow> \<not> linking u"
    using ok i by (auto simp: crew_ok_def)
  note me = all [OF mem]
  note moved = work_ok(1) [OF assms(1,2) me run]
  have others: "worker_ok E view s' (ws ! j)" if "j < length ws" "j \<noteq> i" for j
    using one [of i j] no_link [of "ws ! i" "ws ! j"] that i mem
    by (intro worker_ok_others [OF all moves_tolerated [OF moved]]) auto
  have "\<forall>w \<in> set (ws[i := w']). worker_ok E view s' w"
    using others work_ok(2) [OF assms(1,2) me run] i
    by (auto simp: in_set_conv_nth nth_list_update)
  moreover have "trust_ok ?T'" using moves_ok [OF moved] ok by (simp add: crew_ok_def)
  moreover have alone: "\<not> holds (ws ! k)" if "holds w'" "k < length ws" "k \<noteq> i" for k
    using work_kind(1) [OF me run that(1)] lock one [OF i that(2)] nth_mem [OF that(2)] that(3) by blast
  have "\<forall>j < length ws. \<forall>k < length ws. holds (ws[i := w'] ! j) \<longrightarrow> holds (ws[i := w'] ! k) \<longrightarrow> j = k"
    using one alone i by (metis nth_list_update)
  moreover have "\<not> linking u" if "w \<in> set (ws[i := w'])" "pinning w" "u \<in> set (ws[i := w'])" for w u
  proof
    assume "linking u"
    have new: "x = w' \<or> x \<in> set ws" if "x \<in> set (ws[i := w'])" for x
      using that set_update_subset_insert [of ws i w'] by blast
    have here: "\<not> (linking w' \<and> pinning w')" using pinning_not_linking by blast
    show False
    proof (cases "w = w'")
      case True
      with here \<open>linking u\<close> that(2) have u: "u \<in> set ws" using new [OF that(3)] by auto
      from work_kind(3) [OF me run] True that(2) show ?thesis
        using no_link [OF mem _ u] \<open>linking u\<close> apart u by (auto simp: apart_def)
    next
      case False
      then have w: "w \<in> set ws" using new [OF that(1)] by simp
      show ?thesis
      proof (cases "u = w'")
        case True
        with work_kind(2) [OF me run] \<open>linking u\<close> show ?thesis
          using no_link [OF w that(2) mem] apart w that(2) by (auto simp: apart_def)
      qed (use new [OF that(3)] no_link [OF w that(2)] \<open>linking u\<close> in simp)
    qed
  qed
  ultimately show ?thesis by (simp add: crew_ok_def)
qed

lemma works_crew:
  assumes "atomic_store (env_store E) view" and "profile_json_sound (env_vault E)"
    and "works E apart ws0 s0 ws s" and "crew_ok E view ws0 s0"
  shows "crew_ok E view ws s"
  using assms(3,4)
proof (induction rule: works.induct)
  case (spawn ws s op)
  then show ?case by (auto simp: crew_ok_def nth_append less_Suc_eq)
next
  case (step ws s i w s')
  then show ?case by (intro crew_step [OF assms(1,2)]) simp_all
qed

section \<open>Parts as runs of steps\<close>

text \<open>A scheduler that never stops a worker between two of its steps.\<close>

definition lets_run :: "(('n, 's, 'c) worker list \<Rightarrow> nat \<Rightarrow> bool) \<Rightarrow> bool" where
  "lets_run admitted \<longleftrightarrow>
     (\<forall>ws i. (case ws ! i of Before _ _ \<Rightarrow> True | Holding _ _ \<Rightarrow> True | _ \<Rightarrow> False) \<longrightarrow> admitted ws i)"

lemma lets_runD:
  "lets_run admitted \<Longrightarrow> ws ! i = Before op p \<Longrightarrow> admitted ws i"
  "lets_run admitted \<Longrightarrow> ws ! i = Holding r q \<Longrightarrow> admitted ws i"
  unfolding lets_run_def by (drule spec [where x = ws], drule spec [where x = i], simp)+

lemma lets_run_apart: "lets_run apart"
  by (simp add: lets_run_def apart_def split: worker.split)

lemma before_through:
  assumes "lets_run admitted"
  shows "works E admitted ws0 s0 ws s \<Longrightarrow> i < length ws \<Longrightarrow> ws ! i = Before op p \<Longrightarrow> run_all p s = (r, s') \<Longrightarrow>
    works E admitted ws0 s0 (ws[i := after_before r]) s'"
proof (induction p arbitrary: ws s)
  case (Finished x)
  have "admitted ws i" using assms Finished(3) by (rule lets_runD(1))
  with Finished show ?case using works.step [of E admitted ws0 s0 ws s i "after_before r" s] by simp
next
  case (Step k)
  obtain q t where k: "k s = (q, t)" by (cases "k s")
  have "admitted ws i" using assms Step(4) by (rule lets_runD(1))
  then have "works E admitted ws0 s0 (ws[i := Before op q]) t"
    using works.step [OF Step(2,3), of "Before op q" t] Step(4) k by simp
  moreover have "run_all q t = (r, s')" using Step(5) k by simp
  ultimately show ?case
    using Step(1) [of "k s" q "ws[i := Before op q]" t] k Step(3) rangeI [of k s] by (simp add: fsts.simps)
qed

lemma holding_through:
  assumes "lets_run admitted"
  shows "works E admitted ws0 s0 ws s \<Longrightarrow> i < length ws \<Longrightarrow> ws ! i = Holding p q \<Longrightarrow> run_all q s = (r, s') \<Longrightarrow>
    works E admitted ws0 s0 (ws[i := Over (outcome r)]) s'"
proof (induction q arbitrary: ws s)
  case (Finished x)
  have "admitted ws i" using assms Finished(3) by (rule lets_runD(2))
  with Finished show ?case using works.step [of E admitted ws0 s0 ws s i "Over (outcome r)" s] by simp
next
  case (Step k)
  obtain u t where k: "k s = (u, t)" by (cases "k s")
  have "admitted ws i" using assms Step(4) by (rule lets_runD(2))
  then have "works E admitted ws0 s0 (ws[i := Holding p u]) t"
    using works.step [OF Step(2,3), of "Holding p u" t] Step(4) k by simp
  moreover have "run_all u t = (r, s')" using Step(5) k by simp
  ultimately show ?case
    using Step(1) [of "k s" u "ws[i := Holding p u]" t] k Step(3) rangeI [of k s] by (simp add: fsts.simps)
qed

fun as_worker :: "'c task \<Rightarrow> ('n, 's, 'c) worker" where
  "as_worker (Ready op) = Idle op"
| "as_worker (Waiting p) = Blocked p"
| "as_worker (Done r) = Over r"

fun locked_right :: "'c task \<Rightarrow> bool" where
  "locked_right (Waiting (Locked op)) = lock_first op"
| "locked_right _ = True"

lemma as_worker_plain [simp]: "\<not> holds (as_worker t)"
  by (cases t) simp_all

lemma first_part_locked: "first_part E op s = (Inr (Some (Locked op')), s') \<Longrightarrow> lock_first op'"
  by (cases op) (auto simp: and_then_Inr_iff ret_eq)

lemma advance_locked: "advance E t s = (t', s') \<Longrightarrow> locked_right t \<Longrightarrow> locked_right t'"
  by (cases t; cases t' rule: locked_right.cases)
     (auto dest: first_part_locked split: prod.split_asm sum.split_asm option.split_asm)

text \<open>A part of a task is a run of steps of its worker.\<close>

lemma part_through:
  fixes E :: "('n, 's, 'c) env"
  assumes "lets_run admitted" and "works E admitted ws0 s0 ws s" and i: "i < length ws" and w: "ws ! i = as_worker t"
    and "locked_right t" and "admitted ws i" and "\<forall>w \<in> set ws. \<not> holds w" and "advance E t s = (t', s')"
  shows "works E admitted ws0 s0 (ws[i := as_worker t']) s'"
proof (cases t)
  case (Ready op)
  obtain r where r: "first_part E op s = (r, s')" "as_worker t' = (after_before r :: ('n, 's, 'c) worker)"
    using assms(8) Ready by (auto split: prod.split_asm sum.split_asm option.split_asm)
  have "works E admitted ws0 s0 (ws[i := Before op (before_steps E op)]) s"
    using works.step [OF assms(2) i, of "Before op (before_steps E op)" s] assms(6) w Ready by simp
  from before_through [OF assms(1) this, of i op "before_steps E op" r s'] i r show ?thesis by simp
next
  case (Waiting p)
  obtain r where r: "second_part E p s = (r, s')" "t' = Done (outcome r)"
    using assms(8) Waiting by (auto split: prod.split_asm)
  have "works E admitted ws0 s0 (ws[i := Holding p (locked_steps E p)]) s"
    using works.step [OF assms(2) i, of "Holding p (locked_steps E p)" s] assms(6,7) w Waiting by simp
  moreover have "run_all (locked_steps E p) s = (r, s')"
    using run_locked [of p E] assms(5) Waiting r(1) by (cases p) simp_all
  ultimately show ?thesis
    using holding_through [OF assms(1), of E ws0 s0 "ws[i := Holding p (locked_steps E p)]" s i] i r(2) by simp
next
  case (Done r)
  then have "ws[i := as_worker t'] = ws" "s' = s" using assms(8) w i by (auto simp: list_update_same_conv)
  with assms(2) show ?thesis by simp
qed

text \<open>
  The two models of overlapping operations agree: every schedule that runs the parts of the tasks one at
  a time is an interleaving of their steps, with the same state and the same outcomes; so the races of
  whole parts in \<open>Client_Tasks\<close> are races of the steps.
\<close>

lemma schedules_are_interleavings:
  assumes "runs E (\<lambda>_ _. True) [] s0 ts s"
  shows "works E (\<lambda>_ _. True) [] s0 (map as_worker ts) s"
proof -
  have "works E (\<lambda>_ _. True) [] s0 (map as_worker ts) s \<and> (\<forall>t \<in> set ts. locked_right t)"
    using assms
  proof (induction rule: runs.induct)
    case stop
    show ?case by (simp add: works.stop)
  next
    case (spawn ts s op)
    then show ?case using works.spawn [of E _ "[]" s0 "map as_worker ts" s op] by simp
  next
    case (part ts s i t s')
    have "works E (\<lambda>_ _. True) [] s0 ((map as_worker ts)[i := as_worker t]) s'"
      by (rule part_through [where t = "ts ! i"]) (use part in \<open>auto simp: lets_run_def\<close>)
    moreover have "locked_right t" using advance_locked [OF part(4)] part(2,5) by simp
    ultimately show ?case
      using part(5) set_update_subset_insert [of ts i t] by (auto simp: map_update)
  qed
  then show ?thesis ..
qed

text \<open>A connection attempt of the sample client in its two parts, for the witnesses.\<close>

lemma sample_connect_parts:
  obtains t s1 r where "advance sample_env (Ready (Op_Connect ''h'' 1)) sample_enrolled = (t, s1)"
    and "advance sample_env t s1 = (Done r, run_op sample_env (Op_Connect ''h'' 1) sample_enrolled)"
    and "apart [as_worker t :: (mock, memory, unit) worker] 0"
proof -
  let ?op = "Op_Connect ''h'' 1"
  obtain t s1 where first: "advance sample_env (Ready ?op) sample_enrolled = (t, s1)"
    by (cases "advance sample_env (Ready ?op) sample_enrolled")
  moreover have "advance sample_env t s1 =
      (Done (outcome (fst (exec_op sample_env ?op sample_enrolled))), run_op sample_env ?op sample_enrolled)"
    using advance_two_parts [of sample_env ?op sample_enrolled] first
    by (simp add: in_two_parts_exec exec_run_op del: run_op.simps advance.simps exec_op.simps)
  moreover have "apart [as_worker t :: (mock, memory, unit) worker] 0"
    using first by (auto simp: and_then_def ret_eq apart_def split: sum.split_asm prod.split_asm)
  ultimately show thesis by (rule that)
qed

section \<open>Properties\<close>

text \<open>
  Property C4: trust on first use between any two steps. Whatever store operations, requests and updates
  of any number of operations fall between one another, as long as no enrollment or sign-in holds the
  lock while a connection attempt is in flight, the server the client is connected to is the pinned
  one, at every moment; provided that a failed write or deletion of the store leaves the entry as it was.
\<close>

theorem interleaved_steps_keep_trust:
  assumes "atomic_store (env_store E) view" and "profile_json_sound (env_vault E)"
    and "works E apart [] (client_with_store h store) ws s"
    and "stored_pin E view s = Some pin" and "in_verified (cl_inner s) = Some v"
  shows "identity_public v = pin"
proof -
  have "crew_ok E view ws s"
    using assms(1-3) by (rule works_crew) (simp add: crew_ok_def start_trust_ok)
  then show ?thesis using assms(4,5) by (simp add: crew_ok_def trust_ok_def trust_of_def)
qed

theorem interleaved_steps_keep_trust_witness:
  "identity_public sample_server = sample_public"
proof -
  let ?op = "Op_Connect ''h'' 1"
  let ?s = "run_op sample_env ?op sample_enrolled"
  have start: "sample_enrolled = client_with_store
      \<lparr>host_rng = of_nat, host_net = \<lparr>mo_key_material = bundle_to_key_material (bo_bundle sample_boot), mo_avatar = None\<rparr>\<rparr>
      (cl_store sample_enrolled)"
    by (simp add: sample_enrolled_def sample_start_def client_with_store_def host.extend_def client.fields_def)
  obtain t s1 r where first: "advance sample_env (Ready ?op) sample_enrolled = (t, s1)"
    and second: "advance sample_env t s1 = (Done r, ?s)" and no_pin: "apart [as_worker t :: (mock, memory, unit) worker] 0"
    by (rule sample_connect_parts)
  have "works sample_env apart [] sample_enrolled [as_worker (Ready ?op)] sample_enrolled"
    using works.spawn [OF works.stop, of sample_env apart "[]"] by simp
  then have "works sample_env apart [] sample_enrolled ([as_worker (Ready ?op)][0 := as_worker t]) s1"
    by (rule part_through [OF lets_run_apart _ _ _ _ _ _ first]) (simp_all add: apart_def)
  then have "works sample_env apart [] sample_enrolled [as_worker t] s1" by simp
  then have "works sample_env apart [] sample_enrolled ([as_worker t][0 := as_worker (Done r)]) ?s"
    by (rule part_through [OF lets_run_apart _ _ _ _ _ _ second])
       (use no_pin advance_locked [OF first] in simp_all)
  then have "works sample_env apart [] (client_with_store
      \<lparr>host_rng = of_nat, host_net = \<lparr>mo_key_material = bundle_to_key_material (bo_bundle sample_boot), mo_avatar = None\<rparr>\<rparr>
      (cl_store sample_enrolled)) [Over r] ?s"
    using start by simp
  then show ?thesis
    by (rule interleaved_steps_keep_trust [OF sample_env_ok]) (use sample_connected in blast)+
qed

end
