(* ===== verification/Spec2Isabelle.thy ===== *)
theory Spec2Isabelle
  imports Prelude Bit_Groups Secret_Key Text_Codec Crypto Discovery Storage Proto Transport
    Mock_Server Flows Client Client_Pin Client_Session Client_Account Client_Tasks Ffi
    Client_Types Secret_Key_Bounds Test_Prelude Test_Crypto Test_Discovery Test_Storage
    Test_Servers Test_Flows Test_Client Sync_Proto Gen_Bindings
    Procs Client_Steps Client_Assures Client_Crew
begin

text \<open>
  A verification library for the Sylva client SDK (Rust, \<open>src/\<close>): the client side of an end-to-end
  encrypted account. The library models the Rust code as HOL functions, file by file, and proves what
  makes it correct.

  \<^bold>\<open>The program.\<close> A shell (desktop application) holds a \<open>SylvaClient\<close> (\<open>src/ffi.rs\<close>), which drives the
  facade \<open>Client\<close> (\<open>src/client.rs\<close>). The facade keeps the connection and the session in memory and
  the enrollment of the device in the vault (\<open>src/storage.rs\<close>) over the OS keychain. To connect it
  asks a server for a signed discovery answer, verifies it and compares the key with the pinned one
  (\<open>src/transport/discovery.rs\<close>, \<open>src/transport/mod.rs\<close>), then opens a channel and calls the account
  service (\<open>src/transport/client.rs\<close>). The flows (\<open>src/flows.rs\<close>) combine these calls with the
  cryptography (\<open>src/crypto/mod.rs\<close>): a master key wrapped under a key derived from the password and
  the Secret Key, whose written form is \<open>src/crypto/secret_key.rs\<close>.

  \<^bold>\<open>Theories.\<close>
  \<^item> Prelude: fallible state-passing computations (\<open>exec\<close>: \<open>ret\<close>, \<open>throw\<close>, \<open>and_then\<close>, \<open>map_error\<close>,
    \<open>attempt\<close>), the predicate \<open>keeps\<close> with its composition rules, codecs as a locale, bytes and characters.
  \<^item> Bit_Groups, Secret_Key: base 32 as the code computes it, on a 32-bit accumulator, against the
    specification by groups of bits; round trip, accepted inputs. Secret_Key_Bounds: the same loops with
    32-bit counters and every operation that can panic checked, which never fails.
  \<^item> Text_Codec: hex, decimal ports, \<open>rsplit_once\<close>, \<open>str::get\<close>.
  \<^item> Crypto: bootstrap, unlock, rewrap, sealed box, over a parameter record \<open>crypto_lib\<close>.
  \<^item> Discovery: the signed bytes, verification, the trust decision, fetching with a fresh challenge.
  \<^item> Storage: the store interface (locales \<open>secret_store\<close>, \<open>atomic_store\<close>, \<open>reliable_store\<close>), the in-memory
    store, the OS keychain over the keyring crate, the boxed store, the vault.
  \<^item> Proto, Transport: the messages, endpoint failover, the authenticated calls, discover and connect;
    locales \<open>key_service\<close> and \<open>account_service\<close> state what a server promises, Mock_Server provides them
    with the server of the facade's tests.
  \<^item> Flows: enrolling an owner, signing in.
  \<^item> Client: the state of the facade and its fifteen operations. Client_Pin: the abstract trust machine
    that every operation refines, and its invariant. Client_Session, Client_Account: what the operations
    do, error paths included. Client_Types: every key held or stored keeps the size of its type.
    Client_Tasks: overlapping operations, each method cut at its lock.
  \<^item> Procs: computations as sequences of atomic steps, with rely and guarantee. Client_Steps: every method
    as the sequence of its store operations, requests and memory updates, and crews of methods that run
    step by step around one lock; Client_Assures, Client_Crew: what the steps assure, trust between
    any two steps, the coarse schedules as interleavings. The crew and its scheduler stand for tokio's
    executor and mutex and model no lines of the crate.
  \<^item> Ffi: the shell's handle.
  \<^item> Test_Servers: the servers of the transport and flow tests, which keep the same contract.
  \<^item> Test_Prelude, Test_Crypto, Test_Discovery, Test_Storage, Test_Flows, Test_Client: the unit tests of
    the crate as computations that panic where the tests would. Most pass for every library that does
    what it documents; a test that compares two random draws or two derived keys passes exactly when
    they differ, and one that tampers with a blob exactly when the library detects it.
  \<^item> Sync_Proto: the tool that copies the protocol files, as a merge of file trees. Gen_Bindings: the
    tool that builds the library and generates the bindings, as a plan of actions that stops at the
    first failure.

  \<^bold>\<open>Parameters.\<close> Code outside \<open>src/\<close> is an argument: the cryptographic crates (\<open>crypto_lib\<close>), Ed25519 and
  the JSON of discovery (\<open>discovery_lib\<close>), the JSON of profiles (\<open>vault_lib\<close>), HTTP, tonic and the server
  (\<open>http\<close>, \<open>net\<close>), the keyring crate (\<open>keyring\<close>), processes and files of the bindings tool (\<open>system\<close>), the
  signing side of the discovery tests (\<open>signer\<close>), the random source (a stream of bytes in the state).
  What a lemma needs of them is a named predicate or locale (\<open>lib_sound\<close>, \<open>lib_total\<close>, \<open>signs_only\<close>,
  \<open>keyring_sound\<close>, \<open>keyring_total\<close>, \<open>keyring_atomic\<close>, \<open>profile_json_sound\<close>, \<open>lib_good\<close>,
  \<open>signer_sound\<close>), and each is shown satisfiable by a concrete instance. One of them is an assumption
  that the keyring crate does not document: \<open>keyring_atomic\<close>, a failed write or deletion leaves the
  entry as it was. The keychain is an \<open>atomic_store\<close> under it (\<open>keychain_atomic\<close>), and the properties of
  trust and of key sizes need it, since a half-written profile could hold any pin.

  \<^bold>\<open>Conventions.\<close> A \<open>Result\<close> is a sum with the error on the left; a method is a function from its state to
  a result and the next state, also when it fails. Bytes and the integers of the code have their width.
  A string is the list of its UTF-8 bytes as characters. Every loop is structural recursion, so
  there is no fuel and every operation returns.

  \<^bold>\<open>Not modelled.\<close> The stubs that \<open>build.rs\<close> generates and \<open>src/proto.rs\<close> includes, beyond the messages the
  code uses; what the processes that \<open>src/bin/gen-bindings.rs\<close> starts do; sockets of the test servers;
  zeroing of memory and the timing of operations; interleavings inside one store operation, one request
  or one draw of random bytes; calls that never return and operations dropped at an \<open>await\<close> (every
  parameter is a total function, so nothing is claimed about liveness of the lock); panics of the random
  source and of poisoned locks; the text of tonic's errors, which \<open>Transport_Error\<close> carries unread.
\<close>

end
